(* ===== verification/Dist_Prelude.thy ===== *)
theory Dist_Prelude
  imports Main "HOL-Library.AList" "HOL-Library.Word" "HOL-Library.Sublist"
    "HOL-Library.List_Lexorder" "HOL-Library.Char_ord" "HOL-Library.Product_Lexorder"
    "HOL-Library.Code_Target_Nat"
begin

text \<open>
  Shared vocabulary of the development: Rust's \<^verbatim>\<open>Result\<close> as a sum type with the error on
  the left, \<^verbatim>\<open>HashMap\<close> as an association list with distinct keys, machine arithmetic of
  \<^verbatim>\<open>u64\<close> and \<^verbatim>\<open>u32\<close> on natural numbers with the wrap-around written out,
  \<^verbatim>\<open>SystemTime\<close> and \<^verbatim>\<open>Duration\<close> in nanoseconds, and the string functions of the Rust
  standard library the program calls, on UTF-8 byte strings.
\<close>

named_theorems res_simps "rewrite rules that take a successful result apart"

section \<open>Results\<close>

text \<open>The \<^verbatim>\<open>?\<close> operator: stop at the first error, otherwise go on with the value.\<close>

fun rbind :: "'e + 'a \<Rightarrow> ('a \<Rightarrow> 'e + 'b) \<Rightarrow> 'e + 'b" where
  "rbind (Inl e) f = Inl e"
| "rbind (Inr x) f = f x"

fun map_err :: "('e \<Rightarrow> 'f) \<Rightarrow> 'e + 'a \<Rightarrow> 'f + 'a" where
  "map_err f (Inl e) = Inl (f e)"
| "map_err f (Inr x) = Inr x"

fun ok_or :: "'e \<Rightarrow> 'a option \<Rightarrow> 'e + 'a" where
  "ok_or e None = Inl e"
| "ok_or e (Some x) = Inr x"

definition ensure :: "bool \<Rightarrow> 'e \<Rightarrow> 'e + unit" where
  "ensure b e = (if b then Inr () else Inl e)"

text \<open>A \<^verbatim>\<open>for\<close> loop whose body may return early with an error.\<close>

fun try_each :: "('a \<Rightarrow> 'e + unit) \<Rightarrow> 'a list \<Rightarrow> 'e + unit" where
  "try_each f [] = Inr ()"
| "try_each f (x # xs) = rbind (f x) (\<lambda>_. try_each f xs)"

text \<open>\<^verbatim>\<open>collect::<Result<Vec<_>, _>>()\<close>.\<close>

fun try_map :: "('a \<Rightarrow> 'e + 'b) \<Rightarrow> 'a list \<Rightarrow> 'e + 'b list" where
  "try_map f [] = Inr []"
| "try_map f (x # xs) = rbind (f x) (\<lambda>y. rbind (try_map f xs) (\<lambda>ys. Inr (y # ys)))"

text \<open>A loop that threads a state and may return early with an error.\<close>

fun try_fold :: "('s \<Rightarrow> 'a \<Rightarrow> 'e + 's) \<Rightarrow> 's \<Rightarrow> 'a list \<Rightarrow> 'e + 's" where
  "try_fold f s [] = Inr s"
| "try_fold f s (x # xs) = rbind (f s x) (\<lambda>s'. try_fold f s' xs)"

lemma not_isl_projr: "\<not> isl r \<Longrightarrow> r = Inr (projr r)"
  by (cases r) auto

lemma rbind_Inr_iff [res_simps]:
  "rbind r f = Inr y \<longleftrightarrow> (\<exists>x. r = Inr x \<and> f x = Inr y)"
  by (cases r) auto

lemma rbind_Inl_iff [res_simps]:
  "rbind r f = Inl e \<longleftrightarrow> r = Inl e \<or> (\<exists>x. r = Inr x \<and> f x = Inl e)"
  by (cases r) auto

lemma rbind_assoc: "rbind (rbind r f) g = rbind r (\<lambda>x. rbind (f x) g)"
  by (cases r) auto

lemma map_err_Inr_iff [res_simps]: "map_err f r = Inr y \<longleftrightarrow> r = Inr y"
  by (cases r) auto

lemma map_err_Inl_iff [res_simps]: "map_err f r = Inl e \<longleftrightarrow> (\<exists>d. r = Inl d \<and> e = f d)"
  by (cases r) auto

lemma ok_or_Inr_iff [res_simps]: "ok_or e r = Inr y \<longleftrightarrow> r = Some y"
  by (cases r) auto

lemma ok_or_Inl_iff [res_simps]: "ok_or e r = Inl d \<longleftrightarrow> r = None \<and> d = e"
  by (cases r) auto

lemma ensure_Inr_iff [res_simps]: "ensure b e = Inr u \<longleftrightarrow> b"
  by (simp add: ensure_def)

lemma ensure_Inl_iff [res_simps]: "ensure b e = Inl d \<longleftrightarrow> \<not> b \<and> d = e"
  by (auto simp: ensure_def)

lemma ensure_simps [simp]: "ensure True e = Inr ()" "ensure False e = Inl e"
  by (simp_all add: ensure_def)

lemma try_each_Inr_iff [res_simps]:
  "try_each f xs = Inr u \<longleftrightarrow> (\<forall>x \<in> set xs. f x = Inr ())"
  by (induction xs) (auto simp: res_simps)

lemma try_each_Inl_dest: "try_each f xs = Inl e \<Longrightarrow> \<exists>x \<in> set xs. f x = Inl e"
  by (induction xs) (auto simp: res_simps)

lemma try_map_Inr_iff [res_simps]:
  "try_map f xs = Inr ys \<longleftrightarrow> list_all2 (\<lambda>x y. f x = Inr y) xs ys"
  by (induction xs arbitrary: ys) (auto simp: res_simps list_all2_Cons1)

lemma try_map_length: "try_map f xs = Inr ys \<Longrightarrow> length ys = length xs"
  by (auto simp: res_simps dest: list_all2_lengthD)

lemma try_map_total: "(\<And>x. x \<in> set xs \<Longrightarrow> f x = Inr (g x)) \<Longrightarrow> try_map f xs = Inr (map g xs)"
  by (induction xs) auto

lemma try_fold_append:
  "try_fold f s (xs @ ys) = rbind (try_fold f s xs) (\<lambda>s'. try_fold f s' ys)"
proof (induction xs arbitrary: s)
  case (Cons x xs)
  then show ?case by (cases "f s x") auto
qed simp

lemma try_fold_invariant:
  assumes "try_fold f s xs = Inr t" and "I s"
    and "\<And>a x b. x \<in> set xs \<Longrightarrow> I a \<Longrightarrow> f a x = Inr b \<Longrightarrow> I b"
  shows "I t"
  using assms
proof (induction xs arbitrary: s)
  case (Cons x xs)
  then obtain s' where "f s x = Inr s'" "try_fold f s' xs = Inr t"
    by (auto simp: res_simps)
  with Cons show ?case by (metis list.set_intros)
qed simp

section \<open>Machine integers\<close>

definition u64_max :: nat where
  "u64_max = 2 ^ 64 - 1"

definition u32_max :: nat where
  "u32_max = 2 ^ 32 - 1"

text \<open>The release-mode \<^verbatim>\<open>+\<close> of the two widths, and \<^verbatim>\<open>checked_add\<close>.\<close>

definition u64_add :: "nat \<Rightarrow> nat \<Rightarrow> nat" where
  "u64_add x y = (x + y) mod 2 ^ 64"

definition u32_add :: "nat \<Rightarrow> nat \<Rightarrow> nat" where
  "u32_add x y = (x + y) mod 2 ^ 32"

definition u64_checked_add :: "nat \<Rightarrow> nat \<Rightarrow> nat option" where
  "u64_checked_add x y = (if x + y \<le> u64_max then Some (x + y) else None)"

lemma u64_add_fits [simp]: "x + y \<le> u64_max \<Longrightarrow> u64_add x y = x + y"
  by (simp add: u64_add_def u64_max_def)

lemma u32_add_fits [simp]: "x + y \<le> u32_max \<Longrightarrow> u32_add x y = x + y"
  by (simp add: u32_add_def u32_max_def)

lemma u64_add_le: "u64_add x y \<le> u64_max"
proof -
  have "(x + y) mod 2 ^ 64 < (2 ^ 64 :: nat)"
    by (rule mod_less_divisor) simp
  then show ?thesis
    by (simp add: u64_add_def u64_max_def)
qed

lemma u64_checked_add_Some_iff [simp]:
  "u64_checked_add x y = Some z \<longleftrightarrow> z = x + y \<and> x + y \<le> u64_max"
  by (auto simp: u64_checked_add_def)

lemma u64_checked_add_None_iff [simp]: "u64_checked_add x y = None \<longleftrightarrow> u64_max < x + y"
  by (auto simp: u64_checked_add_def)

section \<open>Time\<close>

text \<open>
  \<^verbatim>\<open>SystemTime\<close> is a signed number of nanoseconds since the Unix epoch whose seconds fit
  an \<^verbatim>\<open>i64\<close>; \<^verbatim>\<open>Duration\<close> is an unsigned number of nanoseconds.
\<close>

type_synonym system_time = int
type_synonym duration = nat

abbreviation UNIX_EPOCH :: system_time where
  "UNIX_EPOCH \<equiv> 0"

definition system_time_max :: system_time where
  "system_time_max = 2 ^ 63 * 1000000000 - 1"

definition time_checked_add :: "system_time \<Rightarrow> duration \<Rightarrow> system_time option" where
  "time_checked_add t d =
     (if t + int d \<le> system_time_max then Some (t + int d) else None)"

lemma time_checked_add_Some_iff [simp]:
  "time_checked_add t d = Some u \<longleftrightarrow> u = t + int d \<and> t + int d \<le> system_time_max"
  by (auto simp: time_checked_add_def)

lemma time_checked_add_None_iff [simp]:
  "time_checked_add t d = None \<longleftrightarrow> system_time_max < t + int d"
  by (auto simp: time_checked_add_def)

section \<open>Hash maps\<close>

text \<open>
  A \<^verbatim>\<open>HashMap\<close> is an association list with distinct keys; the order of the list stands for
  the (unspecified) iteration order of the map.
\<close>

type_synonym ('k, 'v) hashmap = "('k \<times> 'v) list"

abbreviation hm_wf :: "('k, 'v) hashmap \<Rightarrow> bool" where
  "hm_wf m \<equiv> distinct (map fst m)"

definition hm_contains :: "('k, 'v) hashmap \<Rightarrow> 'k \<Rightarrow> bool" where
  "hm_contains m k = (map_of m k \<noteq> None)"

definition hm_retain :: "('k \<Rightarrow> bool) \<Rightarrow> ('k, 'v) hashmap \<Rightarrow> ('k, 'v) hashmap" where
  "hm_retain P m = filter (\<lambda>(k, _). P k) m"

lemma hm_contains_iff: "hm_contains m k \<longleftrightarrow> k \<in> fst ` set m"
  by (simp add: hm_contains_def map_of_eq_None_iff)

lemma hm_wf_update [simp]: "hm_wf (AList.update k v m) \<longleftrightarrow> hm_wf m"
proof
  show "hm_wf (AList.update k v m)" if "hm_wf m"
    using that by (rule distinct_update)
  show "hm_wf m" if "hm_wf (AList.update k v m)"
    using that
  proof (induction m)
    case (Cons a m)
    then show ?case
      by (cases "fst a = k") (auto simp: dom_update)
  qed simp
qed

lemma hm_wf_retain [simp]: "hm_wf m \<Longrightarrow> hm_wf (hm_retain P m)"
  by (induction m) (auto simp: hm_retain_def)

lemma map_of_retain: "map_of (hm_retain P m) k = (if P k then map_of m k else None)"
  by (induction m) (auto simp: hm_retain_def)

lemma map_of_update [simp]: "map_of (AList.update k v m) = (map_of m)(k \<mapsto> v)"
  by (simp add: update_conv')

lemma map_of_delete [simp]: "map_of (AList.delete k m) = (map_of m)(k := None)"
  by (simp add: delete_conv')

lemma alist_update_fresh: "k \<notin> fst ` set m \<Longrightarrow> AList.update k v m = m @ [(k, v)]"
  by (induction m) auto

text \<open>A property of every entry of a map, kept folded in the proofs that carry it along.\<close>

definition hm_all :: "('k \<Rightarrow> 'v \<Rightarrow> bool) \<Rightarrow> ('k, 'v) hashmap \<Rightarrow> bool" where
  "hm_all P m = list_all (\<lambda>(k, v). P k v) m"

lemma hm_all_Nil [simp]: "hm_all P []"
  by (simp add: hm_all_def)

lemma hm_all_lookup: "hm_all P m \<Longrightarrow> map_of m k = Some v \<Longrightarrow> P k v"
  by (auto simp: hm_all_def list_all_iff dest!: map_of_SomeD)

lemma hm_all_update: "hm_all P m \<Longrightarrow> P k v \<Longrightarrow> hm_all P (AList.update k v m)"
  unfolding hm_all_def by (induction m) auto

lemma hm_all_mono: "hm_all P m \<Longrightarrow> (\<And>k v. P k v \<Longrightarrow> Q k v) \<Longrightarrow> hm_all Q m"
  unfolding hm_all_def by (induction m) auto

text \<open>\<^verbatim>\<open>BTreeMap::insert\<close> on an association list in key order.\<close>

fun bt_insert :: "'k :: linorder \<Rightarrow> 'v \<Rightarrow> ('k \<times> 'v) list \<Rightarrow> ('k \<times> 'v) list" where
  "bt_insert k v [] = [(k, v)]"
| "bt_insert k v ((l, w) # m) =
     (if k < l then (k, v) # (l, w) # m
      else if k = l then (k, v) # m
      else (l, w) # bt_insert k v m)"

abbreviation bt_wf :: "('k :: linorder \<times> 'v) list \<Rightarrow> bool" where
  "bt_wf m \<equiv> sorted_wrt (<) (map fst m)"

lemma map_of_bt_insert [simp]: "map_of (bt_insert k v m) = (map_of m)(k \<mapsto> v)"
  by (induction m) (auto simp: fun_eq_iff)

lemma fst_set_bt_insert [simp]: "fst ` set (bt_insert k v m) = insert k (fst ` set m)"
  by (simp flip: dom_map_of_conv_image_fst)

lemma set_bt_insert: "set (bt_insert k v m) \<subseteq> insert (k, v) (set m)"
  by (induction k v m rule: bt_insert.induct) (auto split: if_splits)

lemma bt_wf_insert [simp]: "bt_wf m \<Longrightarrow> bt_wf (bt_insert k v m)"
proof (induction m)
  case (Cons a m)
  then have lt: "\<forall>x \<in> fst ` set m. fst a < x" and "bt_wf (bt_insert k v m)"
    by auto
  moreover have "\<forall>x \<in> fst ` set (bt_insert k v m). fst a < x" if "fst a < k"
    using lt that by simp
  ultimately show ?case
    using Cons.prems by (cases a) (auto dest: order.strict_trans)
qed simp

lemma bt_insert_last: "\<forall>l \<in> fst ` set m. l < k \<Longrightarrow> bt_insert k v m = m @ [(k, v)]"
  by (induction m) (auto dest: order.asym)

text \<open>\<^verbatim>\<open>collect()\<close> into a \<^verbatim>\<open>BTreeMap\<close>, or a sequence of inserts.\<close>

definition bt_extend :: "('k :: linorder \<times> 'v) list \<Rightarrow> ('k \<times> 'v) list \<Rightarrow> ('k \<times> 'v) list" where
  "bt_extend m kvs = foldl (\<lambda>m (k, v). bt_insert k v m) m kvs"

lemma bt_extend_simps [simp]:
  "bt_extend m [] = m" "bt_extend m ((k, v) # kvs) = bt_extend (bt_insert k v m) kvs"
  by (simp_all add: bt_extend_def)

lemma set_bt_extend: "set (bt_extend m kvs) \<subseteq> set m \<union> set kvs"
proof (induction kvs arbitrary: m)
  case (Cons kv kvs)
  then show ?case
    using set_bt_insert [of "fst kv" "snd kv" m] by (cases kv) fastforce
qed simp

lemma map_of_bt_extend: "map_of (bt_extend m kvs) = map_of m ++ map_of (rev kvs)"
proof (induction kvs arbitrary: m)
  case (Cons kv kvs)
  then show ?case
    by (cases kv) (simp add: map_add_def fun_eq_iff split: option.splits)
qed simp

section \<open>Strings\<close>

text \<open>
  A Rust string is its UTF-8 byte sequence. \<^verbatim>\<open>trim().is_empty()\<close> holds of a string made of
  Unicode white space only; \<open>strip_space\<close> removes one white-space character from the
  front, spelled out in UTF-8.
\<close>

fun ascii_space :: "char \<Rightarrow> bool" where
  "ascii_space c = (let n = (of_char c :: nat) in (9 \<le> n \<and> n \<le> 13) \<or> n = 32)"

fun wide_space :: "nat \<Rightarrow> nat \<Rightarrow> nat \<Rightarrow> bool" where
  "wide_space a b c =
     ((a = 0xE1 \<and> b = 0x9A \<and> c = 0x80) \<or>
      (a = 0xE2 \<and> b = 0x80 \<and> ((0x80 \<le> c \<and> c \<le> 0x8A) \<or> c = 0xA8 \<or> c = 0xA9 \<or> c = 0xAF)) \<or>
      (a = 0xE2 \<and> b = 0x81 \<and> c = 0x9F) \<or>
      (a = 0xE3 \<and> b = 0x80 \<and> c = 0x80))"

fun strip_space :: "string \<Rightarrow> string option" where
  "strip_space [] = None"
| "strip_space (a # s) =
     (if ascii_space a then Some s
      else case s of
        [] \<Rightarrow> None
      | b # t \<Rightarrow>
          if (of_char a :: nat) = 0xC2 \<and> ((of_char b :: nat) = 0x85 \<or> (of_char b :: nat) = 0xA0)
          then Some t
          else (case t of
                  [] \<Rightarrow> None
                | c # u \<Rightarrow> if wide_space (of_char a) (of_char b) (of_char c) then Some u else None))"

lemma strip_space_shorter: "strip_space s = Some t \<Longrightarrow> length t < length s"
  by (cases s) (auto split: if_splits list.splits)

function blank :: "string \<Rightarrow> bool" where
  "blank s = (s = [] \<or> (case strip_space s of None \<Rightarrow> False | Some t \<Rightarrow> blank t))"
  by pat_completeness auto
termination
  by (relation "measure length") (auto intro: strip_space_shorter)

declare blank.simps [simp del]

lemma blank_Nil [simp]: "blank []"
  by (simp add: blank.simps)

lemma blank_Cons: "blank (c # s) \<longleftrightarrow> (\<exists>t. strip_space (c # s) = Some t \<and> blank t)"
  by (subst blank.simps) (auto split: option.splits)

definition to_ascii_lower :: "char \<Rightarrow> char" where
  "to_ascii_lower c =
     (let n = (of_char c :: nat) in if 65 \<le> n \<and> n \<le> 90 then char_of (n + 32) else c)"

definition eq_ignore_ascii_case :: "string \<Rightarrow> string \<Rightarrow> bool" where
  "eq_ignore_ascii_case s t = (map to_ascii_lower s = map to_ascii_lower t)"

lemma eq_ignore_ascii_case_refl [simp]: "eq_ignore_ascii_case s s"
  by (simp add: eq_ignore_ascii_case_def)

lemma eq_ignore_ascii_case_sym: "eq_ignore_ascii_case s t \<longleftrightarrow> eq_ignore_ascii_case t s"
  by (auto simp: eq_ignore_ascii_case_def)

text \<open>The first element outside a set splits a list in one way only.\<close>

lemma span_split:
  assumes "a @ c # r = b @ d # s" and "\<forall>x \<in> set a. P x" and "\<forall>x \<in> set b. P x"
    and "\<not> P c" and "\<not> P d"
  shows "a = b" "c = d" "r = s"
proof -
  have "a = b \<and> c = d \<and> r = s"
    using assms
  proof (induction a arbitrary: b)
    case Nil
    then show ?case by (cases b) auto
  next
    case (Cons x a)
    then show ?case by (cases b) auto
  qed
  then show "a = b" "c = d" "r = s" by simp_all
qed

lemma delimited_split:
  assumes "a @ d # r = b @ d # s" and "d \<notin> set a" and "d \<notin> set b"
  shows "a = b" "r = s"
  using span_split [OF assms(1), where P = "\<lambda>x. x \<noteq> d"] assms(2,3) by auto

section \<open>Decimal numerals\<close>

text \<open>\<^verbatim>\<open>to_string()\<close> and \<^verbatim>\<open>{}\<close> of the integer types.\<close>

definition digit :: "nat \<Rightarrow> char" where
  "digit n = char_of (48 + n)"

function show_nat :: "nat \<Rightarrow> string" where
  "show_nat n = (if n < 10 then [digit n] else show_nat (n div 10) @ [digit (n mod 10)])"
  by pat_completeness auto
termination
  by (relation "measure id") auto

declare show_nat.simps [simp del]

definition show_int :: "int \<Rightarrow> string" where
  "show_int i = (if i < 0 then CHR ''-'' # show_nat (nat (- i)) else show_nat (nat i))"

definition read_nat :: "string \<Rightarrow> nat" where
  "read_nat s = foldl (\<lambda>a c. 10 * a + (of_char c - 48)) 0 s"

definition is_digit :: "char \<Rightarrow> bool" where
  "is_digit c = (let n = (of_char c :: nat) in 48 \<le> n \<and> n \<le> 57)"

lemma digit_value: "n < 10 \<Longrightarrow> (of_char (digit n) :: nat) = 48 + n"
  by (simp add: digit_def)

lemma is_digit_digit: "n < 10 \<Longrightarrow> is_digit (digit n)"
  by (simp add: is_digit_def digit_value)

lemma read_show_nat [simp]: "read_nat (show_nat n) = n"
proof (induction n rule: show_nat.induct)
  case (1 n)
  then show ?case
    by (cases "n < 10") (simp_all add: show_nat.simps [of n] read_nat_def digit_value)
qed

lemma show_nat_inj [simp]: "show_nat m = show_nat n \<longleftrightarrow> m = n"
  by (metis read_show_nat)

lemma show_nat_digits: "c \<in> set (show_nat n) \<Longrightarrow> is_digit c"
proof (induction n rule: show_nat.induct)
  case (1 n)
  then show ?case
    by (cases "n < 10") (auto simp: show_nat.simps [of n] is_digit_digit)
qed

lemma show_nat_not_Nil [simp]: "show_nat n \<noteq> []"
  by (subst show_nat.simps) simp

lemma show_int_inj [simp]: "show_int i = show_int j \<longleftrightarrow> i = j"
proof
  have minus: "show_nat n \<noteq> CHR ''-'' # s" for n s
    using show_nat_digits [of "CHR ''-''" n] by (auto simp: is_digit_def)
  assume "show_int i = show_int j"
  with minus show "i = j"
    by (auto simp: show_int_def split: if_splits) (metis minus)+
qed simp

text \<open>A number followed by a non-digit can be split off the front of a string.\<close>

lemma show_nat_split:
  assumes "show_nat m @ c # r = show_nat n @ d # s" and "\<not> is_digit c" and "\<not> is_digit d"
  shows "m = n" "c = d" "r = s"
proof -
  have digits: "\<forall>x \<in> set (show_nat k). is_digit x" for k
    using show_nat_digits by blast
  show "m = n" "c = d" "r = s"
    using span_split [OF assms(1) digits digits assms(2,3)] by simp_all
qed

type_synonym byte = "8 word"
type_synonym metadata = "(string, string) hashmap"

end
