(* ===== verification/Event_Record.thy ===== *)
theory Event_Record
  imports Dist_Prelude
begin

text \<open>
  Event records of an aggregate stream (\<^verbatim>\<open>src/src/entity/event_record.rs\<close>): the record itself,
  its constructors, payload decoding behind the codec check, metadata lookup, and the
  overwrite of the causation identifier at the causal-commit boundary. The bitcode codec is a
  third-party crate, so \<open>decode\<close> takes its deserializer as an argument; the clock
  reading of a constructor is the argument \<open>now\<close>. Error messages are the formatted
  strings of the source.
\<close>

section \<open>Data\<close>

definition BITCODE_PAYLOAD_CODEC :: string where
  "BITCODE_PAYLOAD_CODEC = ''bitcode''"

definition BITCODE_PAYLOAD_CODEC_VERSION :: nat where
  "BITCODE_PAYLOAD_CODEC_VERSION = 1"

definition CAUSATION_ID :: string where
  "CAUSATION_ID = ''causation_id''"

definition CORRELATION_ID :: string where
  "CORRELATION_ID = ''correlation_id''"

datatype event_record_error = EventRecordError string

fun display_event_record_error :: "event_record_error \<Rightarrow> string" where
  "display_event_record_error (EventRecordError m) = ''event record error: '' @ m"

definition err_encode :: "string \<Rightarrow> event_record_error" where
  "err_encode source =
     EventRecordError (''failed to encode payload with codec `'' @ BITCODE_PAYLOAD_CODEC @
       ''` version '' @ show_nat BITCODE_PAYLOAD_CODEC_VERSION @ '': '' @ source)"

definition err_decode :: "string \<Rightarrow> string \<Rightarrow> nat \<Rightarrow> string \<Rightarrow> event_record_error" where
  "err_decode payload_type codec ver source =
     EventRecordError (''failed to decode payload `'' @ payload_type @ ''` with codec `'' @ codec @
       ''` version '' @ show_nat ver @ '': '' @ source)"

definition err_unsupported_codec :: "string \<Rightarrow> nat \<Rightarrow> event_record_error" where
  "err_unsupported_codec codec ver =
     EventRecordError (''unsupported payload codec `'' @ codec @ ''` version '' @ show_nat ver)"

record event_record =
  er_event_name :: string
  er_payload_codec :: string
  er_payload_codec_version :: nat
  er_payload :: "byte list"
  er_event_version :: nat
  er_sequence :: nat
  er_timestamp :: system_time
  er_metadata :: metadata

section \<open>Operations\<close>

definition event_record_new :: "system_time \<Rightarrow> string \<Rightarrow> byte list \<Rightarrow> nat \<Rightarrow> event_record" where
  "event_record_new now name bytes seqn =
     \<lparr>er_event_name = name,
      er_payload_codec = BITCODE_PAYLOAD_CODEC,
      er_payload_codec_version = BITCODE_PAYLOAD_CODEC_VERSION,
      er_payload = bytes,
      er_event_version = 1,
      er_sequence = seqn,
      er_timestamp = now,
      er_metadata = []\<rparr>"

definition new_versioned ::
    "system_time \<Rightarrow> string \<Rightarrow> byte list \<Rightarrow> nat \<Rightarrow> nat \<Rightarrow> event_record" where
  "new_versioned now name bytes seqn ver =
     \<lparr>er_event_name = name,
      er_payload_codec = BITCODE_PAYLOAD_CODEC,
      er_payload_codec_version = BITCODE_PAYLOAD_CODEC_VERSION,
      er_payload = bytes,
      er_event_version = ver,
      er_sequence = seqn,
      er_timestamp = now,
      er_metadata = []\<rparr>"

definition with_metadata ::
    "system_time \<Rightarrow> string \<Rightarrow> byte list \<Rightarrow> nat \<Rightarrow> metadata \<Rightarrow> event_record" where
  "with_metadata now name bytes seqn meta =
     \<lparr>er_event_name = name,
      er_payload_codec = BITCODE_PAYLOAD_CODEC,
      er_payload_codec_version = BITCODE_PAYLOAD_CODEC_VERSION,
      er_payload = bytes,
      er_event_version = 1,
      er_sequence = seqn,
      er_timestamp = now,
      er_metadata = meta\<rparr>"

definition codec_supported :: "event_record \<Rightarrow> bool" where
  "codec_supported ev \<longleftrightarrow>
     er_payload_codec ev = BITCODE_PAYLOAD_CODEC \<and>
     er_payload_codec_version ev = BITCODE_PAYLOAD_CODEC_VERSION"

definition decode ::
    "(byte list \<Rightarrow> string + 'v) \<Rightarrow> event_record \<Rightarrow> event_record_error + 'v" where
  "decode deserialize ev =
     (if er_payload_codec ev \<noteq> BITCODE_PAYLOAD_CODEC \<or>
         er_payload_codec_version ev \<noteq> BITCODE_PAYLOAD_CODEC_VERSION
      then Inl (err_unsupported_codec (er_payload_codec ev) (er_payload_codec_version ev))
      else map_err (err_decode (er_event_name ev) (er_payload_codec ev)
                      (er_payload_codec_version ev))
             (deserialize (er_payload ev)))"

definition event_meta :: "event_record \<Rightarrow> string \<Rightarrow> string option" where
  "event_meta ev k = map_of (er_metadata ev) k"

definition causation_id :: "event_record \<Rightarrow> string option" where
  "causation_id ev = event_meta ev CAUSATION_ID"

definition correlation_id :: "event_record \<Rightarrow> string option" where
  "correlation_id ev = event_meta ev CORRELATION_ID"

text \<open>
  \<^verbatim>\<open>retain\<close> drops every spelling of the key, then \<^verbatim>\<open>insert\<close> adds the canonical one. Event
  records and outbox messages perform the same two calls on their metadata.
\<close>

definition stamp_causation :: "string \<Rightarrow> metadata \<Rightarrow> metadata" where
  "stamp_causation cid m =
     AList.update CAUSATION_ID cid
       (hm_retain (\<lambda>k. \<not> eq_ignore_ascii_case k CAUSATION_ID) m)"

definition overwrite_causation_id :: "string \<Rightarrow> event_record \<Rightarrow> event_record" where
  "overwrite_causation_id cid ev =
     ev\<lparr>er_metadata := stamp_causation cid (er_metadata ev)\<rparr>"

section \<open>Lemmas\<close>

lemma stamp_causation_lookup:
  "map_of (stamp_causation cid m) k =
     (if k = CAUSATION_ID then Some cid
      else if eq_ignore_ascii_case k CAUSATION_ID then None else map_of m k)"
  by (simp add: stamp_causation_def map_of_retain)

lemma stamp_causation_wf [simp]: "hm_wf m \<Longrightarrow> hm_wf (stamp_causation cid m)"
  by (simp add: stamp_causation_def)

lemma overwrite_causation_id_selectors [simp]:
  "er_event_name (overwrite_causation_id cid ev) = er_event_name ev"
  "er_payload_codec (overwrite_causation_id cid ev) = er_payload_codec ev"
  "er_payload_codec_version (overwrite_causation_id cid ev) = er_payload_codec_version ev"
  "er_payload (overwrite_causation_id cid ev) = er_payload ev"
  "er_event_version (overwrite_causation_id cid ev) = er_event_version ev"
  "er_sequence (overwrite_causation_id cid ev) = er_sequence ev"
  "er_timestamp (overwrite_causation_id cid ev) = er_timestamp ev"
  by (simp_all add: overwrite_causation_id_def)

lemma causation_id_overwrite [simp]: "causation_id (overwrite_causation_id cid ev) = Some cid"
  by (simp add: causation_id_def event_meta_def overwrite_causation_id_def stamp_causation_lookup)

lemma event_record_new_selectors [simp]:
  "er_sequence (event_record_new now name bytes seqn) = seqn"
  "er_event_name (event_record_new now name bytes seqn) = name"
  "er_payload (event_record_new now name bytes seqn) = bytes"
  "er_metadata (event_record_new now name bytes seqn) = []"
  "codec_supported (event_record_new now name bytes seqn)"
  by (simp_all add: event_record_new_def codec_supported_def)

lemma new_versioned_selectors [simp]:
  "er_sequence (new_versioned now name bytes seqn ver) = seqn"
  "er_event_name (new_versioned now name bytes seqn ver) = name"
  "er_event_version (new_versioned now name bytes seqn ver) = ver"
  "er_payload (new_versioned now name bytes seqn ver) = bytes"
  "er_metadata (new_versioned now name bytes seqn ver) = []"
  "codec_supported (new_versioned now name bytes seqn ver)"
  by (simp_all add: new_versioned_def codec_supported_def)

text \<open>The stamped metadata carries exactly one causation key, whatever spellings it had.\<close>

lemma stamp_causation_unique:
  assumes "hm_wf m"
  shows "filter (\<lambda>(k, _). eq_ignore_ascii_case k CAUSATION_ID) (stamp_causation cid m)
           = [(CAUSATION_ID, cid)]"
proof -
  let ?m = "hm_retain (\<lambda>k. \<not> eq_ignore_ascii_case k CAUSATION_ID) m"
  have "CAUSATION_ID \<notin> fst ` set ?m"
    by (auto simp: hm_retain_def)
  then have "stamp_causation cid m = ?m @ [(CAUSATION_ID, cid)]"
    by (simp add: stamp_causation_def alist_update_fresh)
  moreover have "filter (\<lambda>(k, _). eq_ignore_ascii_case k CAUSATION_ID) ?m = []"
    by (auto simp: hm_retain_def filter_empty_conv)
  ultimately show ?thesis by simp
qed

section \<open>Contiguous sequences\<close>

text \<open>Events that follow position \<open>n\<close> of a stream without a gap.\<close>

fun contiguous :: "nat \<Rightarrow> event_record list \<Rightarrow> bool" where
  "contiguous n [] = True"
| "contiguous n (ev # evs) = (er_sequence ev = Suc n \<and> contiguous (Suc n) evs)"

lemma contiguous_append:
  "contiguous n (xs @ ys) \<longleftrightarrow> contiguous n xs \<and> contiguous (n + length xs) ys"
  by (induction xs arbitrary: n) auto

lemma contiguous_drop: "contiguous n xs \<Longrightarrow> k \<le> length xs \<Longrightarrow> contiguous (n + k) (drop k xs)"
  using contiguous_append [of n "take k xs" "drop k xs"] by simp

lemma contiguous_take: "contiguous n xs \<Longrightarrow> contiguous n (take k xs)"
  using contiguous_append [of n "take k xs" "drop k xs"] by simp

lemma contiguous_nth: "contiguous n xs \<Longrightarrow> i < length xs \<Longrightarrow> er_sequence (xs ! i) = n + i + 1"
  by (induction xs arbitrary: n i) (auto simp: nth_Cons split: nat.splits)

lemma contiguous_map:
  "(\<And>ev. er_sequence (f ev) = er_sequence ev) \<Longrightarrow> contiguous n (map f xs) = contiguous n xs"
  by (induction xs arbitrary: n) auto

lemma length_map_suffix [simp]: "length (take k xs @ map f (drop k xs)) = length xs"
  by (metis append_take_drop_id length_append length_map)

lemma contiguous_map_suffix:
  assumes "contiguous n xs" and "\<And>ev. er_sequence (f ev) = er_sequence ev"
  shows "contiguous n (take k xs @ map f (drop k xs))"
  using assms(1) contiguous_append [of n "take k xs" "drop k xs"]
  by (simp add: contiguous_append contiguous_map [of f, OF assms(2)])

lemma contiguous_filter_after:
  "contiguous n xs \<Longrightarrow> filter (\<lambda>ev. m < er_sequence ev) xs = drop (m - n) xs"
proof (induction xs arbitrary: n)
  case (Cons x xs)
  show ?case
  proof (cases "m \<le> n")
    case True
    with Cons.prems Cons.IH [of "Suc n"] show ?thesis by simp
  next
    case False
    then obtain k where "m - n = Suc k" "m - Suc n = k"
      by (metis Suc_diff_Suc diff_Suc_Suc linorder_not_le)
    with Cons.prems Cons.IH [of "Suc n"] False show ?thesis by simp
  qed
qed simp

end
