(* ===== verification/Upcaster.thy ===== *)
theory Upcaster
  imports Event_Record
begin

text \<open>
  Upcasting of stored events to the current payload version
  (\<^verbatim>\<open>src/src/entity/upcaster.rs\<close>). The loop of \<^verbatim>\<open>upcast_one\<close> is the recursive function
  \<open>upcast_loop\<close>, with its termination proof: the number of upcasters whose source
  version is at or above the event's version drops in every round.
\<close>

section \<open>Data\<close>

datatype upcast_error =
    SameVersionTransition string nat
  | BackwardTransition string nat nat
  | CycleDetected string nat
  | PayloadTransform string nat nat event_record_error

record event_upcaster =
  up_event_type :: string
  up_from_version :: nat
  up_to_version :: nat
  up_transform :: "event_record \<Rightarrow> upcast_error + byte list"

datatype 'a cow = Borrowed 'a | Owned 'a

fun into_owned :: "'a cow \<Rightarrow> 'a" where
  "into_owned (Borrowed x) = x"
| "into_owned (Owned x) = x"

section \<open>Operations\<close>

definition upcast_payload ::
    "(byte list \<Rightarrow> string + 'f) \<Rightarrow> ('t \<Rightarrow> string + byte list) \<Rightarrow>
     event_record \<Rightarrow> nat \<Rightarrow> ('f \<Rightarrow> 't) \<Rightarrow> upcast_error + byte list" where
  "upcast_payload deserialize serialize ev to_version transform =
     rbind (map_err (PayloadTransform (er_event_name ev) (er_event_version ev) to_version)
              (decode deserialize ev))
       (\<lambda>decoded.
          map_err (\<lambda>source. PayloadTransform (er_event_name ev) (er_event_version ev) to_version
                              (err_encode source))
            (serialize (transform decoded)))"

definition up_matches :: "event_record \<Rightarrow> event_upcaster \<Rightarrow> bool" where
  "up_matches ev u \<longleftrightarrow>
     up_event_type u = er_event_name ev \<and> up_from_version u = er_event_version ev"

definition upcaster_applies :: "event_upcaster list \<Rightarrow> event_record \<Rightarrow> bool" where
  "upcaster_applies us ev \<longleftrightarrow> list_ex (up_matches ev) us"

lemma find_up_matches:
  assumes "find (up_matches ev) us = Some u"
  shows "u \<in> set us" "up_matches ev u"
  using assms by (auto simp: find_Some_iff)

lemma remaining_upcasters_drop:
  assumes "find (up_matches ev) us = Some u" and "er_event_version ev < up_to_version u"
  shows "length (filter (\<lambda>w. up_to_version u \<le> up_from_version w) us)
           < length (filter (\<lambda>w. er_event_version ev \<le> up_from_version w) us)"
proof -
  note m = find_up_matches [OF assms(1)]
  have "filter (\<lambda>w. up_to_version u \<le> up_from_version w) us
          = filter (\<lambda>w. up_to_version u \<le> up_from_version w)
              (filter (\<lambda>w. er_event_version ev \<le> up_from_version w) us)"
    using assms(2) by (auto intro!: filter_cong)
  moreover have "u \<in> set (filter (\<lambda>w. er_event_version ev \<le> up_from_version w) us)"
    and "\<not> up_to_version u \<le> up_from_version u"
    using m assms(2) by (auto simp: up_matches_def)
  ultimately show ?thesis
    by (metis (no_types, lifting) length_filter_less)
qed

function upcast_loop ::
    "event_upcaster list \<Rightarrow> nat set option \<Rightarrow> event_record \<Rightarrow> upcast_error + event_record" where
  "upcast_loop us seen_versions ev =
     (case find (up_matches ev) us of
        None \<Rightarrow> Inr ev
      | Some u \<Rightarrow>
          if up_to_version u = er_event_version ev
          then Inl (SameVersionTransition (er_event_name ev) (er_event_version ev))
          else
            (let seen = (case seen_versions of None \<Rightarrow> {er_event_version ev} | Some s \<Rightarrow> s) in
             if up_to_version u \<in> seen
             then Inl (CycleDetected (er_event_name ev) (up_to_version u))
             else if up_to_version u < er_event_version ev
             then Inl (BackwardTransition (er_event_name ev) (er_event_version ev)
                         (up_to_version u))
             else
               (case up_transform u ev of
                  Inl e \<Rightarrow> Inl e
                | Inr bytes \<Rightarrow>
                    upcast_loop us (Some (insert (up_to_version u) seen))
                      (ev\<lparr>er_payload := bytes, er_event_version := up_to_version u\<rparr>))))"
  by pat_completeness auto
termination
  by (relation "measure (\<lambda>(us, _, ev).
        length (filter (\<lambda>w. er_event_version ev \<le> up_from_version w) us))")
     (auto intro: remaining_upcasters_drop)

declare upcast_loop.simps [simp del]

definition upcast_one ::
    "event_record \<Rightarrow> event_upcaster list \<Rightarrow> upcast_error + event_record" where
  "upcast_one ev us = upcast_loop us None ev"

definition upcast_events ::
    "event_record list \<Rightarrow> event_upcaster list \<Rightarrow> upcast_error + event_record list" where
  "upcast_events evs us = try_map (\<lambda>ev. upcast_one ev us) evs"

definition upcast_events_for_replay ::
    "event_record list \<Rightarrow> event_upcaster list \<Rightarrow>
     upcast_error + event_record cow list option" where
  "upcast_events_for_replay evs us =
     (if us = [] \<or> \<not> list_ex (upcaster_applies us) evs then Inr None
      else
        rbind (try_map
                 (\<lambda>ev. if upcaster_applies us ev
                       then rbind (upcast_one ev us) (\<lambda>ev'. Inr (Owned ev'))
                       else Inr (Borrowed ev)) evs)
          (\<lambda>view. Inr (Some view)))"

section \<open>Lemmas\<close>

lemma upcaster_applies_find:
  "upcaster_applies us ev \<longleftrightarrow> find (up_matches ev) us \<noteq> None"
  by (auto simp: upcaster_applies_def list_ex_iff find_None_iff)

lemma upcast_one_unmatched: "\<not> upcaster_applies us ev \<Longrightarrow> upcast_one ev us = Inr ev"
  by (simp add: upcast_one_def upcaster_applies_find upcast_loop.simps)

text \<open>What a rewrite may touch: the payload and its version, nothing else.\<close>

definition same_except_payload :: "event_record \<Rightarrow> event_record \<Rightarrow> bool" where
  "same_except_payload ev ev' \<longleftrightarrow>
     ev' = ev\<lparr>er_payload := er_payload ev', er_event_version := er_event_version ev'\<rparr>"

lemma same_except_payload_refl [simp]: "same_except_payload ev ev"
  by (simp add: same_except_payload_def)

lemma same_except_payload_upd:
  "same_except_payload (ev\<lparr>er_payload := b, er_event_version := v\<rparr>) ev'
     \<longleftrightarrow> same_except_payload ev ev'"
  by (simp add: same_except_payload_def)

lemma same_except_payload_selectors:
  assumes "same_except_payload ev ev'"
  shows "er_event_name ev' = er_event_name ev" "er_sequence ev' = er_sequence ev"
    "er_timestamp ev' = er_timestamp ev" "er_metadata ev' = er_metadata ev"
    "er_payload_codec ev' = er_payload_codec ev"
    "er_payload_codec_version ev' = er_payload_codec_version ev"
  using assms unfolding same_except_payload_def
  by (metis event_record.select_convs event_record.surjective event_record.update_convs(4,5))+

lemma upcast_loop_result:
  assumes "upcast_loop us seen ev = Inr ev'"
  shows "\<not> upcaster_applies us ev' \<and> same_except_payload ev ev' \<and>
         er_event_version ev \<le> er_event_version ev'"
  using assms
proof (induction us seen ev rule: upcast_loop.induct)
  case (1 us seen ev)
  show ?case
  proof (cases "find (up_matches ev) us")
    case None
    with "1.prems" show ?thesis
      by (simp add: upcast_loop.simps [of us seen ev] upcaster_applies_find)
  next
    case (Some u)
    with "1.prems" obtain bytes where b: "up_transform u ev = Inr bytes"
      and s: "up_to_version u \<noteq> er_event_version ev" "\<not> up_to_version u < er_event_version ev"
        "up_to_version u \<notin> (case seen of None \<Rightarrow> {er_event_version ev} | Some s \<Rightarrow> s)"
      and rec: "upcast_loop us
          (Some (insert (up_to_version u)
             (case seen of None \<Rightarrow> {er_event_version ev} | Some s \<Rightarrow> s)))
          (ev\<lparr>er_payload := bytes, er_event_version := up_to_version u\<rparr>) = Inr ev'"
      by (auto simp: upcast_loop.simps [of us seen ev] Let_def split: if_splits sum.splits)
    from "1.IH" [OF Some s(1) refl s(3,2) b rec] s show ?thesis
      by (auto simp: same_except_payload_upd)
  qed
qed

text \<open>A loop over well-formed upcasters whose transforms succeed returns an event.\<close>

definition upcasters_forward :: "event_upcaster list \<Rightarrow> bool" where
  "upcasters_forward us \<longleftrightarrow> list_all (\<lambda>u. up_from_version u < up_to_version u) us"

lemma upcast_loop_total:
  assumes "upcasters_forward us"
    and "\<And>u e. u \<in> set us \<Longrightarrow> \<exists>b. up_transform u e = Inr b"
    and "\<forall>v \<in> (case seen of None \<Rightarrow> {} | Some s \<Rightarrow> s). v \<le> er_event_version ev"
  shows "\<exists>ev'. upcast_loop us seen ev = Inr ev'"
  using assms
proof (induction us seen ev rule: upcast_loop.induct)
  case (1 us seen ev)
  show ?case
  proof (cases "find (up_matches ev) us")
    case None
    then show ?thesis by (simp add: upcast_loop.simps)
  next
    case (Some u)
    let ?seen = "case seen of None \<Rightarrow> {er_event_version ev} | Some s \<Rightarrow> s"
    note m = find_up_matches [OF Some]
    have fwd: "er_event_version ev < up_to_version u"
      using m "1.prems"(1) by (auto simp: upcasters_forward_def up_matches_def list_all_iff)
    obtain b where b: "up_transform u ev = Inr b"
      using "1.prems"(2) m(1) by blast
    have seen: "\<forall>v \<in> ?seen. v \<le> er_event_version ev"
      using "1.prems"(3) by (auto split: option.splits)
    with fwd have nin: "up_to_version u \<notin> ?seen"
      by auto
    have neq: "up_to_version u \<noteq> er_event_version ev" "\<not> up_to_version u < er_event_version ev"
      using fwd by auto
    have "\<exists>ev'. upcast_loop us (Some (insert (up_to_version u) ?seen))
              (ev\<lparr>er_payload := b, er_event_version := up_to_version u\<rparr>) = Inr ev'"
      using seen fwd
      by (intro "1.IH" [OF Some neq(1) refl nin neq(2) b "1.prems"(1,2)]) force+
    then show ?thesis
      using Some b nin neq by (simp add: upcast_loop.simps [of us seen ev])
  qed
qed

lemma try_map_upcast_view:
  "rbind (try_map (\<lambda>ev. if upcaster_applies us ev
                         then rbind (upcast_one ev us) (\<lambda>ev'. Inr (Owned ev'))
                         else Inr (Borrowed ev)) evs)
     (\<lambda>view. Inr (map into_owned view)) = upcast_events evs us"
proof (induction evs)
  case (Cons ev evs)
  let ?f = "\<lambda>ev. if upcaster_applies us ev
                then rbind (upcast_one ev us) (\<lambda>ev'. Inr (Owned ev')) else Inr (Borrowed ev)"
  show ?case
  proof (cases "upcast_one ev us")
    case (Inl e)
    then have "upcaster_applies us ev"
      using upcast_one_unmatched [of us ev] by force
    with Inl show ?thesis by (simp add: upcast_events_def)
  next
    case (Inr ev')
    then obtain c where "?f ev = Inr c" "into_owned c = ev'"
      using upcast_one_unmatched [of us ev] by (cases "upcaster_applies us ev") auto
    with Inr Cons.IH [symmetric] show ?thesis
      by (cases "try_map ?f evs") (auto simp: upcast_events_def)
  qed
qed (simp add: upcast_events_def)

lemma upcast_events_unmatched:
  "\<not> list_ex (upcaster_applies us) evs \<Longrightarrow> upcast_events evs us = Inr evs"
  using try_map_total [of evs "\<lambda>ev. upcast_one ev us" id]
  by (simp add: upcast_events_def list_ex_iff upcast_one_unmatched)

section \<open>Properties\<close>

text \<open>
  C25: The copy-avoiding view built for replay is the view of the plain upcaster: reading
  \<^verbatim>\<open>Ok(None)\<close> as the stored events themselves and every borrowed or owned entry as its event,
  \<open>upcast_events_for_replay\<close> returns the events, or the error, of
  \<open>upcast_events\<close>.
\<close>

theorem upcast_events_for_replay_agrees:
  "rbind (upcast_events_for_replay evs us)
     (\<lambda>v. Inr (case v of None \<Rightarrow> evs | Some view \<Rightarrow> map into_owned view))
     = upcast_events evs us"
proof (cases "us = [] \<or> \<not> list_ex (upcaster_applies us) evs")
  case True
  then have "\<not> list_ex (upcaster_applies us) evs"
    by (auto simp: list_ex_iff upcaster_applies_def)
  with True show ?thesis
    by (simp add: upcast_events_for_replay_def upcast_events_unmatched)
next
  case False
  have "rbind (rbind r (\<lambda>view. Inr (Some view)))
          (\<lambda>v. Inr (case v of None \<Rightarrow> evs | Some view \<Rightarrow> map into_owned view))
        = rbind r (\<lambda>view. Inr (map into_owned view))" for r :: "upcast_error + event_record cow list"
    by (cases r) auto
  with False show ?thesis
    by (simp add: upcast_events_for_replay_def try_map_upcast_view)
qed



end
