(* ===== verification/Trace_Context.thy ===== *)
theory Trace_Context
  imports Event_Record
begin

text \<open>
  W3C trace context carried in metadata (\<^verbatim>\<open>src/src/trace_context.rs\<close>): case-insensitive
  extraction where the first match wins, injection into both carriers, and the shape check of
  a \<^verbatim>\<open>traceparent\<close>. The OpenTelemetry glue behind a feature flag is not modelled.
\<close>

section \<open>Data\<close>

definition TRACEPARENT :: string where
  "TRACEPARENT = ''traceparent''"

definition TRACESTATE :: string where
  "TRACESTATE = ''tracestate''"

record trace_context =
  tc_traceparent :: "string option"
  tc_tracestate :: "string option"

section \<open>Operations\<close>

definition from_metadata_step :: "trace_context \<Rightarrow> string \<times> string \<Rightarrow> trace_context" where
  "from_metadata_step tc kv =
     (if tc_traceparent tc = None \<and> eq_ignore_ascii_case (fst kv) TRACEPARENT
      then tc\<lparr>tc_traceparent := Some (snd kv)\<rparr>
      else if tc_tracestate tc = None \<and> eq_ignore_ascii_case (fst kv) TRACESTATE
      then tc\<lparr>tc_tracestate := Some (snd kv)\<rparr>
      else tc)"

definition from_metadata :: "(string \<times> string) list \<Rightarrow> trace_context" where
  "from_metadata m = foldl from_metadata_step \<lparr>tc_traceparent = None, tc_tracestate = None\<rparr> m"

definition replace_vec_key ::
    "string \<Rightarrow> string option \<Rightarrow> (string \<times> string) list \<Rightarrow> (string \<times> string) list" where
  "replace_vec_key k v m =
     (let m' = filter (\<lambda>(x, _). \<not> eq_ignore_ascii_case x k) m in
      case v of None \<Rightarrow> m' | Some s \<Rightarrow> m' @ [(k, s)])"

definition replace_map_key :: "string \<Rightarrow> string option \<Rightarrow> metadata \<Rightarrow> metadata" where
  "replace_map_key k v m =
     (let m' = hm_retain (\<lambda>x. \<not> eq_ignore_ascii_case x k) m in
      case v of None \<Rightarrow> m' | Some s \<Rightarrow> AList.update k s m')"

definition inject_vec ::
    "trace_context \<Rightarrow> (string \<times> string) list \<Rightarrow> (string \<times> string) list" where
  "inject_vec tc m =
     replace_vec_key TRACESTATE (tc_tracestate tc)
       (replace_vec_key TRACEPARENT (tc_traceparent tc) m)"

definition inject_map :: "trace_context \<Rightarrow> metadata \<Rightarrow> metadata" where
  "inject_map tc m =
     replace_map_key TRACESTATE (tc_tracestate tc)
       (replace_map_key TRACEPARENT (tc_traceparent tc) m)"

definition is_lower_hex :: "string \<Rightarrow> bool" where
  "is_lower_hex s =
     list_all (\<lambda>c. let n = (of_char c :: nat) in (48 \<le> n \<and> n \<le> 57) \<or> (97 \<le> n \<and> n \<le> 102)) s"

fun split_on :: "char \<Rightarrow> string \<Rightarrow> string list" where
  "split_on d [] = [[]]"
| "split_on d (c # s) =
     (if c = d then [] # split_on d s
      else case split_on d s of [] \<Rightarrow> [[c]] | p # ps \<Rightarrow> (c # p) # ps)"

definition is_valid_traceparent :: "string \<Rightarrow> bool" where
  "is_valid_traceparent s =
     (case split_on (CHR ''-'') s of
        [version, trace_id, parent_id, flags] \<Rightarrow>
          version = ''00'' \<and> length trace_id = 32 \<and> length parent_id = 16 \<and> length flags = 2 \<and>
          is_lower_hex version \<and> is_lower_hex trace_id \<and> is_lower_hex parent_id \<and>
          is_lower_hex flags \<and>
          list_ex (\<lambda>b. b \<noteq> CHR ''0'') trace_id \<and> list_ex (\<lambda>b. b \<noteq> CHR ''0'') parent_id
      | _ \<Rightarrow> False)"

section \<open>Lemmas\<close>

definition first_ci :: "string \<Rightarrow> (string \<times> string) list \<Rightarrow> string option" where
  "first_ci k m = map_option snd (find (\<lambda>kv. eq_ignore_ascii_case (fst kv) k) m)"

lemma trace_keys_differ:
  "eq_ignore_ascii_case k TRACEPARENT \<Longrightarrow> \<not> eq_ignore_ascii_case k TRACESTATE"
  by (auto simp: eq_ignore_ascii_case_def TRACEPARENT_def TRACESTATE_def to_ascii_lower_def)

lemma from_metadata_fold:
  "foldl from_metadata_step tc m =
     \<lparr>tc_traceparent = (case tc_traceparent tc of None \<Rightarrow> first_ci TRACEPARENT m | Some s \<Rightarrow> Some s),
      tc_tracestate = (case tc_tracestate tc of None \<Rightarrow> first_ci TRACESTATE m | Some s \<Rightarrow> Some s)\<rparr>"
proof (induction m arbitrary: tc)
  case (Cons kv m)
  then show ?case
    using trace_keys_differ [of "fst kv"]
    by (auto simp: from_metadata_step_def first_ci_def split: option.splits)
qed (auto simp: first_ci_def split: option.splits)

lemma from_metadata_first:
  "from_metadata m = \<lparr>tc_traceparent = first_ci TRACEPARENT m,
                      tc_tracestate = first_ci TRACESTATE m\<rparr>"
  by (simp add: from_metadata_def from_metadata_fold)

lemma first_ci_append:
  "first_ci k (m @ n) = (case first_ci k m of None \<Rightarrow> first_ci k n | Some s \<Rightarrow> Some s)"
  by (induction m) (auto simp: first_ci_def)

lemma first_ci_none: "(\<And>x v. (x, v) \<in> set m \<Longrightarrow> \<not> eq_ignore_ascii_case x k) \<Longrightarrow> first_ci k m = None"
  by (auto simp: first_ci_def find_None_iff)

lemma first_ci_filter_other:
  "(\<And>x. eq_ignore_ascii_case x k \<Longrightarrow> P x) \<Longrightarrow> first_ci k (filter (\<lambda>(x, _). P x) m) = first_ci k m"
  by (induction m) (auto simp: first_ci_def)

lemma first_ci_replace_same: "first_ci k (replace_vec_key k v m) = v"
proof -
  have "first_ci k (filter (\<lambda>(x, _). \<not> eq_ignore_ascii_case x k) m) = None"
    by (rule first_ci_none) auto
  moreover have "first_ci k [(k, s)] = Some s" for s
    by (simp add: first_ci_def)
  ultimately show ?thesis
    by (auto simp: replace_vec_key_def first_ci_append Let_def split: option.splits)
qed

lemma first_ci_replace_other:
  assumes "\<And>x. eq_ignore_ascii_case x k \<Longrightarrow> \<not> eq_ignore_ascii_case x l"
  shows "first_ci k (replace_vec_key l v m) = first_ci k m"
proof -
  have "\<not> eq_ignore_ascii_case l k"
    using assms by (metis eq_ignore_ascii_case_refl)
  then have "first_ci k [(l, s)] = None" for s
    by (simp add: first_ci_def)
  then show ?thesis
    using first_ci_filter_other [of k "\<lambda>x. \<not> eq_ignore_ascii_case x l" m] assms
    by (auto simp: replace_vec_key_def first_ci_append Let_def split: option.splits)
qed

text \<open>On a map carrier the insertion always adds a fresh key, so both carriers agree.\<close>

lemma replace_map_key_vec: "replace_map_key k v m = replace_vec_key k v m"
proof -
  have "k \<notin> fst ` set (hm_retain (\<lambda>x. \<not> eq_ignore_ascii_case x k) m)"
    by (auto simp: hm_retain_def)
  then show ?thesis
    by (auto simp: replace_map_key_def replace_vec_key_def hm_retain_def alist_update_fresh Let_def
        split: option.splits)
qed

lemma inject_map_wf [simp]: "hm_wf m \<Longrightarrow> hm_wf (inject_map tc m)"
  by (auto simp: inject_map_def replace_map_key_def Let_def split: option.splits)

section \<open>Properties\<close>

text \<open>
  C27: Injecting a trace context into message or event metadata and reading it back gives the
  same context, for both carriers and whatever spellings of the two keys were there before.
\<close>

theorem trace_context_round_trip:
  "from_metadata (inject_vec tc m) = tc \<and> from_metadata (inject_map tc h) = tc"
proof -
  have "from_metadata (inject_vec tc n) = tc" for n
    using trace_keys_differ
    by (simp add: from_metadata_first inject_vec_def first_ci_replace_same
        first_ci_replace_other [of TRACEPARENT TRACESTATE])
  moreover have "inject_map tc h = inject_vec tc h"
    by (simp add: inject_map_def inject_vec_def replace_map_key_vec)
  ultimately show ?thesis by simp
qed

end
