(* ===== verification/Message_Ids.thy ===== *)
theory Message_Ids
  imports Dist_Prelude
begin

text \<open>
  Validation of the two transport identifiers: message names
  (\<^verbatim>\<open>src/src/bus/message_name.rs\<close>) and stable message ids (\<^verbatim>\<open>src/src/bus/stable_id.rs\<close>).
  Strings are UTF-8, so the control characters U+0080 to U+009F are the byte pairs that
  start with 0xC2.
\<close>

section \<open>Data\<close>

definition MAX_MESSAGE_NAME_LEN :: nat where
  "MAX_MESSAGE_NAME_LEN = 256"

definition MAX_STABLE_MESSAGE_ID_LEN :: nat where
  "MAX_STABLE_MESSAGE_ID_LEN = 512"

datatype message_name_error =
    NameEmpty
  | NameTooLong nat
  | ControlCharacter
  | Wildcard char

datatype stable_message_id_error =
    IdMissing
  | IdEmpty
  | IdTooLong nat
  | InvalidCharacter

section \<open>Operations\<close>

definition ascii_control :: "char \<Rightarrow> bool" where
  "ascii_control c = (let n = (of_char c :: nat) in n < 32 \<or> n = 127)"

definition c1_control :: "char \<Rightarrow> string \<Rightarrow> bool" where
  "c1_control a s =
     ((of_char a :: nat) = 0xC2 \<and>
      (case s of [] \<Rightarrow> False | b # _ \<Rightarrow> 0x80 \<le> (of_char b :: nat) \<and> (of_char b :: nat) \<le> 0x9F))"

fun scan_name :: "string \<Rightarrow> message_name_error + unit" where
  "scan_name [] = Inr ()"
| "scan_name (c # s) =
     (if ascii_control c \<or> c1_control c s then Inl ControlCharacter
      else if c = CHR ''*'' \<or> c = CHR ''#'' \<or> c = CHR ''>'' then Inl (Wildcard c)
      else scan_name s)"

definition validate_message_name :: "string \<Rightarrow> message_name_error + string" where
  "validate_message_name name =
     (if blank name then Inl NameEmpty
      else if MAX_MESSAGE_NAME_LEN < length name then Inl (NameTooLong (length name))
      else rbind (scan_name name) (\<lambda>_. Inr name))"

fun has_control :: "string \<Rightarrow> bool" where
  "has_control [] = False"
| "has_control (c # s) = (ascii_control c \<or> c1_control c s \<or> has_control s)"

definition validate_stable_message_id :: "string option \<Rightarrow> stable_message_id_error + string" where
  "validate_stable_message_id cand =
     rbind (ok_or IdMissing cand)
       (\<lambda>i. if blank i then Inl IdEmpty
            else if MAX_STABLE_MESSAGE_ID_LEN < length i then Inl (IdTooLong (length i))
            else if has_control i then Inl InvalidCharacter
            else Inr i)"

section \<open>Lemmas\<close>

lemma scan_name_ok_iff:
  "scan_name s = Inr u \<longleftrightarrow> \<not> has_control s \<and> set s \<inter> {CHR ''*'', CHR ''#'', CHR ''>''} = {}"
  by (induction s) auto

lemma validate_message_name_ok_iff [res_simps]:
  "validate_message_name name = Inr out \<longleftrightarrow>
     out = name \<and> \<not> blank name \<and> length name \<le> MAX_MESSAGE_NAME_LEN \<and> \<not> has_control name \<and>
     set name \<inter> {CHR ''*'', CHR ''#'', CHR ''>''} = {}"
  by (auto simp: validate_message_name_def res_simps scan_name_ok_iff)

lemma validate_stable_message_id_ok_iff [res_simps]:
  "validate_stable_message_id cand = Inr out \<longleftrightarrow>
     cand = Some out \<and> \<not> blank out \<and> length out \<le> MAX_STABLE_MESSAGE_ID_LEN \<and>
     \<not> has_control out"
  by (cases cand) (auto simp: validate_stable_message_id_def)

text \<open>A name that passes is a usable stable id.\<close>

lemma message_name_is_stable_id:
  "validate_message_name name = Inr out \<Longrightarrow> validate_stable_message_id (Some name) = Inr name"
  by (auto simp: res_simps MAX_MESSAGE_NAME_LEN_def MAX_STABLE_MESSAGE_ID_LEN_def)

end
