(* ===== verification/Domain_Event.thy ===== *)
theory Domain_Event
  imports Event_Record Message_Ids
begin

text \<open>
  Outward domain events captured at transition time (\<^verbatim>\<open>src/src/domain_event/\<close>): descriptors
  and their validation, canonical JSON, the retry-stable occurrence identity, capture, and the
  bounded canonical wire form. The crates \<^verbatim>\<open>serde_json\<close>, \<^verbatim>\<open>base64\<close> and \<^verbatim>\<open>sha2\<close> are the
  fields of the record \<open>wire\<close>, an argument of every definition that calls them; a typed
  body enters as the outcome of \<^verbatim>\<open>serde_json::to_value\<close>.
\<close>

section \<open>Data\<close>

datatype domain_event_body_kind = StateBody | EventBody | DeletionBody

record body_descriptor =
  bd_kind :: domain_event_body_kind
  bd_type_name :: string
  bd_version :: nat
  bd_schema :: string
  bd_fingerprint :: string
  bd_codec :: string
  bd_codec_version :: nat

record event_descriptor =
  ed_name :: string
  ed_version :: nat
  ed_body :: body_descriptor

record state_descriptor =
  sd_type_name :: string
  sd_version :: nat
  sd_schema :: string
  sd_fingerprint :: string
  sd_codec :: string
  sd_codec_version :: nat

text \<open>\<^verbatim>\<open>serde_json::Value\<close>, with the three representations of its numbers.\<close>

datatype json_number = PosInt nat | NegInt int | Float "64 word"

datatype json =
    JNull
  | JBool bool
  | JNumber json_number
  | JString string
  | JArray "json list"
  | JObject "(string \<times> json) list"

record occurrence =
  oc_occurrence_version :: nat
  oc_id :: string
  oc_descriptor :: event_descriptor
  oc_aggregate_type :: string
  oc_aggregate_id :: string
  oc_aggregate_sequence :: nat
  oc_publication_ordinal :: nat
  oc_occurred_at_unix_ms :: nat
  oc_body :: "byte list"
  oc_metadata :: metadata

record envelope =
  ev_aggregate_type :: string
  ev_aggregate_id :: string
  ev_aggregate_sequence :: nat
  ev_publication_ordinal :: nat
  ev_occurred_at :: system_time
  ev_metadata :: metadata

record wire =
  w_to_vec :: "json \<Rightarrow> string + byte list"
  w_from_slice :: "byte list \<Rightarrow> string + json"
  w_occurrence_from_slice :: "byte list \<Rightarrow> string + occurrence"
  w_base64 :: "byte list \<Rightarrow> string"
  w_sha256_hex :: "byte list \<Rightarrow> string"

datatype capture_error =
    EventName message_name_error
  | AggregateType message_name_error
  | AggregateId stable_message_id_error
  | OccurrenceId stable_message_id_error
  | ZeroEventVersion
  | ZeroBodyVersion
  | ZeroAggregateSequence
  | EmptyBodyType
  | EmptyBodySchema
  | InvalidBodyFingerprint
  | UnsupportedBodyCodec string nat
  | BodyEncoding string
  | BodyDecoding string
  | BodyTooLarge nat
  | OccurrenceTooLarge nat
  | TimestampBeforeUnixEpoch
  | TimestampOverflow
  | OccurrenceDecoding string
  | NonCanonicalOccurrence
  | NonCanonicalBody
  | OccurrenceIdentityMismatch
  | UnsupportedOccurrenceVersion nat
  | NoPendingAggregateEvent
  | PublicationOrdinalOverflow
  | EntityAlreadyPoisoned
  | StateDescriptorMismatch
  | BodyKindMismatch domain_event_body_kind domain_event_body_kind

record capture_poison =
  cp_descriptor :: event_descriptor
  cp_aggregate_sequence :: nat
  cp_publication_ordinal :: nat
  cp_error :: capture_error

datatype capture_outcome = Captured string | SuppressedDuringReplay

definition DOMAIN_EVENT_BODY_CODEC :: string where
  "DOMAIN_EVENT_BODY_CODEC = ''distributed-json''"

definition DOMAIN_EVENT_BODY_CODEC_VERSION :: nat where
  "DOMAIN_EVENT_BODY_CODEC_VERSION = 1"

definition MAX_DOMAIN_EVENT_BODY_BYTES :: nat where
  "MAX_DOMAIN_EVENT_BODY_BYTES = 1024 * 1024"

definition MAX_DOMAIN_EVENT_OCCURRENCE_WIRE_BYTES :: nat where
  "MAX_DOMAIN_EVENT_OCCURRENCE_WIRE_BYTES = 2 * 1024 * 1024"

definition DOMAIN_EVENT_OCCURRENCE_VERSION :: nat where
  "DOMAIN_EVENT_OCCURRENCE_VERSION = 1"

section \<open>Canonical JSON\<close>

fun canonical_json_value :: "json \<Rightarrow> json" where
  "canonical_json_value (JArray vs) = JArray (map canonical_json_value vs)"
| "canonical_json_value (JObject kvs) =
     JObject (sort_key fst (map (\<lambda>(k, v). (k, canonical_json_value v)) kvs))"
| "canonical_json_value JNull = JNull"
| "canonical_json_value (JBool b) = JBool b"
| "canonical_json_value (JNumber n) = JNumber n"
| "canonical_json_value (JString s) = JString s"

definition canonical_json_bytes :: "wire \<Rightarrow> string + json \<Rightarrow> capture_error + byte list" where
  "canonical_json_bytes w to_value =
     rbind (map_err BodyEncoding to_value)
       (\<lambda>v. map_err BodyEncoding (w_to_vec w (canonical_json_value v)))"

text \<open>The value \<^verbatim>\<open>serde_json\<close> builds from the derived \<^verbatim>\<open>Serialize\<close> of an occurrence.\<close>

fun kind_name :: "domain_event_body_kind \<Rightarrow> string" where
  "kind_name StateBody = ''state''"
| "kind_name EventBody = ''event''"
| "kind_name DeletionBody = ''deletion''"

definition descriptor_json :: "event_descriptor \<Rightarrow> json" where
  "descriptor_json d =
     JObject
       [(''name'', JString (ed_name d)),
        (''version'', JNumber (PosInt (ed_version d))),
        (''body'', JObject
          [(''kind'', JString (kind_name (bd_kind (ed_body d)))),
           (''type_name'', JString (bd_type_name (ed_body d))),
           (''version'', JNumber (PosInt (bd_version (ed_body d)))),
           (''schema'', JString (bd_schema (ed_body d))),
           (''fingerprint'', JString (bd_fingerprint (ed_body d))),
           (''codec'', JString (bd_codec (ed_body d))),
           (''codec_version'', JNumber (PosInt (bd_codec_version (ed_body d))))])]"

definition occurrence_json :: "wire \<Rightarrow> occurrence \<Rightarrow> json" where
  "occurrence_json w occ =
     JObject
       [(''occurrence_version'', JNumber (PosInt (oc_occurrence_version occ))),
        (''id'', JString (oc_id occ)),
        (''descriptor'', descriptor_json (oc_descriptor occ)),
        (''aggregate_type'', JString (oc_aggregate_type occ)),
        (''aggregate_id'', JString (oc_aggregate_id occ)),
        (''aggregate_sequence'', JNumber (PosInt (oc_aggregate_sequence occ))),
        (''publication_ordinal'', JNumber (PosInt (oc_publication_ordinal occ))),
        (''occurred_at_unix_ms'', JNumber (PosInt (oc_occurred_at_unix_ms occ))),
        (''body'', JString (w_base64 w (oc_body occ))),
        (''metadata'', JObject (map (\<lambda>(k, v). (k, JString v)) (oc_metadata occ)))]"

section \<open>Identity\<close>

definition as_bytes :: "string \<Rightarrow> byte list" where
  "as_bytes s = map of_char s"

definition be_bytes :: "nat \<Rightarrow> nat \<Rightarrow> byte list" where
  "be_bytes k n = map (\<lambda>i. word_of_nat (n div 256 ^ (k - 1 - i))) [0..<k]"

definition hash_component :: "byte list \<Rightarrow> byte list" where
  "hash_component bs = be_bytes 8 (length bs) @ bs"

definition occurrence_preimage :: "event_descriptor \<Rightarrow> envelope \<Rightarrow> byte list" where
  "occurrence_preimage d env =
     as_bytes ''distributed.domain-event.occurrence/v1'' @ [0] @
     hash_component (as_bytes (ev_aggregate_type env)) @
     hash_component (as_bytes (ev_aggregate_id env)) @
     be_bytes 8 (ev_aggregate_sequence env) @
     be_bytes 4 (ev_publication_ordinal env) @
     hash_component (as_bytes (ed_name d)) @
     be_bytes 8 (ed_version d) @
     hash_component (as_bytes (bd_fingerprint (ed_body d)))"

definition occurrence_id :: "wire \<Rightarrow> event_descriptor \<Rightarrow> envelope \<Rightarrow> string" where
  "occurrence_id w d env = ''de1:sha256:'' @ w_sha256_hex w (occurrence_preimage d env)"

section \<open>Validation\<close>

definition validate_codec :: "event_descriptor \<Rightarrow> capture_error + unit" where
  "validate_codec d =
     (if bd_codec (ed_body d) \<noteq> DOMAIN_EVENT_BODY_CODEC \<or>
         bd_codec_version (ed_body d) \<noteq> DOMAIN_EVENT_BODY_CODEC_VERSION
      then Inl (UnsupportedBodyCodec (bd_codec (ed_body d)) (bd_codec_version (ed_body d)))
      else Inr ())"

definition lower_hex :: "char \<Rightarrow> bool" where
  "lower_hex c =
     (let n = (of_char c :: nat) in (48 \<le> n \<and> n \<le> 57) \<or> (97 \<le> n \<and> n \<le> 102))"

definition strip_prefix :: "string \<Rightarrow> string \<Rightarrow> string option" where
  "strip_prefix p s = (if take (length p) s = p then Some (drop (length p) s) else None)"

definition validate_fingerprint :: "string \<Rightarrow> capture_error + unit" where
  "validate_fingerprint fp =
     (case strip_prefix ''sha256:'' fp of
        None \<Rightarrow> Inl InvalidBodyFingerprint
      | Some encoded \<Rightarrow>
          if length encoded \<noteq> 64 \<or> \<not> list_all lower_hex encoded
          then Inl InvalidBodyFingerprint else Inr ())"

definition validate_descriptor :: "event_descriptor \<Rightarrow> capture_error + unit" where
  "validate_descriptor d =
     rbind (map_err EventName (validate_message_name (ed_name d)))
       (\<lambda>_. if ed_version d = 0 then Inl ZeroEventVersion
            else if blank (bd_type_name (ed_body d)) then Inl EmptyBodyType
            else if bd_version (ed_body d) = 0 then Inl ZeroBodyVersion
            else if blank (bd_schema (ed_body d)) then Inl EmptyBodySchema
            else rbind (validate_fingerprint (bd_fingerprint (ed_body d)))
                   (\<lambda>_. validate_codec d))"

definition identity_envelope :: "occurrence \<Rightarrow> envelope" where
  "identity_envelope occ =
     \<lparr>ev_aggregate_type = oc_aggregate_type occ,
      ev_aggregate_id = oc_aggregate_id occ,
      ev_aggregate_sequence = oc_aggregate_sequence occ,
      ev_publication_ordinal = oc_publication_ordinal occ,
      ev_occurred_at = UNIX_EPOCH,
      ev_metadata = []\<rparr>"

definition validate_occurrence :: "wire \<Rightarrow> occurrence \<Rightarrow> capture_error + unit" where
  "validate_occurrence w occ =
     (if oc_occurrence_version occ \<noteq> DOMAIN_EVENT_OCCURRENCE_VERSION
      then Inl (UnsupportedOccurrenceVersion (oc_occurrence_version occ))
      else
      rbind (validate_descriptor (oc_descriptor occ)) (\<lambda>_.
      rbind (map_err AggregateType (validate_message_name (oc_aggregate_type occ))) (\<lambda>_.
      rbind (map_err AggregateId (validate_stable_message_id (Some (oc_aggregate_id occ)))) (\<lambda>_.
      rbind (map_err OccurrenceId (validate_stable_message_id (Some (oc_id occ)))) (\<lambda>_.
      if oc_aggregate_sequence occ = 0 then Inl ZeroAggregateSequence
      else if MAX_DOMAIN_EVENT_BODY_BYTES < length (oc_body occ)
      then Inl (BodyTooLarge (length (oc_body occ)))
      else
      rbind (map_err BodyDecoding (w_from_slice w (oc_body occ))) (\<lambda>v.
      rbind (canonical_json_bytes w (Inr v)) (\<lambda>bytes.
      if bytes \<noteq> oc_body occ then Inl NonCanonicalBody
      else if occurrence_id w (oc_descriptor occ) (identity_envelope occ) \<noteq> oc_id occ
      then Inl OccurrenceIdentityMismatch
      else Inr ())))))))"

section \<open>Capture and wire form\<close>

definition canonical_bytes :: "wire \<Rightarrow> occurrence \<Rightarrow> capture_error + byte list" where
  "canonical_bytes w occ =
     rbind (validate_occurrence w occ) (\<lambda>_.
     rbind (canonical_json_bytes w (Inr (occurrence_json w occ))) (\<lambda>bytes.
     if MAX_DOMAIN_EVENT_OCCURRENCE_WIRE_BYTES < length bytes
     then Inl (OccurrenceTooLarge (length bytes)) else Inr bytes))"

definition unix_ms :: "system_time \<Rightarrow> capture_error + nat" where
  "unix_ms t =
     (if t < UNIX_EPOCH then Inl TimestampBeforeUnixEpoch
      else (let ms = nat (t div 1000000) in
            if u64_max < ms then Inl TimestampOverflow else Inr ms))"

definition capture ::
    "wire \<Rightarrow> event_descriptor \<Rightarrow> envelope \<Rightarrow> string + json \<Rightarrow> capture_error + occurrence" where
  "capture w d env body_value =
     rbind (validate_descriptor d) (\<lambda>_.
     rbind (map_err AggregateType (validate_message_name (ev_aggregate_type env))) (\<lambda>_.
     rbind (map_err AggregateId (validate_stable_message_id (Some (ev_aggregate_id env)))) (\<lambda>_.
     if ev_aggregate_sequence env = 0 then Inl ZeroAggregateSequence
     else
     rbind (canonical_json_bytes w body_value) (\<lambda>body.
     if MAX_DOMAIN_EVENT_BODY_BYTES < length body then Inl (BodyTooLarge (length body))
     else
     rbind (unix_ms (ev_occurred_at env)) (\<lambda>ms.
     let i = occurrence_id w d env in
     rbind (map_err OccurrenceId (validate_stable_message_id (Some i))) (\<lambda>_.
     let occ = \<lparr>oc_occurrence_version = DOMAIN_EVENT_OCCURRENCE_VERSION,
                oc_id = i,
                oc_descriptor = d,
                oc_aggregate_type = ev_aggregate_type env,
                oc_aggregate_id = ev_aggregate_id env,
                oc_aggregate_sequence = ev_aggregate_sequence env,
                oc_publication_ordinal = ev_publication_ordinal env,
                oc_occurred_at_unix_ms = ms,
                oc_body = body,
                oc_metadata = ev_metadata env\<rparr> in
     rbind (canonical_bytes w occ) (\<lambda>_. Inr occ)))))))"

definition from_canonical_bytes :: "wire \<Rightarrow> byte list \<Rightarrow> capture_error + occurrence" where
  "from_canonical_bytes w bytes =
     (if MAX_DOMAIN_EVENT_OCCURRENCE_WIRE_BYTES < length bytes
      then Inl (OccurrenceTooLarge (length bytes))
      else
      rbind (map_err OccurrenceDecoding (w_occurrence_from_slice w bytes)) (\<lambda>occ.
      rbind (validate_occurrence w occ) (\<lambda>_.
      rbind (canonical_bytes w occ) (\<lambda>canonical.
      if canonical \<noteq> bytes then Inl NonCanonicalOccurrence else Inr occ))))"

definition occurrence_overwrite_causation_id :: "string \<Rightarrow> occurrence \<Rightarrow> occurrence" where
  "occurrence_overwrite_causation_id cid occ =
     occ\<lparr>oc_metadata := sort_key fst (stamp_causation cid (oc_metadata occ))\<rparr>"

definition state_descriptor_matches :: "event_descriptor \<Rightarrow> state_descriptor \<Rightarrow> bool" where
  "state_descriptor_matches d s \<longleftrightarrow>
     bd_kind (ed_body d) = StateBody \<and>
     bd_type_name (ed_body d) = sd_type_name s \<and>
     bd_version (ed_body d) = sd_version s \<and>
     bd_schema (ed_body d) = sd_schema s \<and>
     bd_fingerprint (ed_body d) = sd_fingerprint s \<and>
     bd_codec (ed_body d) = sd_codec s \<and>
     bd_codec_version (ed_body d) = sd_codec_version s"

section \<open>Lemmas\<close>

lemma canonical_json_value_idem:
  "canonical_json_value (canonical_json_value v) = canonical_json_value v"
proof (induction v rule: canonical_json_value.induct)
  case (2 kvs)
  let ?g = "\<lambda>(k, v). (k, canonical_json_value v)"
  let ?s = "sort_key fst (map ?g kvs)"
  have "map ?g ?s = ?s"
  proof (rule map_idI)
    fix x assume "x \<in> set ?s"
    then obtain k v where "(k, v) \<in> set kvs" "x = (k, canonical_json_value v)"
      by auto
    with 2 show "?g x = x" by force
  qed
  then show ?case
    by (simp add: sort_key_id_if_sorted)
qed simp_all

lemma be_bytes_Suc: "be_bytes (Suc k) n = be_bytes k (n div 256) @ [word_of_nat n]"
proof -
  have "n div 256 ^ (Suc k - 1 - i) = n div 256 div 256 ^ (k - 1 - i)" if "i < k" for i
  proof -
    from that have "Suc k - 1 - i = Suc (k - 1 - i)" by simp
    then show ?thesis by (simp only: power_Suc div_mult2_eq)
  qed
  then show ?thesis by (simp add: be_bytes_def)
qed

lemma be_bytes_length [simp]: "length (be_bytes k n) = k"
  by (simp add: be_bytes_def)

lemma be_bytes_inj:
  "be_bytes k m = be_bytes k n \<Longrightarrow> m < 256 ^ k \<Longrightarrow> n < 256 ^ k \<Longrightarrow> m = n"
proof (induction k arbitrary: m n)
  case (Suc k)
  then have "be_bytes k (m div 256) = be_bytes k (n div 256)"
    and w: "(word_of_nat m :: byte) = word_of_nat n"
    by (simp_all add: be_bytes_Suc)
  moreover have "m div 256 < 256 ^ k" "n div 256 < 256 ^ k"
    using Suc.prems(2,3) by (simp_all add: less_mult_imp_div_less mult.commute)
  ultimately have "m div 256 = n div 256"
    using Suc.IH by blast
  moreover have "m mod 256 = n mod 256"
    using w by (simp add: word_of_nat_eq_iff take_bit_eq_mod)
  ultimately show ?case
    by (metis div_mult_mod_eq)
qed simp

lemma of_char_byte_inj: "(of_char c :: byte) = of_char d \<Longrightarrow> c = d"
proof -
  have conv: "(of_char x :: byte) = word_of_nat (of_char x)" for x
    by (rule of_nat_of_char [symmetric])
  assume "(of_char c :: byte) = of_char d"
  then have "(of_char c :: nat) mod 256 = of_char d mod 256"
    unfolding conv by (simp only: word_of_nat_eq_iff) (simp add: take_bit_eq_mod)
  then show "c = d"
    by simp
qed

lemma as_bytes_inj: "as_bytes s = as_bytes t \<Longrightarrow> s = t"
  unfolding as_bytes_def by (rule map_injective) (auto intro: injI of_char_byte_inj)

lemma as_bytes_length [simp]: "length (as_bytes s) = length s"
  by (simp add: as_bytes_def)

text \<open>A length-prefixed component can be split off the front of a byte string.\<close>

lemma hash_component_split:
  assumes "hash_component a @ r = hash_component b @ s"
    and "length a < 256 ^ 8" "length b < 256 ^ 8"
  shows "a = b" "r = s"
proof -
  have "be_bytes 8 (length a) = be_bytes 8 (length b)" and "a @ r = b @ s"
    using assms(1) by (simp_all add: hash_component_def)
  moreover from this have "length a = length b"
    using be_bytes_inj assms(2,3) by blast
  ultimately show "a = b" "r = s" by simp_all
qed

text \<open>The components an occurrence id stands for.\<close>

definition identity_key ::
    "event_descriptor \<Rightarrow> envelope \<Rightarrow> string \<times> string \<times> nat \<times> nat \<times> string \<times> nat \<times> string" where
  "identity_key d env =
     (ev_aggregate_type env, ev_aggregate_id env, ev_aggregate_sequence env,
      ev_publication_ordinal env, ed_name d, ed_version d, bd_fingerprint (ed_body d))"

definition identity_in_range :: "event_descriptor \<Rightarrow> envelope \<Rightarrow> bool" where
  "identity_in_range d env \<longleftrightarrow>
     length (ev_aggregate_type env) \<le> u64_max \<and> length (ev_aggregate_id env) \<le> u64_max \<and>
     ev_aggregate_sequence env \<le> u64_max \<and> ev_publication_ordinal env \<le> u32_max \<and>
     length (ed_name d) \<le> u64_max \<and> ed_version d \<le> u64_max \<and>
     length (bd_fingerprint (ed_body d)) \<le> u64_max"

lemma occurrence_preimage_inj:
  assumes "occurrence_preimage d env = occurrence_preimage d' env'"
    and "identity_in_range d env" "identity_in_range d' env'"
  shows "identity_key d env = identity_key d' env'"
proof -
  let ?r = "\<lambda>d env. be_bytes 8 (ev_aggregate_sequence env) @
     be_bytes 4 (ev_publication_ordinal env) @ hash_component (as_bytes (ed_name d)) @
     be_bytes 8 (ed_version d) @ hash_component (as_bytes (bd_fingerprint (ed_body d)))"
  have range: "n < 256 ^ 8" if "n \<le> u64_max" for n
    using that by (simp add: u64_max_def)
  have range4: "n < 256 ^ 4" if "n \<le> u32_max" for n
    using that by (simp add: u32_max_def)
  note rg = assms(2,3) [unfolded identity_in_range_def]
  have eq: "hash_component (as_bytes (ev_aggregate_type env)) @
        hash_component (as_bytes (ev_aggregate_id env)) @ ?r d env =
      hash_component (as_bytes (ev_aggregate_type env')) @
        hash_component (as_bytes (ev_aggregate_id env')) @ ?r d' env'"
    using assms(1) by (simp add: occurrence_preimage_def)
  note c1 = hash_component_split [OF eq]
  have "as_bytes (ev_aggregate_type env) = as_bytes (ev_aggregate_type env')"
    and eq2: "hash_component (as_bytes (ev_aggregate_id env)) @ ?r d env =
      hash_component (as_bytes (ev_aggregate_id env')) @ ?r d' env'"
    using c1 rg range by simp_all
  moreover note c2 = hash_component_split [OF eq2]
  have "as_bytes (ev_aggregate_id env) = as_bytes (ev_aggregate_id env')"
    and r: "?r d env = ?r d' env'"
    using c2 rg range by simp_all
  moreover have "ev_aggregate_sequence env = ev_aggregate_sequence env'"
    and "ev_publication_ordinal env = ev_publication_ordinal env'"
    and eq3: "hash_component (as_bytes (ed_name d)) @ be_bytes 8 (ed_version d) @
        hash_component (as_bytes (bd_fingerprint (ed_body d))) =
      hash_component (as_bytes (ed_name d')) @ be_bytes 8 (ed_version d') @
        hash_component (as_bytes (bd_fingerprint (ed_body d')))"
    using r rg range range4 by (auto intro: be_bytes_inj)
  moreover note c3 = hash_component_split [OF eq3]
  have "as_bytes (ed_name d) = as_bytes (ed_name d')"
    and "ed_version d = ed_version d'"
    and "as_bytes (bd_fingerprint (ed_body d)) = as_bytes (bd_fingerprint (ed_body d'))"
    using c3 rg range by (auto intro: be_bytes_inj simp: hash_component_def)
  ultimately show ?thesis
    by (auto simp: identity_key_def dest: as_bytes_inj)
qed

lemma validate_fingerprint_length:
  "validate_fingerprint fp = Inr u \<Longrightarrow> length fp = 71"
  by (auto simp: validate_fingerprint_def strip_prefix_def split: if_splits)

lemma validate_descriptor_ok:
  assumes "validate_descriptor d = Inr u"
  shows "length (ed_name d) \<le> 256" "ed_version d \<noteq> 0" "length (bd_fingerprint (ed_body d)) = 71"
  using assms
  by (auto simp: validate_descriptor_def res_simps MAX_MESSAGE_NAME_LEN_def
      dest: validate_fingerprint_length split: if_splits)

lemma capture_ok:
  assumes "capture w d env b = Inr occ"
  shows "oc_id occ = occurrence_id w d env" "oc_descriptor occ = d"
    "oc_aggregate_type occ = ev_aggregate_type env" "oc_aggregate_id occ = ev_aggregate_id env"
    "oc_aggregate_sequence occ = ev_aggregate_sequence env"
    "oc_publication_ordinal occ = ev_publication_ordinal env"
    "oc_metadata occ = ev_metadata env"
    "\<exists>bytes. canonical_bytes w occ = Inr bytes"
    "validate_descriptor d = Inr ()"
    "length (ev_aggregate_type env) \<le> 256" "length (ev_aggregate_id env) \<le> 512"
  using assms
  by (auto simp: capture_def res_simps Let_def MAX_MESSAGE_NAME_LEN_def
      MAX_STABLE_MESSAGE_ID_LEN_def split: if_splits)

lemma capture_in_range:
  assumes "capture w d env b = Inr occ"
    and "ev_aggregate_sequence env \<le> u64_max" "ev_publication_ordinal env \<le> u32_max"
      "ed_version d \<le> u64_max"
  shows "identity_in_range d env"
  using capture_ok(9-11) [OF assms(1)] assms(2-4) validate_descriptor_ok(1,3)
  by (fastforce simp: identity_in_range_def u64_max_def)

section \<open>Properties\<close>

text \<open>
  C23: Retry-stable identity: two captured occurrences carry the same id exactly when they
  agree on aggregate type, aggregate id, sequence, publication ordinal, event name, event
  version and body fingerprint, as long as SHA-256 does not collide on the two hashed byte
  strings. The length-prefixed encoding leaves no other way for two identities to meet.
\<close>

theorem captured_id_identifies:
  assumes "capture w d env b = Inr occ" "capture w d' env' b' = Inr occ'"
    and "ev_aggregate_sequence env \<le> u64_max" "ev_publication_ordinal env \<le> u32_max"
      "ed_version d \<le> u64_max"
    and "ev_aggregate_sequence env' \<le> u64_max" "ev_publication_ordinal env' \<le> u32_max"
      "ed_version d' \<le> u64_max"
    and "w_sha256_hex w (occurrence_preimage d env) = w_sha256_hex w (occurrence_preimage d' env')
           \<Longrightarrow> occurrence_preimage d env = occurrence_preimage d' env'"
  shows "oc_id occ = oc_id occ' \<longleftrightarrow> identity_key d env = identity_key d' env'"
proof
  assume "oc_id occ = oc_id occ'"
  then have "occurrence_preimage d env = occurrence_preimage d' env'"
    using assms(9) capture_ok(1) [OF assms(1)] capture_ok(1) [OF assms(2)]
    by (simp add: occurrence_id_def)
  then show "identity_key d env = identity_key d' env'"
    using capture_in_range [OF assms(1,3-5)] capture_in_range [OF assms(2,6-8)]
    by (rule occurrence_preimage_inj)
next
  assume "identity_key d env = identity_key d' env'"
  then show "oc_id occ = oc_id occ'"
    using capture_ok(1) [OF assms(1)] capture_ok(1) [OF assms(2)]
    by (simp add: occurrence_id_def occurrence_preimage_def identity_key_def)
qed

definition sample_wire :: wire where
  "sample_wire =
     \<lparr>w_to_vec = (\<lambda>_. Inr []), w_from_slice = (\<lambda>_. Inr JNull),
      w_occurrence_from_slice = (\<lambda>_. Inl []), w_base64 = (\<lambda>_. []),
      w_sha256_hex = map (\<lambda>b. if b = 0 then CHR ''0'' else CHR ''1'')\<rparr>"

definition sample_descriptor :: event_descriptor where
  "sample_descriptor =
     \<lparr>ed_name = ''e'', ed_version = 1,
      ed_body = \<lparr>bd_kind = EventBody, bd_type_name = ''T'', bd_version = 1, bd_schema = ''s'',
                 bd_fingerprint = ''sha256:'' @ replicate 64 CHR ''1'',
                 bd_codec = ''distributed-json'', bd_codec_version = 1\<rparr>\<rparr>"

definition sample_envelope :: "nat \<Rightarrow> envelope" where
  "sample_envelope n =
     \<lparr>ev_aggregate_type = ''t'', ev_aggregate_id = ''i'', ev_aggregate_sequence = 3,
      ev_publication_ordinal = n, ev_occurred_at = 5000000, ev_metadata = []\<rparr>"

lemma sample_captures:
  "\<not> isl (capture sample_wire sample_descriptor (sample_envelope 0) (Inr JNull))"
  "\<not> isl (capture sample_wire sample_descriptor (sample_envelope 1) (Inr JNull))"
  by code_simp+

lemma sample_hashes_differ:
  "w_sha256_hex sample_wire (occurrence_preimage sample_descriptor (sample_envelope 0))
     \<noteq> w_sha256_hex sample_wire (occurrence_preimage sample_descriptor (sample_envelope 1))"
  by code_simp

theorem captured_id_identifies_witness:
  "oc_id (projr (capture sample_wire sample_descriptor (sample_envelope 0) (Inr JNull)))
     \<noteq> oc_id (projr (capture sample_wire sample_descriptor (sample_envelope 1) (Inr JNull)))"
  using captured_id_identifies
      [OF sample_captures [THEN not_isl_projr]] sample_hashes_differ
  by (simp add: sample_envelope_def sample_descriptor_def u64_max_def u32_max_def
      identity_key_def)


end
