(* ===== verification/Entity.thy ===== *)
theory Entity
  imports Upcaster Trace_Context Domain_Event
begin

text \<open>
  The event-sourced entity (\<^verbatim>\<open>src/src/entity/entity.rs\<close>): its state, the operations that record
  events, load histories and capture outward domain events. An operation that may panic
  returns an option (\<open>None\<close> is the panic); an operation that mutates the entity and
  returns a \<^verbatim>\<open>Result\<close> returns the pair of both, since the entity changes on error paths too.
  Clock readings are arguments.
\<close>

section \<open>State\<close>

record entity =
  en_id :: string
  en_version :: nat
  en_events :: "event_record list"
  en_prefix_version :: nat
  en_replaying :: bool
  en_snapshot_version :: nat
  en_committed_version :: nat
  en_timestamp :: system_time
  en_metadata :: metadata
  en_pending_domain_events :: "occurrence list"
  en_domain_event_poison :: "capture_poison option"

definition entity_new :: "system_time \<Rightarrow> entity" where
  "entity_new now =
     \<lparr>en_id = [], en_version = 0, en_events = [], en_prefix_version = 0, en_replaying = False,
      en_snapshot_version = 0, en_committed_version = 0, en_timestamp = now, en_metadata = [],
      en_pending_domain_events = [], en_domain_event_poison = None\<rparr>"

definition with_id :: "system_time \<Rightarrow> string \<Rightarrow> entity" where
  "with_id now i = (entity_new now)\<lparr>en_id := i\<rparr>"

definition set_id :: "string \<Rightarrow> entity \<Rightarrow> entity" where
  "set_id i e = e\<lparr>en_id := i\<rparr>"

definition set_snapshot_version :: "nat \<Rightarrow> entity \<Rightarrow> entity" where
  "set_snapshot_version v e = e\<lparr>en_snapshot_version := v\<rparr>"

definition set_replaying :: "bool \<Rightarrow> entity \<Rightarrow> entity" where
  "set_replaying b e = e\<lparr>en_replaying := b\<rparr>"

section \<open>Events\<close>

definition take_events :: "entity \<Rightarrow> event_record list \<times> entity" where
  "take_events e = (en_events e, e\<lparr>en_events := []\<rparr>)"

definition restore_history :: "event_record list \<Rightarrow> entity \<Rightarrow> entity" where
  "restore_history evs e = e\<lparr>en_events := evs\<rparr>"

definition new_events_start :: "entity \<Rightarrow> nat option" where
  "new_events_start e =
     (if en_committed_version e < en_prefix_version e then None
      else (let start = en_committed_version e - en_prefix_version e in
            if length (en_events e) < start then None else Some start))"

definition new_events :: "entity \<Rightarrow> event_record list option" where
  "new_events e = map_option (\<lambda>start. drop start (en_events e)) (new_events_start e)"

definition mark_committed :: "entity \<Rightarrow> entity" where
  "mark_committed e = e\<lparr>en_committed_version := en_version e\<rparr>"

definition set_metadata :: "metadata \<Rightarrow> entity \<Rightarrow> entity" where
  "set_metadata m e = e\<lparr>en_metadata := m\<rparr>"

definition set_meta :: "string \<Rightarrow> string \<Rightarrow> entity \<Rightarrow> entity" where
  "set_meta k v e = e\<lparr>en_metadata := AList.update k v (en_metadata e)\<rparr>"

definition set_correlation_id :: "string \<Rightarrow> entity \<Rightarrow> entity" where
  "set_correlation_id i e = set_meta CORRELATION_ID i e"

definition set_causation_id :: "string \<Rightarrow> entity \<Rightarrow> entity" where
  "set_causation_id i e = set_meta CAUSATION_ID i e"

definition overwrite_new_event_causation_id :: "string \<Rightarrow> entity \<Rightarrow> entity option" where
  "overwrite_new_event_causation_id i e =
     (case new_events_start e of
        None \<Rightarrow> None
      | Some start \<Rightarrow>
          Some (e\<lparr>en_events := take start (en_events e) @
                    map (overwrite_causation_id i) (drop start (en_events e)),
                  en_pending_domain_events :=
                    map (occurrence_overwrite_causation_id i) (en_pending_domain_events e),
                  en_metadata := stamp_causation i (en_metadata e)\<rparr>))"

definition set_trace_context :: "trace_context \<Rightarrow> entity \<Rightarrow> entity" where
  "set_trace_context tc e = e\<lparr>en_metadata := inject_map tc (en_metadata e)\<rparr>"

definition clear_metadata :: "entity \<Rightarrow> entity" where
  "clear_metadata e = e\<lparr>en_metadata := []\<rparr>"

definition next_sequence :: "entity \<Rightarrow> nat" where
  "next_sequence e = u64_add (u64_add (en_prefix_version e) (length (en_events e))) 1"

definition push_new_event :: "system_time \<Rightarrow> event_record \<Rightarrow> entity \<Rightarrow> entity" where
  "push_new_event now record e =
     (let e' = e\<lparr>en_events := en_events e @ [record]\<rparr> in
      e'\<lparr>en_version := u64_add (en_prefix_version e') (length (en_events e')),
         en_timestamp := now\<rparr>)"

text \<open>
  \<open>digest\<close> and \<open>digest_v\<close> read the clock twice: for the record and for the entity.
\<close>

definition digest ::
    "('p \<Rightarrow> string + byte list) \<Rightarrow> system_time \<times> system_time \<Rightarrow> string \<Rightarrow> 'p \<Rightarrow> entity \<Rightarrow>
     event_record_error + entity" where
  "digest encode now name payload e =
     (if en_replaying e then Inr e
      else rbind (map_err err_encode (encode payload)) (\<lambda>bytes.
        let sequence = next_sequence e;
            record = event_record_new (fst now) name bytes sequence;
            record' = (if en_metadata e \<noteq> [] then record\<lparr>er_metadata := en_metadata e\<rparr> else record)
        in Inr (push_new_event (snd now) record' e)))"

definition digest_v ::
    "('p \<Rightarrow> string + byte list) \<Rightarrow> system_time \<times> system_time \<Rightarrow> string \<Rightarrow> nat \<Rightarrow> 'p \<Rightarrow> entity \<Rightarrow>
     event_record_error + entity" where
  "digest_v encode now name ver payload e =
     (if en_replaying e then Inr e
      else rbind (map_err err_encode (encode payload)) (\<lambda>bytes.
        let sequence = next_sequence e;
            record = new_versioned (fst now) name bytes sequence ver;
            record' = (if en_metadata e \<noteq> [] then record\<lparr>er_metadata := en_metadata e\<rparr> else record)
        in Inr (push_new_event (snd now) record' e)))"

definition load_from_history :: "event_record list \<Rightarrow> entity \<Rightarrow> entity" where
  "load_from_history history e =
     (let e' = e\<lparr>en_events := history, en_prefix_version := 0, en_version := length history\<rparr> in
      e'\<lparr>en_committed_version := en_version e'\<rparr>)"

definition load_tail_from_history :: "event_record list \<Rightarrow> nat \<Rightarrow> entity \<Rightarrow> entity" where
  "load_tail_from_history tail prefix_version e =
     (let e' = e\<lparr>en_events := tail, en_prefix_version := prefix_version,
                  en_version := u64_add prefix_version (length tail)\<rparr> in
      e'\<lparr>en_committed_version := en_version e'\<rparr>)"

text \<open>The closure's own state is threaded through; the guard resets the flag on every exit.\<close>

definition rehydrate ::
    "('s \<Rightarrow> event_record \<Rightarrow> 'err + 's) \<Rightarrow> 's \<Rightarrow> entity \<Rightarrow> entity \<times> ('err + 's)" where
  "rehydrate apply s e =
     (set_replaying False e, try_fold apply s (en_events (set_replaying True e)))"

section \<open>Outward domain events\<close>

definition domain_event_commit_guard :: "entity \<Rightarrow> capture_poison + unit" where
  "domain_event_commit_guard e =
     (case en_domain_event_poison e of Some poison \<Rightarrow> Inl poison | None \<Rightarrow> Inr ())"

definition pending_domain_events_for_commit :: "entity \<Rightarrow> capture_poison + occurrence list" where
  "pending_domain_events_for_commit e =
     rbind (domain_event_commit_guard e) (\<lambda>_. Inr (en_pending_domain_events e))"

definition mark_domain_events_committed :: "entity \<Rightarrow> capture_poison + entity" where
  "mark_domain_events_committed e =
     rbind (domain_event_commit_guard e) (\<lambda>_. Inr (e\<lparr>en_pending_domain_events := []\<rparr>))"

definition pending_at_version :: "entity \<Rightarrow> nat" where
  "pending_at_version e =
     length (filter (\<lambda>occ. oc_aggregate_sequence occ = en_version e) (en_pending_domain_events e))"

definition capture_failed ::
    "event_descriptor \<Rightarrow> capture_error \<Rightarrow> entity \<Rightarrow> entity \<times> (capture_error + 'a)" where
  "capture_failed d err e =
     ((if en_domain_event_poison e = None
       then e\<lparr>en_domain_event_poison :=
                Some \<lparr>cp_descriptor = d, cp_aggregate_sequence = en_version e,
                      cp_publication_ordinal =
                        (if pending_at_version e \<le> u32_max then pending_at_version e else u32_max),
                      cp_error = err\<rparr>\<rparr>
       else e), Inl err)"

definition capture_typed ::
    "wire \<Rightarrow> string \<Rightarrow> event_descriptor \<Rightarrow> string + json \<Rightarrow> entity \<Rightarrow>
     entity \<times> (capture_error + capture_outcome)" where
  "capture_typed w aggregate_type d body e =
     (if en_domain_event_poison e \<noteq> None then (e, Inl EntityAlreadyPoisoned)
      else if en_events e = [] then capture_failed d NoPendingAggregateEvent e
      else
        (let causing_event = last (en_events e) in
         if en_version e = en_committed_version e \<or> er_sequence causing_event \<noteq> en_version e
         then capture_failed d NoPendingAggregateEvent e
         else if u32_max < pending_at_version e
         then capture_failed d PublicationOrdinalOverflow e
         else
           (let env = \<lparr>ev_aggregate_type = aggregate_type,
                       ev_aggregate_id = en_id e,
                       ev_aggregate_sequence = en_version e,
                       ev_publication_ordinal = pending_at_version e,
                       ev_occurred_at = er_timestamp causing_event,
                       ev_metadata = sort_key fst (er_metadata causing_event)\<rparr> in
            case capture w d env body of
              Inr occ \<Rightarrow>
                (e\<lparr>en_pending_domain_events := en_pending_domain_events e @ [occ]\<rparr>,
                 Inr (Captured (oc_id occ)))
            | Inl err \<Rightarrow> capture_failed d err e)))"

definition capture_domain_state ::
    "wire \<Rightarrow> string \<Rightarrow> event_descriptor \<Rightarrow> state_descriptor \<Rightarrow> string + json \<Rightarrow> entity \<Rightarrow>
     entity \<times> (capture_error + capture_outcome)" where
  "capture_domain_state w aggregate_type d sd body e =
     (if en_replaying e then (e, Inr SuppressedDuringReplay)
      else if \<not> state_descriptor_matches d sd then capture_failed d StateDescriptorMismatch e
      else capture_typed w aggregate_type d body e)"

definition capture_domain_event ::
    "wire \<Rightarrow> string \<Rightarrow> event_descriptor \<Rightarrow> string + json \<Rightarrow> entity \<Rightarrow>
     entity \<times> (capture_error + capture_outcome)" where
  "capture_domain_event w aggregate_type d body e =
     (if en_replaying e then (e, Inr SuppressedDuringReplay)
      else if bd_kind (ed_body d) \<noteq> EventBody
      then capture_failed d (BodyKindMismatch EventBody (bd_kind (ed_body d))) e
      else capture_typed w aggregate_type d body e)"

definition capture_domain_deletion ::
    "wire \<Rightarrow> string \<Rightarrow> event_descriptor \<Rightarrow> string + json \<Rightarrow> entity \<Rightarrow>
     entity \<times> (capture_error + capture_outcome)" where
  "capture_domain_deletion w aggregate_type d body e =
     (if en_replaying e then (e, Inr SuppressedDuringReplay)
      else if bd_kind (ed_body d) \<noteq> DeletionBody
      then capture_failed d (BodyKindMismatch DeletionBody (bd_kind (ed_body d))) e
      else capture_typed w aggregate_type d body e)"

section \<open>Invariant\<close>

text \<open>
  The position counters agree with the events held in memory, event sequences are contiguous,
  and the publication ordinals of the pending occurrences count up from zero per sequence.
\<close>

definition ordinals_ok :: "occurrence list \<Rightarrow> bool" where
  "ordinals_ok ps =
     list_all (\<lambda>i. oc_publication_ordinal (ps ! i) =
                     length (filter (\<lambda>q. oc_aggregate_sequence q = oc_aggregate_sequence (ps ! i))
                               (take i ps))) [0..<length ps]"

definition entity_inv :: "entity \<Rightarrow> bool" where
  "entity_inv e \<longleftrightarrow>
     en_version e = en_prefix_version e + length (en_events e) \<and>
     en_version e \<le> u64_max \<and>
     en_prefix_version e \<le> en_committed_version e \<and>
     en_committed_version e \<le> en_version e \<and>
     contiguous (en_prefix_version e) (en_events e) \<and>
     ordinals_ok (en_pending_domain_events e)"

text \<open>
  One call of an operation of the entity. The two loading operations require what their
  documentation asks of the caller, and recording requires that the stream is not full.
\<close>

inductive entity_step :: "wire \<Rightarrow> ('p \<Rightarrow> string + byte list) \<Rightarrow> entity \<Rightarrow> entity \<Rightarrow> bool"
  for w encode where
  set_id: "entity_step w encode e (set_id i e)"
| set_snapshot_version: "entity_step w encode e (set_snapshot_version v e)"
| set_replaying: "entity_step w encode e (set_replaying b e)"
| mark_committed: "entity_step w encode e (mark_committed e)"
| set_metadata: "entity_step w encode e (set_metadata m e)"
| set_meta: "entity_step w encode e (set_meta k v e)"
| overwrite: "overwrite_new_event_causation_id i e = Some e' \<Longrightarrow> entity_step w encode e e'"
| set_trace_context: "entity_step w encode e (set_trace_context tc e)"
| clear_metadata: "entity_step w encode e (clear_metadata e)"
| digest: "en_version e < u64_max \<Longrightarrow> digest encode now name payload e = Inr e' \<Longrightarrow>
    entity_step w encode e e'"
| digest_v: "en_version e < u64_max \<Longrightarrow> digest_v encode now name ver payload e = Inr e' \<Longrightarrow>
    entity_step w encode e e'"
| load: "contiguous 0 history \<Longrightarrow> length history \<le> u64_max \<Longrightarrow>
    entity_step w encode e (load_from_history history e)"
| load_tail: "contiguous pre tail \<Longrightarrow> pre + length tail \<le> u64_max \<Longrightarrow>
    entity_step w encode e (load_tail_from_history tail pre e)"
| rehydrate: "entity_step w encode e (fst (rehydrate (apply :: unit \<Rightarrow> event_record \<Rightarrow> unit + unit) () e))"
| mark_domain_events: "mark_domain_events_committed e = Inr e' \<Longrightarrow> entity_step w encode e e'"
| capture_state: "entity_step w encode e (fst (capture_domain_state w aty d sd body e))"
| capture_event: "entity_step w encode e (fst (capture_domain_event w aty d body e))"
| capture_deletion: "entity_step w encode e (fst (capture_domain_deletion w aty d body e))"

inductive entity_reach :: "wire \<Rightarrow> ('p \<Rightarrow> string + byte list) \<Rightarrow> entity \<Rightarrow> bool"
  for w encode where
  init: "entity_reach w encode (with_id now i)"
| step: "entity_reach w encode e \<Longrightarrow> entity_step w encode e e' \<Longrightarrow> entity_reach w encode e'"

section \<open>Lemmas\<close>

lemmas entity_setters =
  set_id_def set_snapshot_version_def set_replaying_def mark_committed_def set_metadata_def
  set_meta_def set_trace_context_def clear_metadata_def rehydrate_def

lemma ordinals_ok_Nil [simp]: "ordinals_ok []"
  by (simp add: ordinals_ok_def)

lemma ordinals_ok_snoc:
  "ordinals_ok (ps @ [occ]) \<longleftrightarrow>
     ordinals_ok ps \<and>
     oc_publication_ordinal occ =
       length (filter (\<lambda>q. oc_aggregate_sequence q = oc_aggregate_sequence occ) ps)"
  by (auto simp: ordinals_ok_def list_all_iff nth_append)

lemma ordinals_ok_map:
  assumes "\<And>q. oc_aggregate_sequence (f q) = oc_aggregate_sequence q"
    and "\<And>q. oc_publication_ordinal (f q) = oc_publication_ordinal q"
  shows "ordinals_ok (map f ps) \<longleftrightarrow> ordinals_ok ps"
  using assms by (auto simp: ordinals_ok_def list_all_iff take_map filter_map o_def)

lemma ordinals_ok_distinct:
  assumes "ordinals_ok ps"
  shows "distinct (map (\<lambda>q. (oc_aggregate_sequence q, oc_publication_ordinal q)) ps)"
  using assms
proof (induction ps rule: rev_induct)
  case (snoc occ ps)
  let ?n = "\<lambda>qs q. length (filter (\<lambda>r. oc_aggregate_sequence r = oc_aggregate_sequence q) qs)"
  have "oc_publication_ordinal q < oc_publication_ordinal occ"
    if "q \<in> set ps" and eq: "oc_aggregate_sequence q = oc_aggregate_sequence occ" for q
  proof -
    from that obtain i where i: "i < length ps" "ps ! i = q"
      by (auto simp: in_set_conv_nth)
    have "ordinals_ok ps"
      using snoc.prems by (simp add: ordinals_ok_snoc)
    with i have "oc_publication_ordinal q = ?n (take i ps) q"
      by (auto simp: ordinals_ok_def list_all_iff)
    also have "\<dots> < ?n (take (Suc i) ps) q"
      using i by (simp add: take_Suc_conv_app_nth)
    also have "\<dots> \<le> ?n (take (Suc i) ps @ drop (Suc i) ps) q"
      unfolding filter_append by simp
    finally show ?thesis
      using snoc.prems eq by (simp add: ordinals_ok_snoc)
  qed
  then show ?case
    using snoc by (fastforce simp: ordinals_ok_snoc)
qed simp

lemma entity_inv_init [simp]: "entity_inv (with_id now i)"
  by (simp add: entity_inv_def with_id_def entity_new_def)

lemma new_events_start_inv:
  "entity_inv e \<Longrightarrow> new_events_start e = Some (en_committed_version e - en_prefix_version e)"
  by (auto simp: entity_inv_def new_events_start_def Let_def)

lemma new_events_inv:
  assumes "entity_inv e"
  shows "new_events e = Some (drop (en_committed_version e - en_prefix_version e) (en_events e))"
    and "contiguous (en_committed_version e)
           (drop (en_committed_version e - en_prefix_version e) (en_events e))"
    and "length (drop (en_committed_version e - en_prefix_version e) (en_events e))
           = en_version e - en_committed_version e"
proof -
  show "new_events e = Some (drop (en_committed_version e - en_prefix_version e) (en_events e))"
    using assms by (simp add: new_events_def new_events_start_inv)
  have le: "en_prefix_version e \<le> en_committed_version e"
    "en_committed_version e - en_prefix_version e \<le> length (en_events e)"
    and c: "contiguous (en_prefix_version e) (en_events e)"
    using assms by (auto simp: entity_inv_def)
  show "contiguous (en_committed_version e)
      (drop (en_committed_version e - en_prefix_version e) (en_events e))"
    using contiguous_drop [OF c le(2)] le(1) by simp
  show "length (drop (en_committed_version e - en_prefix_version e) (en_events e))
      = en_version e - en_committed_version e"
    using assms le by (simp add: entity_inv_def)
qed

lemma next_sequence_inv:
  "entity_inv e \<Longrightarrow> en_version e < u64_max \<Longrightarrow> next_sequence e = Suc (en_version e)"
  by (auto simp: entity_inv_def next_sequence_def)

lemma push_new_event_inv:
  assumes "entity_inv e" "en_version e < u64_max" "er_sequence r = Suc (en_version e)"
  shows "entity_inv (push_new_event now r e)"
  using assms by (auto simp: entity_inv_def push_new_event_def Let_def contiguous_append)

text \<open>A capture is refused on a poisoned entity, fails, or appends one occurrence.\<close>

definition causing_envelope :: "string \<Rightarrow> entity \<Rightarrow> envelope" where
  "causing_envelope aty e =
     \<lparr>ev_aggregate_type = aty, ev_aggregate_id = en_id e,
      ev_aggregate_sequence = en_version e, ev_publication_ordinal = pending_at_version e,
      ev_occurred_at = er_timestamp (last (en_events e)),
      ev_metadata = sort_key fst (er_metadata (last (en_events e)))\<rparr>"

lemma capture_typed_cases:
  obtains (poisoned) "en_domain_event_poison e \<noteq> None"
      "capture_typed w aty d body e = (e, Inl EntityAlreadyPoisoned)"
  | (failed) err where "en_domain_event_poison e = None"
      "capture_typed w aty d body e = capture_failed d err e"
  | (ok) occ where "en_domain_event_poison e = None"
      "capture w d (causing_envelope aty e) body = Inr occ"
      "capture_typed w aty d body e
         = (e\<lparr>en_pending_domain_events := en_pending_domain_events e @ [occ]\<rparr>,
            Inr (Captured (oc_id occ)))"
proof (cases "en_domain_event_poison e = None \<and> en_events e \<noteq> [] \<and>
    en_version e \<noteq> en_committed_version e \<and> er_sequence (last (en_events e)) = en_version e \<and>
    \<not> u32_max < pending_at_version e")
  case True
  then have "capture_typed w aty d body e =
     (case capture w d (causing_envelope aty e) body of
        Inr occ \<Rightarrow> (e\<lparr>en_pending_domain_events := en_pending_domain_events e @ [occ]\<rparr>,
                    Inr (Captured (oc_id occ)))
      | Inl err \<Rightarrow> capture_failed d err e)"
    by (simp add: capture_typed_def causing_envelope_def Let_def)
  with True show ?thesis
    using that(2,3) by (cases "capture w d (causing_envelope aty e) body") auto
next
  case False
  show ?thesis
  proof (cases "en_domain_event_poison e = None")
    case True
    with False have "capture_typed w aty d body e = capture_failed d
        (if en_events e = [] \<or> en_version e = en_committed_version e \<or>
            er_sequence (last (en_events e)) \<noteq> en_version e
         then NoPendingAggregateEvent else PublicationOrdinalOverflow) e"
      by (auto simp: capture_typed_def Let_def)
    with True show ?thesis by (rule that(2))
  qed (auto intro: that(1) simp: capture_typed_def)
qed

lemma capture_typed_inv:
  assumes "entity_inv e"
  shows "entity_inv (fst (capture_typed w aty d body e))"
proof (cases rule: capture_typed_cases [of e w aty d body])
  case (ok occ)
  note f = capture_ok(5,6) [OF ok(2)]
  from f have "ordinals_ok (en_pending_domain_events e @ [occ])"
    using assms by (simp add: entity_inv_def ordinals_ok_snoc causing_envelope_def
        pending_at_version_def)
  with ok assms show ?thesis by (simp add: entity_inv_def)
next
  case (failed err)
  with assms show ?thesis by (simp add: entity_inv_def capture_failed_def)
qed (use assms in simp)

lemma capture_failed_inv: "entity_inv e \<Longrightarrow> entity_inv (fst (capture_failed d err e))"
  by (auto simp: entity_inv_def capture_failed_def)

text \<open>Recording appends one event that carries the next sequence and the entity's metadata.\<close>

lemma digest_unfold:
  "digest encode now name payload e =
     (if en_replaying e then Inr e
      else rbind (map_err err_encode (encode payload)) (\<lambda>bytes.
        Inr (push_new_event (snd now)
          ((event_record_new (fst now) name bytes (next_sequence e))\<lparr>er_metadata := en_metadata e\<rparr>) e)))"
  by (cases "encode payload") (auto simp: digest_def Let_def event_record_new_def)

lemma digest_v_unfold:
  "digest_v encode now name ver payload e =
     (if en_replaying e then Inr e
      else rbind (map_err err_encode (encode payload)) (\<lambda>bytes.
        Inr (push_new_event (snd now)
          ((new_versioned (fst now) name bytes (next_sequence e) ver)\<lparr>er_metadata := en_metadata e\<rparr>) e)))"
  by (cases "encode payload") (auto simp: digest_v_def Let_def new_versioned_def)

lemma digest_inv:
  assumes "entity_inv e" "en_version e < u64_max" "digest encode now name payload e = Inr e'"
  shows "entity_inv e'"
  using assms by (auto simp: digest_unfold res_simps next_sequence_inv split: if_splits
      intro!: push_new_event_inv)

lemma digest_v_inv:
  assumes "entity_inv e" "en_version e < u64_max" "digest_v encode now name ver payload e = Inr e'"
  shows "entity_inv e'"
  using assms by (auto simp: digest_v_unfold res_simps next_sequence_inv split: if_splits
      intro!: push_new_event_inv)

lemma overwrite_inv:
  assumes "entity_inv e" "overwrite_new_event_causation_id i e = Some e'"
  shows "entity_inv e'"
proof -
  have "ordinals_ok (map (occurrence_overwrite_causation_id i) ps) = ordinals_ok ps" for ps
    by (rule ordinals_ok_map) (simp_all add: occurrence_overwrite_causation_id_def)
  moreover have "e' = e\<lparr>en_events :=
        take (en_committed_version e - en_prefix_version e) (en_events e) @
        map (overwrite_causation_id i)
          (drop (en_committed_version e - en_prefix_version e) (en_events e)),
      en_pending_domain_events :=
        map (occurrence_overwrite_causation_id i) (en_pending_domain_events e),
      en_metadata := stamp_causation i (en_metadata e)\<rparr>"
    using assms by (simp add: overwrite_new_event_causation_id_def new_events_start_inv)
  ultimately show ?thesis
    using assms(1) by (simp add: entity_inv_def contiguous_map_suffix
        del: length_append length_take length_drop)
qed

lemma setter_inv:
  assumes "entity_inv e"
  shows "entity_inv (set_id i e)" "entity_inv (set_snapshot_version v e)"
    "entity_inv (set_replaying b e)" "entity_inv (mark_committed e)"
    "entity_inv (set_metadata m e)" "entity_inv (set_meta k x e)"
    "entity_inv (set_trace_context tc e)" "entity_inv (clear_metadata e)"
    "entity_inv (fst (rehydrate apply s e))"
  using assms by (simp_all add: entity_inv_def entity_setters)

lemma load_inv:
  assumes "entity_inv e"
  shows "contiguous 0 history \<Longrightarrow> length history \<le> u64_max \<Longrightarrow> entity_inv (load_from_history history e)"
    and "contiguous pre tail \<Longrightarrow> pre + length tail \<le> u64_max \<Longrightarrow>
         entity_inv (load_tail_from_history tail pre e)"
  using assms
  by (simp_all add: entity_inv_def load_from_history_def load_tail_from_history_def Let_def)

lemma capture_inv:
  assumes "entity_inv e"
  shows "entity_inv (fst (capture_domain_state w aty d sd body e))"
    "entity_inv (fst (capture_domain_event w aty d body e))"
    "entity_inv (fst (capture_domain_deletion w aty d body e))"
  using assms
  by (simp_all add: capture_domain_state_def capture_domain_event_def capture_domain_deletion_def
      capture_typed_inv capture_failed_inv)

lemma mark_domain_events_inv:
  "entity_inv e \<Longrightarrow> mark_domain_events_committed e = Inr e' \<Longrightarrow> entity_inv e'"
  by (auto simp: mark_domain_events_committed_def res_simps entity_inv_def)

lemma entity_step_inv: "entity_step w encode e e' \<Longrightarrow> entity_inv e \<Longrightarrow> entity_inv e'"
  by (induction rule: entity_step.induct)
     (rule setter_inv load_inv capture_inv digest_inv digest_v_inv overwrite_inv
        mark_domain_events_inv; assumption)+

lemma entity_reach_inv: "entity_reach w encode e \<Longrightarrow> entity_inv e"
  by (induction rule: entity_reach.induct) (auto intro: entity_step_inv)

lemma capture_poison_sticky:
  assumes "en_domain_event_poison e = Some p"
  shows "fst (capture_typed w aty d body e) = e" and "fst (capture_failed d err e) = e"
  using assms by (simp_all add: capture_typed_def capture_failed_def)

lemma capture_sticky:
  assumes "en_domain_event_poison e = Some p"
  shows "fst (capture_domain_state w aty d sd body e) = e"
    "fst (capture_domain_event w aty d body e) = e"
    "fst (capture_domain_deletion w aty d body e) = e"
  using assms
  by (simp_all add: capture_domain_state_def capture_domain_event_def capture_domain_deletion_def
      capture_poison_sticky)

lemma entity_step_poison:
  "entity_step w encode e e' \<Longrightarrow> en_domain_event_poison e = Some p \<Longrightarrow>
   en_domain_event_poison e' = Some p"
proof (induction rule: entity_step.induct)
  case (overwrite i e e')
  then show ?case
    by (auto simp: overwrite_new_event_causation_id_def split: option.splits)
next
  case (digest e now name payload e')
  then show ?case
    by (auto simp: digest_unfold res_simps push_new_event_def Let_def split: if_splits)
next
  case (digest_v e now name ver payload e')
  then show ?case
    by (auto simp: digest_v_unfold res_simps push_new_event_def Let_def split: if_splits)
next
  case (mark_domain_events e e')
  then show ?case
    by (simp add: mark_domain_events_committed_def domain_event_commit_guard_def)
qed (simp_all add: entity_setters capture_sticky load_from_history_def
       load_tail_from_history_def Let_def)

section \<open>Properties\<close>

text \<open>
  C20: In every state an entity can reach, asking for its uncommitted events does not panic
  and returns exactly the events between the committed position and the current version, with
  contiguous sequence numbers; the version is the omitted prefix plus the events in memory.
\<close>

theorem entity_new_events_exact:
  assumes "entity_reach w encode e"
  shows "\<exists>evs. new_events e = Some evs \<and> contiguous (en_committed_version e) evs \<and>
               length evs = en_version e - en_committed_version e \<and>
               en_version e = en_prefix_version e + length (en_events e)"
  using new_events_inv [OF entity_reach_inv [OF assms]] entity_reach_inv [OF assms]
  by (auto simp: entity_inv_def)

lemma sample_entity_reach:
  "entity_reach sample_wire (\<lambda>b. Inr b)
     (push_new_event 8 ((event_record_new 7 ''b'' [2] 5)\<lparr>er_metadata := []\<rparr>)
        (load_tail_from_history [event_record_new 3 ''a'' [1] 4] 3 (with_id 0 ''x'')))"
proof -
  let ?e = "load_tail_from_history [event_record_new 3 ''a'' [1] 4] 3 (with_id 0 ''x'')"
  have "entity_step sample_wire (\<lambda>b :: byte list. Inr b) (with_id 0 ''x'') ?e"
    by (rule entity_step.load_tail) (simp_all add: u64_max_def)
  then have "entity_reach sample_wire (\<lambda>b :: byte list. Inr b) ?e"
    by (rule entity_reach.step [OF entity_reach.init])
  moreover have "entity_step sample_wire (\<lambda>b :: byte list. Inr b) ?e
      (push_new_event 8 ((event_record_new 7 ''b'' [2] 5)\<lparr>er_metadata := []\<rparr>) ?e)"
    by (rule entity_step.digest [where now = "(7, 8)" and name = "''b''" and payload = "[2]"])
       (simp_all add: load_tail_from_history_def with_id_def entity_new_def u64_max_def
          digest_unfold next_sequence_def u64_add_def)
  ultimately show ?thesis
    by (rule entity_reach.step)
qed

theorem entity_new_events_exact_witness:
  "\<exists>evs. new_events (push_new_event 8 ((event_record_new 7 ''b'' [2] 5)\<lparr>er_metadata := []\<rparr>)
        (load_tail_from_history [event_record_new 3 ''a'' [1] 4] 3 (with_id 0 ''x''))) = Some evs
      \<and> contiguous 4 evs \<and> length evs = 1"
  using entity_new_events_exact [OF sample_entity_reach]
  by (simp add: load_tail_from_history_def with_id_def entity_new_def push_new_event_def
      u64_add_def)



text \<open>
  C22: Publication ordinals never collide: in every reachable entity the pending occurrences
  have pairwise different pairs of aggregate sequence and publication ordinal, the pair that
  tells occurrences of one entity and one event type apart in their identity.
\<close>

theorem pending_occurrences_distinct:
  assumes "entity_reach w encode e"
  shows "distinct (map (\<lambda>occ. (oc_aggregate_sequence occ, oc_publication_ordinal occ))
           (en_pending_domain_events e))"
  using entity_reach_inv [OF assms] by (simp add: entity_inv_def ordinals_ok_distinct)

theorem pending_occurrences_distinct_witness:
  "distinct (map (\<lambda>occ. (oc_aggregate_sequence occ, oc_publication_ordinal occ))
     (en_pending_domain_events
       (fst (capture_domain_event sample_wire ''t'' sample_descriptor (Inr JNull)
         (fst (capture_domain_event sample_wire ''t'' sample_descriptor (Inr JNull)
           (push_new_event 8 ((event_record_new 7 ''b'' [2] 5)\<lparr>er_metadata := []\<rparr>)
             (load_tail_from_history [event_record_new 3 ''a'' [1] 4] 3 (with_id 0 ''x'')))))))))"
  by (rule pending_occurrences_distinct
        [OF entity_reach.step
          [OF entity_reach.step [OF sample_entity_reach entity_step.capture_event]
            entity_step.capture_event]])

end
