(* ===== verification/Repo_Errors.thy ===== *)
theory Repo_Errors
  imports Event_Record
begin

text \<open>
  The error vocabulary the storage layers share: retry classes and lock errors
  (\<^verbatim>\<open>src/src/lock/error.rs\<close>), table-store errors (\<^verbatim>\<open>src/src/table/error.rs\<close>), repository errors
  with their retry classification and conversions (\<^verbatim>\<open>src/src/repository/error.rs\<close>). Poisoned
  locks appear as constructors only: a lock is poisoned by a panic under it, and the modelled
  critical sections do not panic.
\<close>

section \<open>Locks and retry classes\<close>

datatype retry_class = Retryable | Permanent

fun is_retryable_class :: "retry_class \<Rightarrow> bool" where
  "is_retryable_class Retryable = True"
| "is_retryable_class Permanent = False"

datatype lock_error =
    Poisoned string
  | AcquireFailed string
  | ReleaseFailed string
  | Expired string
  | Busy string
  | OtherLock string

fun lock_error_kind :: "lock_error \<Rightarrow> retry_class" where
  "lock_error_kind (Poisoned _) = Permanent"
| "lock_error_kind (AcquireFailed _) = Retryable"
| "lock_error_kind (ReleaseFailed _) = Retryable"
| "lock_error_kind (Expired _) = Retryable"
| "lock_error_kind (Busy _) = Retryable"
| "lock_error_kind (OtherLock _) = Retryable"

fun display_lock_error :: "lock_error \<Rightarrow> string" where
  "display_lock_error (Poisoned m) = ''lock poisoned: '' @ m"
| "display_lock_error (AcquireFailed m) = ''lock acquire failed: '' @ m"
| "display_lock_error (ReleaseFailed m) = ''lock release failed: '' @ m"
| "display_lock_error (Expired m) = ''lock expired: '' @ m"
| "display_lock_error (Busy m) = ''lock busy: '' @ m"
| "display_lock_error (OtherLock m) = ''lock error: '' @ m"

section \<open>Table stores\<close>

datatype table_store_error =
    ConcurrencyConflict string string nat nat
  | Serde string
  | TableStorage string
  | BackendStorage string bool string
  | TableCausalWriteRequired string
  | TableNotFound string string
  | TableLock lock_error
  | Metadata string

fun display_table_error :: "table_store_error \<Rightarrow> string" where
  "display_table_error (ConcurrencyConflict coll i expected actual) =
     ''concurrency conflict on '' @ coll @ '':'' @ i @ '' (expected version '' @
     show_nat expected @ '', actual '' @ show_nat actual @ '')''"
| "display_table_error (Serde m) = ''table store serialization error: '' @ m"
| "display_table_error (TableStorage m) = ''table storage error: '' @ m"
| "display_table_error (BackendStorage operation retry m) =
     ''table backend storage error ('' @ (if retry then ''retryable'' else ''permanent'') @
     '') during '' @ operation @ '': '' @ m"
| "display_table_error (TableCausalWriteRequired table) =
     ''table `'' @ table @ ''` is causal-owned and requires the projection commit path''"
| "display_table_error (TableNotFound coll i) = ''table row not found: '' @ coll @ '':'' @ i"
| "display_table_error (TableLock e) = ''table store lock error: '' @ display_lock_error e"
| "display_table_error (Metadata m) = ''table metadata error: '' @ m"

section \<open>Repositories\<close>

datatype storage_source =
    FromTable table_store_error
  | FromEventRecord event_record_error
  | FromBackend string

datatype repository_error =
    LockPoisoned string
  | Lock lock_error
  | ConcurrentWrite string nat nat
  | DuplicateStreamInBatch string
  | DuplicateOutboxMessageInBatch string
  | DuplicateInboxReceipt string string
  | InvalidInboxReceipt string string
  | CausalWriteRequired string
  | InvalidStreamIdentity string string string
  | NotFound string
  | InvalidState string string string
  | Replay string
  | Model string
  | Storage string bool "storage_source option"

fun repository_error_kind :: "repository_error \<Rightarrow> retry_class" where
  "repository_error_kind (Storage _ retry _) = (if retry then Retryable else Permanent)"
| "repository_error_kind (Lock err) = lock_error_kind err"
| "repository_error_kind (ConcurrentWrite _ _ _) = Retryable"
| "repository_error_kind (NotFound _) = Retryable"
| "repository_error_kind (LockPoisoned _) = Permanent"
| "repository_error_kind (DuplicateStreamInBatch _) = Permanent"
| "repository_error_kind (DuplicateOutboxMessageInBatch _) = Permanent"
| "repository_error_kind (DuplicateInboxReceipt _ _) = Permanent"
| "repository_error_kind (InvalidInboxReceipt _ _) = Permanent"
| "repository_error_kind (CausalWriteRequired _) = Permanent"
| "repository_error_kind (InvalidStreamIdentity _ _ _) = Permanent"
| "repository_error_kind (InvalidState _ _ _) = Permanent"
| "repository_error_kind (Replay _) = Permanent"
| "repository_error_kind (Model _) = Permanent"

definition repository_is_retryable :: "repository_error \<Rightarrow> bool" where
  "repository_is_retryable e = is_retryable_class (repository_error_kind e)"

fun table_error_retryable :: "table_store_error \<Rightarrow> bool" where
  "table_error_retryable (TableLock e) = is_retryable_class (lock_error_kind e)"
| "table_error_retryable (BackendStorage _ retry _) = retry"
| "table_error_retryable _ = False"

definition repository_error_from_table :: "table_store_error \<Rightarrow> repository_error" where
  "repository_error_from_table err =
     (case err of
        TableCausalWriteRequired table \<Rightarrow> CausalWriteRequired table
      | _ \<Rightarrow> Storage ''read model'' (table_error_retryable err) (Some (FromTable err)))"

definition repository_error_from_event_record :: "event_record_error \<Rightarrow> repository_error" where
  "repository_error_from_event_record err = Storage ''event record'' False (Some (FromEventRecord err))"

fun display_storage_source :: "storage_source \<Rightarrow> string" where
  "display_storage_source (FromTable e) = display_table_error e"
| "display_storage_source (FromEventRecord e) = display_event_record_error e"
| "display_storage_source (FromBackend m) = m"

fun display_repository_error :: "repository_error \<Rightarrow> string" where
  "display_repository_error (LockPoisoned operation) =
     ''repository lock poisoned during '' @ operation"
| "display_repository_error (Lock e) = ''repository lock error: '' @ display_lock_error e"
| "display_repository_error (ConcurrentWrite i expected actual) =
     ''concurrent write detected for entity '' @ i @ '' (expected version '' @ show_nat expected @
     '', got '' @ show_nat actual @ '')''"
| "display_repository_error (DuplicateStreamInBatch i) =
     ''duplicate stream id in commit batch: '' @ i"
| "display_repository_error (DuplicateOutboxMessageInBatch i) =
     ''duplicate outbox message id in commit batch: '' @ i"
| "display_repository_error (DuplicateInboxReceipt consumer message) =
     ''consumer inbox receipt already recorded for consumer `'' @ consumer @ ''`, message `'' @
     message @ ''`''"
| "display_repository_error (InvalidInboxReceipt consumer message) =
     ''invalid consumer inbox receipt (consumer `'' @ consumer @ ''`, message `'' @ message @
     ''`): consumer and message id must be non-empty''"
| "display_repository_error (CausalWriteRequired table) =
     ''table `'' @ table @ ''` is causal-owned and requires the projection commit path''"
| "display_repository_error (InvalidStreamIdentity aty aid reason) =
     ''invalid stream identity (type `'' @ aty @ ''`, id `'' @ aid @ ''`): '' @ reason"
| "display_repository_error (NotFound i) = ''entity not found: '' @ i"
| "display_repository_error (InvalidState i expected actual) =
     ''invalid state for entity '' @ i @ '' (expected '' @ expected @ '', got '' @ actual @ '')''"
| "display_repository_error (Replay m) = ''replay error: '' @ m"
| "display_repository_error (Model m) = ''model error: '' @ m"
| "display_repository_error (Storage operation retry src) =
     ''storage error ('' @ (if retry then ''retryable'' else ''permanent'') @ '') during '' @ operation @
     (case src of None \<Rightarrow> [] | Some e \<Rightarrow> '': '' @ display_storage_source e)"

section \<open>Lemmas\<close>

text \<open>A conversion from the table layer never changes whether a retry may help.\<close>

lemma repository_error_from_table_retry:
  "repository_is_retryable (repository_error_from_table err) = table_error_retryable err"
  by (cases err) (auto simp: repository_error_from_table_def repository_is_retryable_def)

lemma repository_error_from_event_record_permanent [simp]:
  "\<not> repository_is_retryable (repository_error_from_event_record err)"
  by (simp add: repository_error_from_event_record_def repository_is_retryable_def)

end
