(* ===== verification/Table_Model.thy ===== *)
theory Table_Model
  imports Repo_Errors Domain_Event
begin

unbundle bit_operations_syntax

text \<open>
  Relational table metadata, row values and staged mutations
  (\<^verbatim>\<open>src/src/table/metadata.rs\<close>, \<^verbatim>\<open>mutation.rs\<close>, \<^verbatim>\<open>plan.rs\<close>): schema and row validation, key
  fingerprints and write-plan validation. Row maps are \<^verbatim>\<open>BTreeMap\<close>s, hence association lists in
  key order. The formatting of floats and of JSON documents belongs to the standard library
  and to \<^verbatim>\<open>serde_json\<close>; both are fields of the argument \<open>table_fmt\<close>.
\<close>

section \<open>Schemas\<close>

datatype column_type =
    TextType | BooleanType | IntegerType | UnsignedIntegerType | FloatType | BytesType
  | JsonType | TimestampType | Unsupported string

record foreign_key =
  fk_table :: string
  fk_column :: string

record table_column =
  col_field_name :: string
  col_column_name :: string
  col_column_type :: column_type
  col_nullable :: bool
  col_has_default :: bool
  col_default :: "string option"
  col_primary_key :: bool
  col_foreign_key :: "foreign_key option"
  col_delegated_from :: "string option"
  col_jsonb :: bool
  col_skipped :: bool

record table_index =
  ix_name :: "string option"
  ix_columns :: "string list"
  ix_unique :: bool

datatype relationship_kind = HasMany | BelongsTo | ManyToMany

record relationship_def =
  rd_field_name :: string
  rd_kind :: relationship_kind
  rd_target_model :: string
  rd_foreign_key :: "string option"
  rd_through :: "string option"
  rd_target_foreign_key :: "string option"

datatype table_kind = ReadModelTable | OperationalTable

record table_schema =
  ts_model_name :: string
  ts_table_name :: string
  ts_columns :: "table_column list"
  ts_primary_key :: "string list"
  ts_version_column :: "string option"
  ts_foreign_keys :: "foreign_key list"
  ts_indexes :: "table_index list"
  ts_relationships :: "relationship_def list"
  ts_kind :: table_kind

definition table_column_new :: "string \<Rightarrow> string \<Rightarrow> column_type \<Rightarrow> table_column" where
  "table_column_new field column ty =
     \<lparr>col_field_name = field, col_column_name = column, col_column_type = ty,
      col_nullable = False, col_has_default = False, col_default = None,
      col_primary_key = False, col_foreign_key = None, col_delegated_from = None,
      col_jsonb = False, col_skipped = False\<rparr>"

definition has_same_storage_contract :: "table_schema \<Rightarrow> table_schema \<Rightarrow> bool" where
  "has_same_storage_contract a b \<longleftrightarrow>
     a\<lparr>ts_relationships := []\<rparr> = b\<lparr>ts_relationships := []\<rparr>"

definition metadata_error :: "string list \<Rightarrow> table_store_error" where
  "metadata_error parts = Metadata (concat parts)"

definition validate_foreign_key :: "string \<Rightarrow> foreign_key \<Rightarrow> table_store_error + unit" where
  "validate_foreign_key model fk =
     (if fk_table fk = [] \<or> fk_column fk = []
      then Inl (metadata_error [''model `'', model, ''` has an invalid foreign-key declaration''])
      else Inr ())"

text \<open>The column loop returns the set of names it has inserted.\<close>

fun validate_columns ::
    "string \<Rightarrow> string set \<Rightarrow> table_column list \<Rightarrow> table_store_error + string set" where
  "validate_columns model seen [] = Inr seen"
| "validate_columns model seen (c # cs) =
     (if col_column_name c = []
      then Inl (metadata_error [''model `'', model, ''` has a column with an empty name''])
      else if col_column_name c \<in> seen
      then Inl (metadata_error [''model `'', model, ''` declares duplicate column `'',
                                col_column_name c, ''`''])
      else
      rbind (case col_column_type c of
               Unsupported ty \<Rightarrow>
                 Inl (metadata_error [''model `'', model, ''` field `'', col_field_name c,
                                      ''` has unsupported field shape `'', ty, ''`''])
             | _ \<Rightarrow> Inr ()) (\<lambda>_.
      if col_primary_key c \<and> col_nullable c
      then Inl (metadata_error [''model `'', model, ''` primary-key column `'',
                                col_column_name c, ''` must be non-null''])
      else
      rbind (case col_foreign_key c of None \<Rightarrow> Inr () | Some fk \<Rightarrow> validate_foreign_key model fk) (\<lambda>_.
      validate_columns model (insert (col_column_name c) seen) cs)))"

definition validate_version_column ::
    "string \<Rightarrow> string set \<Rightarrow> string option \<Rightarrow> table_store_error + unit" where
  "validate_version_column model columns vc =
     (case vc of
        None \<Rightarrow> Inr ()
      | Some v \<Rightarrow>
          if v = []
          then Inl (metadata_error [''model `'', model, ''` declares an empty version column''])
          else if v \<in> columns
          then Inl (metadata_error [''model `'', model, ''` version column `'', v,
                                    ''` conflicts with a mapped column''])
          else Inr ())"

definition validate_primary_key_column ::
    "table_schema \<Rightarrow> string set \<Rightarrow> string \<Rightarrow> table_store_error + unit" where
  "validate_primary_key_column s columns c =
     (if c \<notin> columns
      then Inl (metadata_error [''model `'', ts_model_name s,
                                ''` primary key references missing column `'', c, ''`''])
      else if (case find (\<lambda>d. col_column_name d = c) (ts_columns s) of
                 None \<Rightarrow> False | Some d \<Rightarrow> col_nullable d)
      then Inl (metadata_error [''model `'', ts_model_name s, ''` primary-key column `'', c,
                                ''` must be non-null''])
      else Inr ())"

fun validate_indexes ::
    "string \<Rightarrow> string set \<Rightarrow> string set \<Rightarrow> table_index list \<Rightarrow> table_store_error + unit" where
  "validate_indexes model columns names [] = Inr ()"
| "validate_indexes model columns names (ix # ixs) =
     (if (case ix_name ix of None \<Rightarrow> False | Some n \<Rightarrow> n \<in> names)
      then Inl (metadata_error [''model `'', model, ''` declares duplicate index name `'',
                                the (ix_name ix), ''`''])
      else if ix_columns ix = []
      then Inl (metadata_error [''model `'', model, ''` declares an index with no columns''])
      else
      rbind (try_each (\<lambda>c. ensure (c \<in> columns)
               (metadata_error [''model `'', model, ''` index references missing column `'',
                                c, ''`''])) (ix_columns ix)) (\<lambda>_.
      validate_indexes model columns
        (case ix_name ix of None \<Rightarrow> names | Some n \<Rightarrow> insert n names) ixs))"

definition validate_relationship ::
    "string \<Rightarrow> relationship_def \<Rightarrow> table_store_error + unit" where
  "validate_relationship model r =
     (if rd_target_model r = []
      then Inl (metadata_error [''model `'', model, ''` relationship `'', rd_field_name r,
                                ''` must declare a target model''])
      else if (rd_kind r = HasMany \<or> rd_kind r = BelongsTo) \<and>
              (rd_foreign_key r = None \<or> rd_foreign_key r = Some [])
      then Inl (metadata_error [''model `'', model, ''` relationship `'', rd_field_name r,
                                ''` must declare a foreign key''])
      else if rd_kind r = ManyToMany \<and> rd_foreign_key r = Some []
      then Inl (metadata_error [''model `'', model, ''` relationship `'', rd_field_name r,
                                ''` foreign_key must not be empty''])
      else if rd_kind r = ManyToMany \<and> rd_target_foreign_key r = Some []
      then Inl (metadata_error [''model `'', model, ''` relationship `'', rd_field_name r,
                                ''` target_foreign_key must not be empty''])
      else Inr ())"

definition validate_schema :: "table_schema \<Rightarrow> table_store_error + unit" where
  "validate_schema s =
     (if ts_table_name s = [] then Inl (Metadata ''table schema must declare a table name'')
      else
      rbind (validate_columns (ts_model_name s) {} (ts_columns s)) (\<lambda>columns.
      rbind (validate_version_column (ts_model_name s) columns (ts_version_column s)) (\<lambda>_.
      if ts_primary_key s = []
      then Inl (metadata_error [''model `'', ts_model_name s,
                                ''` must declare at least one primary-key column''])
      else
      rbind (try_each (validate_primary_key_column s columns) (ts_primary_key s)) (\<lambda>_.
      rbind (try_each (validate_foreign_key (ts_model_name s)) (ts_foreign_keys s)) (\<lambda>_.
      rbind (validate_indexes (ts_model_name s) columns {} (ts_indexes s)) (\<lambda>_.
      try_each (validate_relationship (ts_model_name s)) (ts_relationships s)))))))"

section \<open>Row values\<close>

datatype row_value =
    RNull
  | RBool bool
  | RI64 int
  | RU64 nat
  | RF64 "64 word"
  | RString string
  | RBytes "byte list"
  | RJson json

type_synonym row_values = "(string \<times> row_value) list"
type_synonym row_key = "(string \<times> row_value) list"

text \<open>IEEE equality of floats, and the derived equalities of JSON documents and row values.\<close>

definition f64_is_nan :: "64 word \<Rightarrow> bool" where
  "f64_is_nan w \<longleftrightarrow>
     w AND 0x7FF0000000000000 = 0x7FF0000000000000 \<and> w AND 0x000FFFFFFFFFFFFF \<noteq> 0"

definition f64_eq :: "64 word \<Rightarrow> 64 word \<Rightarrow> bool" where
  "f64_eq a b \<longleftrightarrow>
     \<not> f64_is_nan a \<and> \<not> f64_is_nan b \<and>
     (a = b \<or> (a AND 0x7FFFFFFFFFFFFFFF = 0 \<and> b AND 0x7FFFFFFFFFFFFFFF = 0))"

fun number_eq :: "json_number \<Rightarrow> json_number \<Rightarrow> bool" where
  "number_eq (PosInt a) (PosInt b) = (a = b)"
| "number_eq (NegInt a) (NegInt b) = (a = b)"
| "number_eq (Float a) (Float b) = f64_eq a b"
| "number_eq _ _ = False"

fun json_eq :: "json \<Rightarrow> json \<Rightarrow> bool"
  and json_list_eq :: "json list \<Rightarrow> json list \<Rightarrow> bool"
  and json_fields_eq :: "(string \<times> json) list \<Rightarrow> (string \<times> json) list \<Rightarrow> bool" where
  "json_eq JNull JNull = True"
| "json_eq (JBool a) (JBool b) = (a = b)"
| "json_eq (JNumber a) (JNumber b) = number_eq a b"
| "json_eq (JString a) (JString b) = (a = b)"
| "json_eq (JArray a) (JArray b) = json_list_eq a b"
| "json_eq (JObject a) (JObject b) = json_fields_eq a b"
| "json_eq _ _ = False"
| "json_list_eq [] [] = True"
| "json_list_eq (a # as) (b # bs) = (json_eq a b \<and> json_list_eq as bs)"
| "json_list_eq _ _ = False"
| "json_fields_eq [] [] = True"
| "json_fields_eq ((k, a) # as) ((l, b) # bs) = (k = l \<and> json_eq a b \<and> json_fields_eq as bs)"
| "json_fields_eq _ _ = False"

fun row_value_eq :: "row_value \<Rightarrow> row_value \<Rightarrow> bool" where
  "row_value_eq (RF64 a) (RF64 b) = f64_eq a b"
| "row_value_eq (RJson a) (RJson b) = json_eq a b"
| "row_value_eq a b = (a = b)"

section \<open>Fingerprints\<close>

record table_fmt =
  tf_f64_debug :: "64 word \<Rightarrow> string"
  tf_json_string :: "json \<Rightarrow> string"

fun join :: "string \<Rightarrow> string list \<Rightarrow> string" where
  "join sep [] = []"
| "join sep [x] = x"
| "join sep (x # y # ys) = x @ sep @ join sep (y # ys)"

definition show_bool :: "bool \<Rightarrow> string" where
  "show_bool b = (if b then ''true'' else ''false'')"

definition show_bytes :: "byte list \<Rightarrow> string" where
  "show_bytes bs = ''['' @ join '', '' (map (\<lambda>b. show_nat (unat b)) bs) @ '']''"

fun value_fingerprint :: "table_fmt \<Rightarrow> row_value \<Rightarrow> string" where
  "value_fingerprint fmt RNull = ''null''"
| "value_fingerprint fmt (RBool b) = ''bool:'' @ show_bool b"
| "value_fingerprint fmt (RI64 i) = ''i64:'' @ show_int i"
| "value_fingerprint fmt (RU64 n) = ''u64:'' @ show_nat n"
| "value_fingerprint fmt (RF64 w) = ''f64:'' @ tf_f64_debug fmt w"
| "value_fingerprint fmt (RString s) = ''string:'' @ s"
| "value_fingerprint fmt (RBytes bs) = ''bytes:'' @ show_bytes bs"
| "value_fingerprint fmt (RJson j) = ''json:'' @ tf_json_string fmt j"

definition fingerprint_part :: "string \<Rightarrow> string" where
  "fingerprint_part part = show_nat (length part) @ '':'' @ part @ '';''"

definition key_fingerprint :: "table_fmt \<Rightarrow> row_key \<Rightarrow> string" where
  "key_fingerprint fmt key =
     concat (map (\<lambda>(column, v). fingerprint_part column @
                                fingerprint_part (value_fingerprint fmt v)) key)"

definition relational_storage_key :: "table_fmt \<Rightarrow> string \<Rightarrow> row_key \<Rightarrow> string" where
  "relational_storage_key fmt table key = table @ '':'' @ key_fingerprint fmt key"

section \<open>Mutations\<close>

datatype expected_version = Any | Exact nat | NotExists

datatype row_write_mode = InsertMode | UpsertMode

datatype patch_mode = UpdateExisting | InsertMissing

record row_mutation =
  rm_schema :: table_schema
  rm_key :: row_key
  rm_values :: row_values
  rm_expected_version :: expected_version
  rm_mode :: row_write_mode

record patch_mutation =
  pm_schema :: table_schema
  pm_key :: row_key
  pm_patch :: row_values
  pm_expected_version :: expected_version
  pm_mode :: patch_mode

record delete_mutation =
  dm_schema :: table_schema
  dm_key :: row_key
  dm_expected_version :: expected_version

datatype table_mutation =
    UpsertRow row_mutation
  | PatchRow patch_mutation
  | DeleteRow delete_mutation

fun mutation_schema :: "table_mutation \<Rightarrow> table_schema" where
  "mutation_schema (UpsertRow m) = rm_schema m"
| "mutation_schema (PatchRow m) = pm_schema m"
| "mutation_schema (DeleteRow m) = dm_schema m"

fun mutation_key :: "table_mutation \<Rightarrow> row_key" where
  "mutation_key (UpsertRow m) = rm_key m"
| "mutation_key (PatchRow m) = pm_key m"
| "mutation_key (DeleteRow m) = dm_key m"

definition mutation_table_name :: "table_mutation \<Rightarrow> string" where
  "mutation_table_name m = ts_table_name (mutation_schema m)"

definition lock_key :: "table_fmt \<Rightarrow> table_mutation \<Rightarrow> string" where
  "lock_key fmt m = mutation_table_name m @ '':'' @ key_fingerprint fmt (mutation_key m)"

fun operation_rank :: "table_mutation \<Rightarrow> nat" where
  "operation_rank (UpsertRow _) = 1"
| "operation_rank (PatchRow _) = 2"
| "operation_rank (DeleteRow _) = 3"

definition depends_on_table :: "table_mutation \<Rightarrow> string \<Rightarrow> bool" where
  "depends_on_table m table \<longleftrightarrow>
     list_ex (\<lambda>fk. fk_table fk = table) (ts_foreign_keys (mutation_schema m)) \<or>
     list_ex (\<lambda>c. case col_foreign_key c of None \<Rightarrow> False | Some fk \<Rightarrow> fk_table fk = table)
       (ts_columns (mutation_schema m))"

datatype ordering = Less | Equal | Greater

definition dependency_order :: "table_mutation \<Rightarrow> table_mutation \<Rightarrow> ordering option" where
  "dependency_order a b =
     (let a_on_b = depends_on_table a (mutation_table_name b);
          b_on_a = depends_on_table b (mutation_table_name a);
          deletes = (operation_rank a = 3 \<and> operation_rank b = 3) in
      if a_on_b \<and> \<not> b_on_a then Some (if deletes then Less else Greater)
      else if \<not> a_on_b \<and> b_on_a then Some (if deletes then Greater else Less)
      else None)"

section \<open>Mutation validation\<close>

definition validate_expected_version ::
    "expected_version \<Rightarrow> table_schema \<Rightarrow> table_store_error + unit" where
  "validate_expected_version ev s =
     (if ev = Exact 0
      then Inl (metadata_error [''model `'', ts_model_name s,
                                ''` expected version must be greater than zero''])
      else Inr ())"

definition validate_key :: "table_schema \<Rightarrow> row_key \<Rightarrow> table_store_error + unit" where
  "validate_key s key =
     (if key = []
      then Inl (metadata_error [''model `'', ts_model_name s, ''` row key cannot be empty''])
      else
      rbind (try_each (\<lambda>c. case map_of key c of
                 Some RNull \<Rightarrow>
                   Inl (metadata_error [''model `'', ts_model_name s, ''` primary-key column `'',
                                        c, ''` cannot be null''])
               | Some _ \<Rightarrow> Inr ()
               | None \<Rightarrow>
                   Inl (metadata_error [''model `'', ts_model_name s,
                          ''` row key is missing primary-key column `'', c, ''`'']))
               (ts_primary_key s)) (\<lambda>_.
      try_each (\<lambda>(c, _). ensure (c \<in> set (ts_primary_key s))
          (metadata_error [''model `'', ts_model_name s,
             ''` row key includes non-primary-key column `'', c, ''`''])) key))"

definition validate_row_value :: "table_schema \<Rightarrow> string \<times> row_value \<Rightarrow> table_store_error + unit" where
  "validate_row_value s cv =
     rbind (ok_or (metadata_error [''model `'', ts_model_name s,
                     ''` write references missing column `'', fst cv, ''`''])
              (find (\<lambda>c. col_column_name c = fst cv) (ts_columns s))) (\<lambda>c.
     if snd cv = RNull then
       (if col_primary_key c
        then Inl (metadata_error [''model `'', ts_model_name s, ''` primary-key column `'',
                                  col_column_name c, ''` cannot be null''])
        else if \<not> col_nullable c \<and> \<not> col_has_default c
        then Inl (metadata_error [''model `'', ts_model_name s, ''` column `'',
                                  col_column_name c, ''` is not nullable''])
        else Inr ())
     else Inr ())"

definition validate_row_values ::
    "table_schema \<Rightarrow> row_values \<Rightarrow> bool \<Rightarrow> table_store_error + unit" where
  "validate_row_values s values full_row =
     rbind (try_each (validate_row_value s) values) (\<lambda>_.
     if full_row then
       rbind (try_each (\<lambda>c.
                if col_skipped c \<or> col_nullable c \<or> col_has_default c then Inr ()
                else ensure (map_of values (col_column_name c) \<noteq> None)
                  (metadata_error [''model `'', ts_model_name s,
                     ''` row is missing required column `'', col_column_name c, ''`'']))
                (ts_columns s)) (\<lambda>_.
       try_each (\<lambda>c. ensure (case map_of values (col_column_name c) of
                              None \<Rightarrow> False | Some v \<Rightarrow> v \<noteq> RNull)
            (metadata_error [''model `'', ts_model_name s, ''` delegated column `'',
               col_column_name c, ''` must be populated before write'']))
         (filter (\<lambda>c. col_delegated_from c \<noteq> None) (ts_columns s)))
     else Inr ())"

definition validate_row_mutation :: "row_mutation \<Rightarrow> table_store_error + unit" where
  "validate_row_mutation m =
     rbind (validate_schema (rm_schema m)) (\<lambda>_.
     rbind (validate_key (rm_schema m) (rm_key m)) (\<lambda>_.
     rbind (validate_expected_version (rm_expected_version m) (rm_schema m)) (\<lambda>_.
     validate_row_values (rm_schema m) (rm_values m) True)))"

definition validate_patch_mutation :: "patch_mutation \<Rightarrow> table_store_error + unit" where
  "validate_patch_mutation m =
     rbind (validate_schema (pm_schema m)) (\<lambda>_.
     rbind (validate_key (pm_schema m) (pm_key m)) (\<lambda>_.
     rbind (validate_expected_version (pm_expected_version m) (pm_schema m)) (\<lambda>_.
     if pm_patch m = []
     then Inl (metadata_error [''model `'', ts_model_name (pm_schema m),
                               ''` patch must set at least one column''])
     else validate_row_values (pm_schema m) (pm_patch m) False)))"

definition validate_delete_mutation :: "delete_mutation \<Rightarrow> table_store_error + unit" where
  "validate_delete_mutation m =
     rbind (validate_schema (dm_schema m)) (\<lambda>_.
     rbind (validate_key (dm_schema m) (dm_key m)) (\<lambda>_.
     validate_expected_version (dm_expected_version m) (dm_schema m)))"

section \<open>Write plans\<close>

record adapter_capabilities =
  ac_relational_rows :: bool
  ac_sparse_patches :: bool
  ac_deletes :: bool

definition default_capabilities :: adapter_capabilities where
  "default_capabilities =
     \<lparr>ac_relational_rows = True, ac_sparse_patches = True, ac_deletes = True\<rparr>"

type_synonym table_write_plan = "table_mutation list"

fun validate_mutation_for :: "adapter_capabilities \<Rightarrow> table_mutation \<Rightarrow> table_store_error + unit" where
  "validate_mutation_for caps (UpsertRow m) =
     (if \<not> ac_relational_rows caps
      then Inl (Metadata ''read-model adapter does not support relational row writes'')
      else validate_row_mutation m)"
| "validate_mutation_for caps (PatchRow m) =
     (if \<not> ac_relational_rows caps \<or> \<not> ac_sparse_patches caps
      then Inl (Metadata ''read-model adapter does not support sparse row patches'')
      else validate_patch_mutation m)"
| "validate_mutation_for caps (DeleteRow m) =
     (if \<not> ac_relational_rows caps \<or> \<not> ac_deletes caps
      then Inl (Metadata ''read-model adapter does not support row deletes'')
      else validate_delete_mutation m)"

definition validate_for :: "adapter_capabilities \<Rightarrow> table_write_plan \<Rightarrow> table_store_error + unit" where
  "validate_for caps plan = try_each (validate_mutation_for caps) plan"

definition validate_plan :: "table_write_plan \<Rightarrow> table_store_error + unit" where
  "validate_plan plan = validate_for default_capabilities plan"

section \<open>Lemmas\<close>

lemma join_numbers_Cons:
  "join '', '' (map f (x # xs)) @ '']'' =
     f x @ (if xs = [] then '']'' else CHR '','' # CHR '' '' # join '', '' (map f xs) @ '']'')"
  by (cases xs) simp_all

lemma join_numbers_not_Nil: "join '', '' (map show_nat (x # xs)) \<noteq> []"
  by (cases xs) simp_all

lemma join_numbers_inj:
  "join '', '' (map show_nat xs) @ '']'' = join '', '' (map show_nat ys) @ '']'' \<Longrightarrow> xs = ys"
proof (induction xs arbitrary: ys)
  case Nil
  then show ?case
    using join_numbers_not_Nil by (cases ys) (auto simp del: list.map(2))
next
  case (Cons x xs)
  obtain y zs where ys: "ys = y # zs"
    using Cons.prems join_numbers_not_Nil by (cases ys) (auto simp del: list.map(2))
  let ?c = "\<lambda>ws :: nat list. if ws = [] then CHR '']'' else CHR '',''"
  let ?r = "\<lambda>ws. if ws = [] then [] else CHR '' '' # join '', '' (map show_nat ws) @ '']''"
  have tail: "join '', '' (map show_nat (w # ws)) @ '']'' = show_nat w @ ?c ws # ?r ws" for w ws
    unfolding join_numbers_Cons by simp
  have eq: "show_nat x @ ?c xs # ?r xs = show_nat y @ ?c zs # ?r zs"
    using Cons.prems unfolding ys tail .
  have "\<not> is_digit (?c ws)" for ws
    by (simp add: is_digit_def)
  note s = show_nat_split [OF eq this this]
  have "x = y \<and> join '', '' (map show_nat xs) @ '']'' = join '', '' (map show_nat zs) @ '']''"
    using s by (auto split: if_splits)
  with Cons.IH ys show ?case by blast
qed

lemma show_bytes_inj: "show_bytes xs = show_bytes ys \<longleftrightarrow> xs = ys"
proof
  assume "show_bytes xs = show_bytes ys"
  then have "map unat xs = map unat ys"
    using join_numbers_inj [of "map unat xs" "map unat ys"]
    by (simp add: show_bytes_def o_def)
  then show "xs = ys"
    by (rule map_injective) (auto intro: injI simp: word_unat_eq_iff)
qed simp

text \<open>Keys over values whose text form is exact: no floats and no documents.\<close>

fun plain_value :: "row_value \<Rightarrow> bool" where
  "plain_value (RF64 _) = False"
| "plain_value (RJson _) = False"
| "plain_value _ = True"

definition plain_key :: "row_key \<Rightarrow> bool" where
  "plain_key key = list_all (\<lambda>(_, v). plain_value v) key"

lemma value_fingerprint_inj:
  "plain_value v \<Longrightarrow> plain_value w \<Longrightarrow> value_fingerprint fmt v = value_fingerprint fmt w \<Longrightarrow> v = w"
  by (cases v; cases w) (auto simp: show_bytes_inj show_bool_def split: if_splits)

lemma fingerprint_part_split:
  assumes "fingerprint_part a @ r = fingerprint_part b @ s"
  shows "a = b" "r = s"
proof -
  have "show_nat (length a) @ CHR '':'' # a @ '';'' @ r
      = show_nat (length b) @ CHR '':'' # b @ '';'' @ s"
    using assms by (simp add: fingerprint_part_def)
  then have "length a = length b" "a @ '';'' @ r = b @ '';'' @ s"
    by (auto dest: show_nat_split simp: is_digit_def)
  then show "a = b" "r = s" by simp_all
qed

lemma fingerprint_part_not_Nil: "fingerprint_part a @ r \<noteq> []"
  by (simp add: fingerprint_part_def)

lemma key_fingerprint_inj:
  "key_fingerprint fmt k = key_fingerprint fmt l \<Longrightarrow> plain_key k \<Longrightarrow> plain_key l \<Longrightarrow> k = l"
proof (induction k arbitrary: l)
  case Nil
  then show ?case
    using fingerprint_part_not_Nil by (cases l) (auto simp: key_fingerprint_def)
next
  case (Cons x k)
  obtain c v where x: "x = (c, v)" by force
  obtain d w m where l: "l = (d, w) # m"
    using Cons.prems(1) fingerprint_part_not_Nil
    by (cases l) (auto simp: key_fingerprint_def split: prod.splits)
  have eq: "fingerprint_part c @ fingerprint_part (value_fingerprint fmt v) @ key_fingerprint fmt k
      = fingerprint_part d @ fingerprint_part (value_fingerprint fmt w) @ key_fingerprint fmt m"
    using Cons.prems(1) by (simp add: key_fingerprint_def x l)
  note s1 = fingerprint_part_split [OF eq]
  note s2 = fingerprint_part_split [OF s1(2)]
  show ?case
    using s1(1) s2 Cons.prems(2,3) Cons.IH value_fingerprint_inj
    by (auto simp: x l plain_key_def)
qed

lemma validate_columns_ok:
  "validate_columns model seen cs = Inr names \<Longrightarrow>
     names = seen \<union> col_column_name ` set cs \<and> distinct (map col_column_name cs) \<and>
     seen \<inter> col_column_name ` set cs = {}"
proof (induction cs arbitrary: seen)
  case (Cons c cs)
  then have "validate_columns model (insert (col_column_name c) seen) cs = Inr names"
    and "col_column_name c \<notin> seen"
    by (auto simp: res_simps split: if_splits)
  with Cons.IH show ?case by fastforce
qed simp

lemma validate_schema_ok:
  assumes "validate_schema s = Inr u"
  shows "distinct (map col_column_name (ts_columns s))"
    and "set (ts_primary_key s) \<subseteq> col_column_name ` set (ts_columns s)"
    and "ts_primary_key s \<noteq> []"
proof -
  obtain columns where c: "validate_columns (ts_model_name s) {} (ts_columns s) = Inr columns"
    and pk: "ts_primary_key s \<noteq> []"
      "\<forall>c \<in> set (ts_primary_key s). validate_primary_key_column s columns c = Inr ()"
    using assms by (auto simp: validate_schema_def res_simps split: if_splits)
  from validate_columns_ok [OF c] pk
  show "distinct (map col_column_name (ts_columns s))"
    and "set (ts_primary_key s) \<subseteq> col_column_name ` set (ts_columns s)"
    and "ts_primary_key s \<noteq> []"
    by (auto simp: validate_primary_key_column_def split: if_splits)
qed

lemma validate_row_value_ok [res_simps]:
  "validate_row_value s (c, v) = Inr u \<longleftrightarrow>
     (\<exists>col. find (\<lambda>d. col_column_name d = c) (ts_columns s) = Some col \<and>
        (v = RNull \<longrightarrow> \<not> col_primary_key col \<and> (col_nullable col \<or> col_has_default col)))"
  by (auto simp: validate_row_value_def res_simps)

lemma validate_row_values_ok [res_simps]:
  "validate_row_values s row full_row = Inr u \<longleftrightarrow>
     (\<forall>cv \<in> set row. validate_row_value s cv = Inr ()) \<and>
     (full_row \<longrightarrow>
        (\<forall>c \<in> set (ts_columns s). col_skipped c \<or> col_nullable c \<or> col_has_default c \<or>
           map_of row (col_column_name c) \<noteq> None) \<and>
        (\<forall>c \<in> set (ts_columns s). col_delegated_from c \<noteq> None \<longrightarrow>
           map_of row (col_column_name c) \<notin> {None, Some RNull}))"
proof -
  have present: "(case x of None \<Rightarrow> False | Some v \<Rightarrow> v \<noteq> RNull) \<longleftrightarrow> x \<notin> {None, Some RNull}" for x
    by (cases x) auto
  show ?thesis
    by (cases full_row) (auto simp: validate_row_values_def res_simps present)
qed

section \<open>Properties\<close>



text \<open>
  The dependency order between staged mutations is antisymmetric: swapping two
  mutations flips their order, and they are unordered one way exactly when they are unordered
  the other way.
\<close>

theorem dependency_order_antisym:
  "dependency_order b a =
     map_option (\<lambda>c. case c of Less \<Rightarrow> Greater | Equal \<Rightarrow> Equal | Greater \<Rightarrow> Less)
       (dependency_order a b)"
  by (simp add: dependency_order_def Let_def conj_commute)

end
