(* ===== verification/Outbox_Message.thy ===== *)
theory Outbox_Message
  imports Entity Table_Model
begin

text \<open>
  Outbox messages (\<^verbatim>\<open>src/src/outbox/message.rs\<close>): the publishable envelope, its constructors,
  the delivery state machine Pending, InFlight, Published, Failed with leases, and the mapping
  to a relational row (\<^verbatim>\<open>src/src/outbox/table.rs\<close>). Operations that read the wall clock take its
  value as an argument; an operation that fails leaves the message as it was, so its result is
  the new message or the error.
\<close>

section \<open>Data\<close>

datatype outbox_status = Pending | InFlight | Published | Failed

fun outbox_status_as_str :: "outbox_status \<Rightarrow> string" where
  "outbox_status_as_str Pending = ''pending''"
| "outbox_status_as_str InFlight = ''in_flight''"
| "outbox_status_as_str Published = ''published''"
| "outbox_status_as_str Failed = ''failed''"

definition outbox_status_from_str :: "string \<Rightarrow> outbox_status option" where
  "outbox_status_from_str s =
     (if s = ''pending'' then Some Pending
      else if s = ''in_flight'' then Some InFlight
      else if s = ''published'' then Some Published
      else if s = ''failed'' then Some Failed
      else None)"

record outbox_message =
  ob_id :: string
  ob_event_type :: string
  ob_payload :: "byte list"
  ob_payload_codec :: string
  ob_payload_codec_version :: nat
  ob_status :: outbox_status
  ob_created_at :: system_time
  ob_attempts :: nat
  ob_last_error :: "string option"
  ob_worker_id :: "string option"
  ob_leased_until :: "system_time option"
  ob_destination :: "string option"
  ob_metadata :: metadata
  ob_source_aggregate_type :: "string option"
  ob_source_aggregate_id :: "string option"
  ob_source_sequence :: "nat option"

definition RAW_PAYLOAD_CODEC :: string where
  "RAW_PAYLOAD_CODEC = ''bytes''"

definition RAW_PAYLOAD_CODEC_VERSION :: nat where
  "RAW_PAYLOAD_CODEC_VERSION = 1"

definition DOMAIN_EVENT_PAYLOAD_CODEC :: string where
  "DOMAIN_EVENT_PAYLOAD_CODEC = ''distributed.domain-event-occurrence+json''"

definition DOMAIN_EVENT_PAYLOAD_CODEC_VERSION :: nat where
  "DOMAIN_EVENT_PAYLOAD_CODEC_VERSION = 1"

definition outbox_message_new :: outbox_message where
  "outbox_message_new =
     \<lparr>ob_id = [], ob_event_type = [], ob_payload = [],
      ob_payload_codec = RAW_PAYLOAD_CODEC, ob_payload_codec_version = RAW_PAYLOAD_CODEC_VERSION,
      ob_status = Pending, ob_created_at = UNIX_EPOCH, ob_attempts = 0, ob_last_error = None,
      ob_worker_id = None, ob_leased_until = None, ob_destination = None, ob_metadata = [],
      ob_source_aggregate_type = None, ob_source_aggregate_id = None, ob_source_sequence = None\<rparr>"

section \<open>Construction\<close>

definition validate_non_empty :: "string \<Rightarrow> string \<Rightarrow> event_record_error + unit" where
  "validate_non_empty field s =
     (if blank s then Inl (EventRecordError (field @ '' must not be empty'')) else Inr ())"

definition initialize_with_codec ::
    "system_time \<Rightarrow> string \<Rightarrow> string \<Rightarrow> byte list \<Rightarrow> string option \<Rightarrow> metadata \<Rightarrow> string \<times> nat \<Rightarrow>
     outbox_message \<Rightarrow> event_record_error + outbox_message" where
  "initialize_with_codec now i event_type payload dest meta codec m =
     rbind (validate_non_empty ''outbox message id'' i) (\<lambda>_.
     rbind (validate_non_empty ''outbox event type'' event_type) (\<lambda>_.
     rbind (validate_non_empty ''outbox payload codec'' (fst codec)) (\<lambda>_.
     if snd codec = 0
     then Inl (EventRecordError ''outbox payload codec version must be greater than zero'')
     else Inr (m\<lparr>ob_id := i, ob_event_type := event_type, ob_payload := payload,
                  ob_payload_codec := fst codec, ob_payload_codec_version := snd codec,
                  ob_destination := dest, ob_metadata := meta, ob_status := Pending,
                  ob_created_at := now, ob_attempts := 0, ob_last_error := None,
                  ob_worker_id := None, ob_leased_until := None,
                  ob_source_aggregate_type := None, ob_source_aggregate_id := None,
                  ob_source_sequence := None\<rparr>))))"

definition initialize ::
    "system_time \<Rightarrow> string \<Rightarrow> string \<Rightarrow> byte list \<Rightarrow> string option \<Rightarrow> metadata \<Rightarrow>
     outbox_message \<Rightarrow> event_record_error + outbox_message" where
  "initialize now i event_type payload dest meta m =
     initialize_with_codec now i event_type payload dest meta
       (RAW_PAYLOAD_CODEC, RAW_PAYLOAD_CODEC_VERSION) m"

definition create ::
    "system_time \<Rightarrow> string \<Rightarrow> string \<Rightarrow> byte list \<Rightarrow> event_record_error + outbox_message" where
  "create now i event_type payload = initialize now i event_type payload None [] outbox_message_new"

definition create_to ::
    "system_time \<Rightarrow> string \<Rightarrow> string \<Rightarrow> string \<Rightarrow> byte list \<Rightarrow> event_record_error + outbox_message" where
  "create_to now i event_type dest payload =
     initialize now i event_type payload (Some dest) [] outbox_message_new"

definition create_with_metadata ::
    "system_time \<Rightarrow> string \<Rightarrow> string \<Rightarrow> byte list \<Rightarrow> metadata \<Rightarrow>
     event_record_error + outbox_message" where
  "create_with_metadata now i event_type payload meta =
     initialize now i event_type payload None meta outbox_message_new"

definition create_encoded_bytes ::
    "system_time \<Rightarrow> string \<Rightarrow> string \<Rightarrow> byte list \<Rightarrow> string option \<Rightarrow> metadata \<Rightarrow>
     event_record_error + outbox_message" where
  "create_encoded_bytes now i event_type payload dest meta =
     initialize_with_codec now i event_type payload dest meta
       (BITCODE_PAYLOAD_CODEC, BITCODE_PAYLOAD_CODEC_VERSION) outbox_message_new"

definition encode ::
    "('p \<Rightarrow> string + byte list) \<Rightarrow> system_time \<Rightarrow> string \<Rightarrow> string \<Rightarrow> 'p \<Rightarrow>
     event_record_error + outbox_message" where
  "encode serialize now i event_type payload =
     rbind (map_err err_encode (serialize payload)) (\<lambda>bytes.
     create_encoded_bytes now i event_type bytes None [])"

definition encode_to ::
    "('p \<Rightarrow> string + byte list) \<Rightarrow> system_time \<Rightarrow> string \<Rightarrow> string \<Rightarrow> string \<Rightarrow> 'p \<Rightarrow>
     event_record_error + outbox_message" where
  "encode_to serialize now i event_type dest payload =
     rbind (map_err err_encode (serialize payload)) (\<lambda>bytes.
     create_encoded_bytes now i event_type bytes (Some dest) [])"

definition encode_with_metadata ::
    "('p \<Rightarrow> string + byte list) \<Rightarrow> system_time \<Rightarrow> string \<Rightarrow> string \<Rightarrow> 'p \<Rightarrow> metadata \<Rightarrow>
     event_record_error + outbox_message" where
  "encode_with_metadata serialize now i event_type payload meta =
     rbind (map_err err_encode (serialize payload)) (\<lambda>bytes.
     create_encoded_bytes now i event_type bytes None meta)"

definition encode_for_entity ::
    "('p \<Rightarrow> string + byte list) \<Rightarrow> system_time \<Rightarrow> string \<Rightarrow> string \<Rightarrow> 'p \<Rightarrow> entity \<Rightarrow>
     event_record_error + outbox_message" where
  "encode_for_entity serialize now i event_type payload e =
     rbind (map_err err_encode (serialize payload)) (\<lambda>bytes.
     create_encoded_bytes now i event_type bytes None (en_metadata e))"

definition from_domain_event_occurrence ::
    "wire \<Rightarrow> system_time \<Rightarrow> occurrence \<Rightarrow> capture_error + outbox_message" where
  "from_domain_event_occurrence w now occ =
     rbind (canonical_bytes w occ) (\<lambda>bytes.
     rbind (map_err (\<lambda>e. BodyEncoding (display_event_record_error e))
              (initialize_with_codec now (oc_id occ) (ed_name (oc_descriptor occ)) bytes None
                 (oc_metadata occ)
                 (DOMAIN_EVENT_PAYLOAD_CODEC, DOMAIN_EVENT_PAYLOAD_CODEC_VERSION)
                 outbox_message_new)) (\<lambda>m.
     Inr (m\<lparr>ob_source_aggregate_type := Some (oc_aggregate_type occ),
             ob_source_aggregate_id := Some (oc_aggregate_id occ),
             ob_source_sequence := Some (oc_aggregate_sequence occ)\<rparr>)))"

definition domain_event_occurrence :: "wire \<Rightarrow> outbox_message \<Rightarrow> capture_error + occurrence" where
  "domain_event_occurrence w m =
     (if ob_payload_codec m \<noteq> DOMAIN_EVENT_PAYLOAD_CODEC \<or>
         ob_payload_codec_version m \<noteq> DOMAIN_EVENT_PAYLOAD_CODEC_VERSION
      then Inl (UnsupportedBodyCodec (ob_payload_codec m) (ob_payload_codec_version m))
      else from_canonical_bytes w (ob_payload m))"

definition outbox_decode ::
    "(byte list \<Rightarrow> string + 'v) \<Rightarrow> outbox_message \<Rightarrow> event_record_error + 'v" where
  "outbox_decode deserialize m =
     (if ob_payload_codec m \<noteq> BITCODE_PAYLOAD_CODEC \<or>
         ob_payload_codec_version m \<noteq> BITCODE_PAYLOAD_CODEC_VERSION
      then Inl (err_unsupported_codec (ob_payload_codec m) (ob_payload_codec_version m))
      else map_err (err_decode (ob_event_type m) (ob_payload_codec m) (ob_payload_codec_version m))
             (deserialize (ob_payload m)))"

section \<open>Delivery state machine\<close>

definition has_expired_lease_at :: "system_time \<Rightarrow> outbox_message \<Rightarrow> bool" where
  "has_expired_lease_at now m \<longleftrightarrow>
     ob_status m = InFlight \<and>
     (case ob_leased_until m of None \<Rightarrow> True | Some until \<Rightarrow> until \<le> now)"

definition is_claimable_at :: "system_time \<Rightarrow> outbox_message \<Rightarrow> bool" where
  "is_claimable_at now m \<longleftrightarrow> ob_status m = Pending \<or> has_expired_lease_at now m"

definition is_claimed_by :: "string \<Rightarrow> outbox_message \<Rightarrow> bool" where
  "is_claimed_by worker m \<longleftrightarrow> ob_worker_id m = Some worker"

definition claim ::
    "system_time \<Rightarrow> string \<Rightarrow> system_time \<Rightarrow> outbox_message \<Rightarrow> event_record_error + outbox_message" where
  "claim wall worker until m =
     (if \<not> is_claimable_at wall m
      then Inl (EventRecordError (''outbox message `'' @ ob_id m @ ''` is not claimable''))
      else
      rbind (validate_non_empty ''outbox worker id'' worker) (\<lambda>_.
      Inr (m\<lparr>ob_status := InFlight, ob_attempts := u32_add (ob_attempts m) 1,
              ob_worker_id := Some worker, ob_leased_until := Some until\<rparr>)))"

definition lease_deadline :: "system_time \<Rightarrow> duration \<Rightarrow> event_record_error + system_time" where
  "lease_deadline now lease =
     rbind (ok_or (EventRecordError
                     ''failed to compute outbox lease deadline: timestamp overflow'')
              (time_checked_add now lease)) (\<lambda>until.
     if until < UNIX_EPOCH
     then Inl (EventRecordError ''failed to compute outbox lease deadline before UNIX epoch: second time provided was later than self'')
     else Inr until)"

definition claim_at ::
    "system_time \<Rightarrow> string \<Rightarrow> duration \<Rightarrow> system_time \<Rightarrow> outbox_message \<Rightarrow>
     event_record_error + outbox_message" where
  "claim_at wall worker lease now m =
     rbind (lease_deadline now lease) (\<lambda>until. claim wall worker until m)"

definition claim_for ::
    "system_time \<times> system_time \<Rightarrow> string \<Rightarrow> duration \<Rightarrow> outbox_message \<Rightarrow>
     event_record_error + outbox_message" where
  "claim_for clock worker lease m = claim_at (snd clock) worker lease (fst clock) m"

definition complete :: "outbox_message \<Rightarrow> event_record_error + outbox_message" where
  "complete m =
     (if ob_status m \<noteq> InFlight
      then Inl (EventRecordError (''outbox message `'' @ ob_id m @ ''` is not in flight''))
      else Inr (m\<lparr>ob_status := Published, ob_worker_id := None, ob_leased_until := None\<rparr>))"

definition release :: "string \<Rightarrow> outbox_message \<Rightarrow> event_record_error + outbox_message" where
  "release err m =
     (if ob_status m \<noteq> InFlight
      then Inl (EventRecordError (''outbox message `'' @ ob_id m @ ''` is not in flight''))
      else Inr (m\<lparr>ob_status := Pending, ob_last_error := (if err = [] then None else Some err),
                   ob_worker_id := None, ob_leased_until := None\<rparr>))"

definition fail :: "string \<Rightarrow> outbox_message \<Rightarrow> event_record_error + outbox_message" where
  "fail err m =
     (if ob_status m = Published \<or> ob_status m = Failed
      then Inl (EventRecordError (''outbox message `'' @ ob_id m @ ''` cannot be failed''))
      else Inr (m\<lparr>ob_status := Failed, ob_last_error := (if err = [] then None else Some err),
                   ob_worker_id := None, ob_leased_until := None\<rparr>))"

section \<open>Metadata and source\<close>

definition outbox_set_meta :: "string \<Rightarrow> string \<Rightarrow> outbox_message \<Rightarrow> outbox_message" where
  "outbox_set_meta k v m = m\<lparr>ob_metadata := AList.update k v (ob_metadata m)\<rparr>"

definition outbox_overwrite_causation_id :: "string \<Rightarrow> outbox_message \<Rightarrow> outbox_message" where
  "outbox_overwrite_causation_id cid m = m\<lparr>ob_metadata := stamp_causation cid (ob_metadata m)\<rparr>"

definition outbox_set_trace_context :: "trace_context \<Rightarrow> outbox_message \<Rightarrow> outbox_message" where
  "outbox_set_trace_context tc m = m\<lparr>ob_metadata := inject_map tc (ob_metadata m)\<rparr>"

definition set_source :: "string \<Rightarrow> entity \<Rightarrow> outbox_message \<Rightarrow> outbox_message" where
  "set_source aggregate_type e m =
     m\<lparr>ob_source_aggregate_type := Some aggregate_type,
       ob_source_aggregate_id := Some (en_id e),
       ob_source_sequence := Some (en_version e)\<rparr>"

section \<open>Relational row\<close>

definition OUTBOX_MESSAGES_TABLE :: string where
  "OUTBOX_MESSAGES_TABLE = ''outbox_messages''"

definition ob_column :: "string \<Rightarrow> column_type \<Rightarrow> bool \<Rightarrow> table_column" where
  "ob_column name ty nullable = (table_column_new name name ty)\<lparr>col_nullable := nullable\<rparr>"

definition timestamp_column_with_default :: "string \<Rightarrow> string \<Rightarrow> table_column" where
  "timestamp_column_with_default name dflt =
     (ob_column name TimestampType False)\<lparr>col_has_default := True, col_default := Some dflt\<rparr>"

definition named_index :: "string \<Rightarrow> string list \<Rightarrow> table_index" where
  "named_index name columns = \<lparr>ix_name = Some name, ix_columns = columns, ix_unique = False\<rparr>"

definition outbox_message_schema :: table_schema where
  "outbox_message_schema =
     \<lparr>ts_model_name = ''OutboxMessage'',
      ts_table_name = OUTBOX_MESSAGES_TABLE,
      ts_columns =
        [ob_column ''message_id'' TextType False,
         ob_column ''event_type'' TextType False,
         ob_column ''payload'' BytesType False,
         ob_column ''payload_codec'' TextType False,
         ob_column ''payload_codec_version'' UnsignedIntegerType False,
         ob_column ''destination'' TextType True,
         ob_column ''metadata'' JsonType False,
         ob_column ''status'' TextType False,
         ob_column ''created_at'' TimestampType False,
         ob_column ''next_available_at'' TimestampType False,
         timestamp_column_with_default ''updated_at'' ''CURRENT_TIMESTAMP'',
         ob_column ''claimed_by'' TextType True,
         ob_column ''claimed_until'' TimestampType True,
         ob_column ''attempts'' UnsignedIntegerType False,
         ob_column ''last_error'' TextType True,
         ob_column ''published_at'' TimestampType True,
         ob_column ''failed_at'' TimestampType True,
         ob_column ''source_aggregate_type'' TextType True,
         ob_column ''source_aggregate_id'' TextType True,
         ob_column ''source_sequence'' UnsignedIntegerType True,
         ob_column ''correlation_id'' TextType True,
         ob_column ''causation_id'' TextType True],
      ts_primary_key = [''message_id''],
      ts_version_column = None,
      ts_foreign_keys = [],
      ts_indexes =
        [named_index ''outbox_messages_claimable_idx''
           [''status'', ''next_available_at'', ''claimed_until'', ''created_at''],
         named_index ''outbox_messages_source_idx''
           [''source_aggregate_type'', ''source_aggregate_id'', ''source_sequence''],
         named_index ''outbox_messages_destination_idx'' [''destination'', ''status'']],
      ts_relationships = [],
      ts_kind = OperationalTable\<rparr>"

definition system_time_epoch_secs :: "system_time \<Rightarrow> table_store_error + nat" where
  "system_time_epoch_secs t =
     (if t < UNIX_EPOCH then Inl (Metadata ''second time provided was later than self'')
      else Inr (nat (t div 1000000000)))"

fun optional_str :: "string option \<Rightarrow> row_value" where
  "optional_str None = RNull"
| "optional_str (Some s) = RString s"

fun optional_u64 :: "nat option \<Rightarrow> row_value" where
  "optional_u64 None = RNull"
| "optional_u64 (Some n) = RU64 n"

definition optional_time_epoch_secs :: "system_time option \<Rightarrow> table_store_error + row_value" where
  "optional_time_epoch_secs t =
     (case t of None \<Rightarrow> Inr RNull
      | Some u \<Rightarrow> rbind (system_time_epoch_secs u) (\<lambda>n. Inr (RU64 n)))"

definition status_failed_at :: "system_time \<Rightarrow> outbox_message \<Rightarrow> table_store_error + row_value" where
  "status_failed_at now m =
     (if ob_status m = Failed then rbind (system_time_epoch_secs now) (\<lambda>n. Inr (RU64 n))
      else Inr RNull)"

definition metadata_json :: "metadata \<Rightarrow> json" where
  "metadata_json m = JObject (sort_key fst (map (\<lambda>(k, v). (k, JString v)) m))"

definition outbox_message_row_values ::
    "system_time \<Rightarrow> outbox_message \<Rightarrow> table_store_error + row_values" where
  "outbox_message_row_values now m =
     rbind (system_time_epoch_secs (ob_created_at m)) (\<lambda>created_at.
     rbind (optional_time_epoch_secs (ob_leased_until m)) (\<lambda>claimed_until.
     rbind (status_failed_at now m) (\<lambda>failed_at.
     Inr (bt_extend []
       [(''message_id'', RString (ob_id m)),
        (''event_type'', RString (ob_event_type m)),
        (''payload'', RBytes (ob_payload m)),
        (''payload_codec'', RString (ob_payload_codec m)),
        (''payload_codec_version'', RU64 (ob_payload_codec_version m)),
        (''destination'', optional_str (ob_destination m)),
        (''metadata'', RJson (metadata_json (ob_metadata m))),
        (''status'', RString (outbox_status_as_str (ob_status m))),
        (''created_at'', RU64 created_at),
        (''next_available_at'', RU64 created_at),
        (''claimed_by'', optional_str (ob_worker_id m)),
        (''claimed_until'', claimed_until),
        (''attempts'', RU64 (ob_attempts m)),
        (''last_error'', optional_str (ob_last_error m)),
        (''published_at'', RNull),
        (''failed_at'', failed_at),
        (''source_aggregate_type'', optional_str (ob_source_aggregate_type m)),
        (''source_aggregate_id'', optional_str (ob_source_aggregate_id m)),
        (''source_sequence'', optional_u64 (ob_source_sequence m)),
        (''correlation_id'', optional_str (map_of (ob_metadata m) ''correlation_id'')),
        (''causation_id'', optional_str (map_of (ob_metadata m) ''causation_id''))]))))"

definition outbox_message_key :: "string \<Rightarrow> row_key" where
  "outbox_message_key i = [(''message_id'', RString i)]"

definition outbox_message_insert_plan ::
    "system_time \<Rightarrow> outbox_message \<Rightarrow> table_store_error + table_write_plan" where
  "outbox_message_insert_plan now m =
     rbind (outbox_message_row_values now m) (\<lambda>values.
     Inr [UpsertRow \<lparr>rm_schema = outbox_message_schema, rm_key = outbox_message_key (ob_id m),
                     rm_values = values, rm_expected_version = NotExists,
                     rm_mode = InsertMode\<rparr>])"

definition validate_outbox_message_table_write ::
    "system_time \<Rightarrow> outbox_message \<Rightarrow> table_store_error + unit" where
  "validate_outbox_message_table_write now m =
     rbind (outbox_message_insert_plan now m) validate_plan"

section \<open>Lemmas\<close>

lemma outbox_status_round_trip: "outbox_status_from_str (outbox_status_as_str s) = Some s"
  by (cases s) (simp_all add: outbox_status_from_str_def)

lemma outbox_schema_valid: "validate_schema outbox_message_schema = Inr ()"
  by code_simp

text \<open>
  The row of a message always fits its table, so the write is refused exactly when a
  timestamp lies before the epoch.
\<close>

definition ob_columns ::
    "outbox_message \<Rightarrow> nat \<Rightarrow> row_value \<Rightarrow> row_value \<Rightarrow> row_values" where
  "ob_columns m created_at claimed_until failed_at =
     [(''message_id'', RString (ob_id m)),
      (''event_type'', RString (ob_event_type m)),
      (''payload'', RBytes (ob_payload m)),
      (''payload_codec'', RString (ob_payload_codec m)),
      (''payload_codec_version'', RU64 (ob_payload_codec_version m)),
      (''destination'', optional_str (ob_destination m)),
      (''metadata'', RJson (metadata_json (ob_metadata m))),
      (''status'', RString (outbox_status_as_str (ob_status m))),
      (''created_at'', RU64 created_at),
      (''next_available_at'', RU64 created_at),
      (''claimed_by'', optional_str (ob_worker_id m)),
      (''claimed_until'', claimed_until),
      (''attempts'', RU64 (ob_attempts m)),
      (''last_error'', optional_str (ob_last_error m)),
      (''published_at'', RNull),
      (''failed_at'', failed_at),
      (''source_aggregate_type'', optional_str (ob_source_aggregate_type m)),
      (''source_aggregate_id'', optional_str (ob_source_aggregate_id m)),
      (''source_sequence'', optional_u64 (ob_source_sequence m)),
      (''correlation_id'', optional_str (map_of (ob_metadata m) ''correlation_id'')),
      (''causation_id'', optional_str (map_of (ob_metadata m) ''causation_id''))]"

lemma ob_columns_valid:
  "\<forall>cv \<in> set (ob_columns m c u f). validate_row_value outbox_message_schema cv = Inr ()"
  by (simp add: ob_columns_def validate_row_value_ok outbox_message_schema_def ob_column_def
      timestamp_column_with_default_def table_column_new_def)

lemma ob_columns_complete:
  "\<forall>d \<in> set (ts_columns outbox_message_schema).
     col_nullable d \<or> col_has_default d \<or> map_of (rev (ob_columns m c u f)) (col_column_name d) \<noteq> None"
  by (simp add: ob_columns_def outbox_message_schema_def ob_column_def
      timestamp_column_with_default_def table_column_new_def)

lemma outbox_row_values_eq:
  "outbox_message_row_values now m =
     rbind (system_time_epoch_secs (ob_created_at m)) (\<lambda>created_at.
     rbind (optional_time_epoch_secs (ob_leased_until m)) (\<lambda>claimed_until.
     rbind (status_failed_at now m) (\<lambda>failed_at.
     Inr (bt_extend [] (ob_columns m created_at claimed_until failed_at)))))"
  by (simp add: outbox_message_row_values_def ob_columns_def)

lemma outbox_row_valid:
  "validate_row_values outbox_message_schema (bt_extend [] (ob_columns m c u f)) True = Inr ()"
proof -
  have "col_delegated_from d = None" if "d \<in> set (ts_columns outbox_message_schema)" for d
    using that by (auto simp: outbox_message_schema_def ob_column_def
        timestamp_column_with_default_def table_column_new_def)
  moreover have "\<forall>cv \<in> set (bt_extend [] (ob_columns m c u f)).
      validate_row_value outbox_message_schema cv = Inr ()"
    using set_bt_extend [of "[]" "ob_columns m c u f"] ob_columns_valid by fastforce
  ultimately show ?thesis
    using ob_columns_complete [of m c u f] by (simp add: res_simps map_of_bt_extend)
qed

lemma outbox_key_valid: "validate_key outbox_message_schema (outbox_message_key i) = Inr ()"
  by (simp add: validate_key_def outbox_message_key_def outbox_message_schema_def)

lemma outbox_write_valid:
  "outbox_message_row_values now m = Inr row \<Longrightarrow>
   validate_outbox_message_table_write now m = Inr ()"
  by (auto simp: outbox_row_values_eq validate_outbox_message_table_write_def
      outbox_message_insert_plan_def validate_plan_def validate_for_def default_capabilities_def
      validate_row_mutation_def outbox_schema_valid outbox_key_valid outbox_row_valid
      validate_expected_version_def res_simps)

lemma validate_outbox_write_iff:
  "validate_outbox_message_table_write now m = Inr u \<longleftrightarrow>
     UNIX_EPOCH \<le> ob_created_at m \<and>
     (\<forall>until. ob_leased_until m = Some until \<longrightarrow> UNIX_EPOCH \<le> until) \<and>
     (ob_status m = Failed \<longrightarrow> UNIX_EPOCH \<le> now)"
proof -
  have "(\<exists>row. outbox_message_row_values now m = Inr row) \<longleftrightarrow>
     UNIX_EPOCH \<le> ob_created_at m \<and>
     (\<forall>until. ob_leased_until m = Some until \<longrightarrow> UNIX_EPOCH \<le> until) \<and>
     (ob_status m = Failed \<longrightarrow> UNIX_EPOCH \<le> now)"
    by (auto simp: outbox_row_values_eq res_simps system_time_epoch_secs_def
        optional_time_epoch_secs_def status_failed_at_def split: if_splits option.splits)
  moreover have "validate_outbox_message_table_write now m = Inr u \<longleftrightarrow>
      (\<exists>row. outbox_message_row_values now m = Inr row)"
    using outbox_write_valid [of now m]
    by (auto simp: validate_outbox_message_table_write_def outbox_message_insert_plan_def res_simps)
  ultimately show ?thesis by simp
qed

text \<open>The delivery state: a worker and a lease are held exactly while a message is in flight.\<close>

definition delivery_inv :: "outbox_message \<Rightarrow> bool" where
  "delivery_inv m \<longleftrightarrow>
     (ob_worker_id m \<noteq> None \<longleftrightarrow> ob_status m = InFlight) \<and>
     (ob_leased_until m \<noteq> None \<longleftrightarrow> ob_status m = InFlight)"

inductive outbox_step :: "outbox_message \<Rightarrow> outbox_message \<Rightarrow> bool" where
  claim: "claim wall worker until m = Inr m' \<Longrightarrow> outbox_step m m'"
| claim_at: "claim_at wall worker lease now m = Inr m' \<Longrightarrow> outbox_step m m'"
| complete: "complete m = Inr m' \<Longrightarrow> outbox_step m m'"
| release: "release err m = Inr m' \<Longrightarrow> outbox_step m m'"
| fail: "fail err m = Inr m' \<Longrightarrow> outbox_step m m'"
| set_meta: "outbox_step m (outbox_set_meta k v m)"
| stamp: "outbox_step m (outbox_overwrite_causation_id cid m)"
| trace: "outbox_step m (outbox_set_trace_context tc m)"
| source: "outbox_step m (set_source aty e m)"

inductive outbox_reach :: "outbox_message \<Rightarrow> bool" where
  created: "initialize_with_codec now i event_type payload dest meta codec m = Inr m' \<Longrightarrow>
    outbox_reach m'"
| step: "outbox_reach m \<Longrightarrow> outbox_step m m' \<Longrightarrow> outbox_reach m'"

lemmas outbox_setters =
  outbox_set_meta_def outbox_overwrite_causation_id_def outbox_set_trace_context_def set_source_def

lemma claim_ok_iff [res_simps]:
  "claim wall worker until m = Inr m' \<longleftrightarrow>
     is_claimable_at wall m \<and> \<not> blank worker \<and>
     m' = m\<lparr>ob_status := InFlight, ob_attempts := u32_add (ob_attempts m) 1,
            ob_worker_id := Some worker, ob_leased_until := Some until\<rparr>"
  by (auto simp: claim_def validate_non_empty_def)

lemma outbox_step_inv: "outbox_step m m' \<Longrightarrow> delivery_inv m \<Longrightarrow> delivery_inv m'"
  by (induction rule: outbox_step.induct)
     (auto simp: delivery_inv_def res_simps claim_at_def complete_def release_def fail_def
        outbox_setters split: if_splits)

lemma outbox_reach_inv: "outbox_reach m \<Longrightarrow> delivery_inv m"
proof (induction rule: outbox_reach.induct)
  case (created now i event_type payload dest meta codec m m')
  then show ?case
    by (auto simp: initialize_with_codec_def res_simps delivery_inv_def split: if_splits)
qed (rule outbox_step_inv)

lemma outbox_step_terminal:
  "outbox_step m m' \<Longrightarrow> ob_status m = Published \<or> ob_status m = Failed \<Longrightarrow>
   ob_status m' = ob_status m \<and> ob_attempts m' = ob_attempts m \<and> ob_last_error m' = ob_last_error m"
  by (induction rule: outbox_step.induct)
     (auto simp: res_simps claim_at_def complete_def release_def fail_def is_claimable_at_def
        has_expired_lease_at_def outbox_setters split: if_splits)

section \<open>Properties\<close>



text \<open>
  C29: A live lease is exclusive: after a successful claim until some deadline, no worker can
  claim the message again at any clock reading before that deadline.
\<close>

theorem claim_is_exclusive:
  assumes "claim wall worker until m = Inr m'" and "later < until"
  shows "\<exists>err. claim later other until' m' = Inl err"
proof -
  have "\<not> is_claimable_at later m'"
    using assms by (auto simp: claim_ok_iff is_claimable_at_def has_expired_lease_at_def)
  then show ?thesis by (simp add: claim_def)
qed

theorem claim_is_exclusive_witness:
  "\<exists>m' err. claim 10 ''w1'' 100 outbox_message_new = Inr m' \<and> claim 99 ''w2'' 200 m' = Inl err"
proof -
  have "\<not> isl (claim 10 ''w1'' 100 outbox_message_new)"
    by code_simp
  then obtain m' where m': "claim 10 ''w1'' 100 outbox_message_new = Inr m'"
    using not_isl_projr by blast
  then show ?thesis
    using claim_is_exclusive [OF m', of 99 "''w2''" 200] by auto
qed


end
