(* ===== verification/Read_Model_Store.thy ===== *)
theory Read_Model_Store
  imports Table_Model
begin

text \<open>
  Application of write plans to relational rows in memory
  (\<^verbatim>\<open>src/src/read_model/in_memory.rs\<close>): optimistic row versions, inserts, upserts, patches that
  cannot change a primary key, deletes, and the atomic commit of a plan. The rows of all
  tables live in one map from storage keys; the causal-table marker is a set of table names.
  Loading graphs with includes is not modelled.
\<close>

section \<open>State\<close>

record stored_row =
  st_values :: row_values
  st_version :: nat

type_synonym row_store = "(string, stored_row) hashmap"

record read_model_store =
  rs_rows :: row_store
  rs_causal_tables :: "string set"

definition INITIAL_MODEL_VERSION :: nat where
  "INITIAL_MODEL_VERSION = 1"

section \<open>Operations\<close>

definition next_model_version :: "string \<Rightarrow> nat option \<Rightarrow> table_store_error + nat" where
  "next_model_version key current_version =
     (case current_version of
        Some version \<Rightarrow>
          ok_or (TableStorage (''read model version overflow for '' @ key))
            (u64_checked_add version 1)
      | None \<Rightarrow> Inr INITIAL_MODEL_VERSION)"

definition concurrency_conflict ::
    "table_fmt \<Rightarrow> table_schema \<Rightarrow> row_key \<Rightarrow> nat \<Rightarrow> nat \<Rightarrow> table_store_error" where
  "concurrency_conflict fmt s key expected actual =
     ConcurrencyConflict (ts_table_name s) (key_fingerprint fmt key) expected actual"

definition validate_row_expected_version ::
    "table_fmt \<Rightarrow> table_schema \<Rightarrow> row_key \<Rightarrow> expected_version \<Rightarrow> nat option \<Rightarrow>
     table_store_error + unit" where
  "validate_row_expected_version fmt s key expected current =
     (case (expected, current) of
        (Any, _) \<Rightarrow> Inr ()
      | (Exact v, Some actual) \<Rightarrow>
          if v = actual then Inr () else Inl (concurrency_conflict fmt s key v actual)
      | (Exact v, None) \<Rightarrow> Inl (TableNotFound (ts_table_name s) (key_fingerprint fmt key))
      | (NotExists, None) \<Rightarrow> Inr ()
      | (NotExists, Some actual) \<Rightarrow> Inl (concurrency_conflict fmt s key 0 actual))"

definition patch_column ::
    "table_schema \<Rightarrow> row_key \<Rightarrow> row_values \<Rightarrow> string \<times> row_value \<Rightarrow> table_store_error + row_values" where
  "patch_column s key values cv =
     rbind (if fst cv \<in> set (ts_primary_key s) then
              rbind (ok_or (metadata_error [''read model `'', ts_model_name s,
                        ''` row key is missing primary-key column `'', fst cv, ''`''])
                       (map_of key (fst cv))) (\<lambda>key_value.
              ensure (row_value_eq key_value (snd cv))
                (metadata_error [''read model `'', ts_model_name s,
                   ''` patch cannot change primary-key column `'', fst cv, ''`'']))
            else Inr ())
       (\<lambda>_. Inr (bt_insert (fst cv) (snd cv) values))"

definition apply_patch_values_preserving_key ::
    "table_schema \<Rightarrow> row_key \<Rightarrow> row_values \<Rightarrow> row_values \<Rightarrow> table_store_error + row_values" where
  "apply_patch_values_preserving_key s key values patch = try_fold (patch_column s key) values patch"

definition row_values_from_key_and_patch ::
    "table_schema \<Rightarrow> row_key \<Rightarrow> row_values \<Rightarrow> table_store_error + row_values" where
  "row_values_from_key_and_patch s key patch =
     rbind (apply_patch_values_preserving_key s key
              (bt_extend [] key) patch) (\<lambda>values.
     rbind (validate_row_values s values True) (\<lambda>_. Inr values))"

fun apply_mutation :: "table_fmt \<Rightarrow> row_store \<Rightarrow> table_mutation \<Rightarrow> table_store_error + row_store" where
  "apply_mutation fmt rows (UpsertRow m) =
     (let key = relational_storage_key fmt (ts_table_name (rm_schema m)) (rm_key m);
          current_version = map_option st_version (map_of rows key) in
      rbind (validate_row_expected_version fmt (rm_schema m) (rm_key m)
               (rm_expected_version m) current_version) (\<lambda>_.
      if rm_mode m = InsertMode \<and> current_version \<noteq> None
      then Inl (concurrency_conflict fmt (rm_schema m) (rm_key m) 0 (the current_version))
      else
      rbind (next_model_version key current_version) (\<lambda>new_version.
      Inr (AList.update key \<lparr>st_values = rm_values m, st_version = new_version\<rparr> rows))))"
| "apply_mutation fmt rows (PatchRow m) =
     (let key = relational_storage_key fmt (ts_table_name (pm_schema m)) (pm_key m);
          current_version = map_option st_version (map_of rows key) in
      rbind (validate_row_expected_version fmt (pm_schema m) (pm_key m)
               (pm_expected_version m) current_version) (\<lambda>_.
      case map_of rows key of
        Some row \<Rightarrow>
          rbind (apply_patch_values_preserving_key (pm_schema m) (pm_key m) (st_values row)
                   (pm_patch m)) (\<lambda>values.
          rbind (next_model_version key current_version) (\<lambda>new_version.
          Inr (AList.update key \<lparr>st_values = values, st_version = new_version\<rparr> rows)))
      | None \<Rightarrow>
          if pm_mode m = InsertMissing then
            rbind (row_values_from_key_and_patch (pm_schema m) (pm_key m) (pm_patch m)) (\<lambda>values.
            Inr (AList.update key \<lparr>st_values = values, st_version = INITIAL_MODEL_VERSION\<rparr> rows))
          else Inl (TableNotFound (ts_table_name (pm_schema m)) (key_fingerprint fmt (pm_key m)))))"
| "apply_mutation fmt rows (DeleteRow m) =
     (let key = relational_storage_key fmt (ts_table_name (dm_schema m)) (dm_key m);
          current_version = map_option st_version (map_of rows key) in
      rbind (validate_row_expected_version fmt (dm_schema m) (dm_key m)
               (dm_expected_version m) current_version) (\<lambda>_.
      Inr (AList.delete key rows)))"

definition apply_read_model_write_plan ::
    "table_fmt \<Rightarrow> table_write_plan \<Rightarrow> row_store \<Rightarrow> table_store_error + row_store" where
  "apply_read_model_write_plan fmt plan staged_rows =
     rbind (validate_for default_capabilities plan) (\<lambda>_.
     try_fold (apply_mutation fmt) staged_rows plan)"

definition commit_write_plan ::
    "table_fmt \<Rightarrow> table_write_plan \<Rightarrow> read_model_store \<Rightarrow>
     read_model_store \<times> (table_store_error + unit)" where
  "commit_write_plan fmt plan store =
     (case find (\<lambda>table. table \<in> rs_causal_tables store) (map mutation_table_name plan) of
        Some table \<Rightarrow> (store, Inl (TableCausalWriteRequired table))
      | None \<Rightarrow>
          (case apply_read_model_write_plan fmt plan (rs_rows store) of
             Inl e \<Rightarrow> (store, Inl e)
           | Inr rows \<Rightarrow> (store\<lparr>rs_rows := rows\<rparr>, Inr ())))"

section \<open>Lemmas\<close>

lemma lock_key_eq:
  "lock_key fmt m = relational_storage_key fmt (mutation_table_name m) (mutation_key m)"
  by (simp add: lock_key_def relational_storage_key_def)

text \<open>
  What a mutation does to the one row it addresses: from the current row, if any, to the new
  row, if any.
\<close>

fun mutate_row ::
    "table_fmt \<Rightarrow> table_mutation \<Rightarrow> stored_row option \<Rightarrow> table_store_error + stored_row option" where
  "mutate_row fmt (UpsertRow m) cur =
     rbind (validate_row_expected_version fmt (rm_schema m) (rm_key m)
              (rm_expected_version m) (map_option st_version cur)) (\<lambda>_.
     if rm_mode m = InsertMode \<and> cur \<noteq> None
     then Inl (concurrency_conflict fmt (rm_schema m) (rm_key m) 0 (st_version (the cur)))
     else
     rbind (next_model_version (lock_key fmt (UpsertRow m)) (map_option st_version cur)) (\<lambda>v.
     Inr (Some \<lparr>st_values = rm_values m, st_version = v\<rparr>)))"
| "mutate_row fmt (PatchRow m) cur =
     rbind (validate_row_expected_version fmt (pm_schema m) (pm_key m)
              (pm_expected_version m) (map_option st_version cur)) (\<lambda>_.
     case cur of
       Some row \<Rightarrow>
         rbind (apply_patch_values_preserving_key (pm_schema m) (pm_key m) (st_values row)
                  (pm_patch m)) (\<lambda>values.
         rbind (next_model_version (lock_key fmt (PatchRow m)) (map_option st_version cur)) (\<lambda>v.
         Inr (Some \<lparr>st_values = values, st_version = v\<rparr>)))
     | None \<Rightarrow>
         if pm_mode m = InsertMissing then
           rbind (row_values_from_key_and_patch (pm_schema m) (pm_key m) (pm_patch m)) (\<lambda>values.
           Inr (Some \<lparr>st_values = values, st_version = INITIAL_MODEL_VERSION\<rparr>))
         else Inl (TableNotFound (ts_table_name (pm_schema m)) (key_fingerprint fmt (pm_key m))))"
| "mutate_row fmt (DeleteRow m) cur =
     rbind (validate_row_expected_version fmt (dm_schema m) (dm_key m)
              (dm_expected_version m) (map_option st_version cur)) (\<lambda>_. Inr None)"

definition put_row :: "string \<Rightarrow> stored_row option \<Rightarrow> row_store \<Rightarrow> row_store" where
  "put_row key row rows =
     (case row of None \<Rightarrow> AList.delete key rows | Some r \<Rightarrow> AList.update key r rows)"

lemma map_of_put_row [simp]: "map_of (put_row key row rows) = (map_of rows)(key := row)"
  by (simp add: put_row_def split: option.splits)

lemma apply_mutation_row:
  "apply_mutation fmt rows m =
     rbind (mutate_row fmt m (map_of rows (lock_key fmt m)))
       (\<lambda>row. Inr (put_row (lock_key fmt m) row rows))"
proof (cases m)
  case (UpsertRow u)
  then show ?thesis
    by (auto simp: lock_key_eq mutation_table_name_def Let_def rbind_assoc put_row_def
        option.map_sel intro!: arg_cong2 [where f = rbind])
next
  case (PatchRow p)
  then show ?thesis
    by (auto simp: lock_key_eq mutation_table_name_def Let_def rbind_assoc put_row_def
        intro!: arg_cong2 [where f = rbind] split: option.splits)
next
  case (DeleteRow d)
  then show ?thesis
    by (simp add: lock_key_eq mutation_table_name_def Let_def rbind_assoc put_row_def)
qed

text \<open>Every mutation reads and writes the row under its own lock key only.\<close>

lemma apply_mutation_frame:
  "apply_mutation fmt rows m = Inr rows' \<Longrightarrow> k \<noteq> lock_key fmt m \<Longrightarrow> map_of rows' k = map_of rows k"
  by (auto simp: apply_mutation_row res_simps)

lemma apply_plan_frame:
  "try_fold (apply_mutation fmt) rows plan = Inr rows' \<Longrightarrow> k \<notin> lock_key fmt ` set plan \<Longrightarrow>
   map_of rows' k = map_of rows k"
  by (induction plan arbitrary: rows) (auto simp: res_simps dest: apply_mutation_frame)

text \<open>
  Staging a part of the rows that contains every touched key gives the same outcome as
  staging all of them.
\<close>

lemma apply_plan_restricted:
  assumes "\<forall>k \<in> K. map_of small k = map_of big k" and "lock_key fmt ` set plan \<subseteq> K"
  shows "map_sum id (\<lambda>r k. if k \<in> K then map_of r k else None)
           (try_fold (apply_mutation fmt) small plan) =
         map_sum id (\<lambda>r k. if k \<in> K then map_of r k else None)
           (try_fold (apply_mutation fmt) big plan)"
  using assms
proof (induction plan arbitrary: small big)
  case (Cons m plan)
  show ?case
  proof (cases "mutate_row fmt m (map_of big (lock_key fmt m))")
    case (Inr row)
    then show ?thesis
      using Cons by (simp add: apply_mutation_row Cons.IH)
  qed (use Cons.prems in \<open>simp add: apply_mutation_row\<close>)
qed (auto simp: fun_eq_iff)

lemma patch_keeps_key:
  assumes "apply_patch_values_preserving_key s key vals patch = Inr vals'"
    and "c \<in> set (ts_primary_key s)" "map_of key c = Some kv"
    and "\<And>v. map_of vals c = Some v \<Longrightarrow> row_value_eq kv v"
  shows "map_of vals' c = Some v \<Longrightarrow> row_value_eq kv v"
  using assms unfolding apply_patch_values_preserving_key_def
proof (induction patch arbitrary: vals)
  case (Cons cv patch)
  then obtain mid where mid: "patch_column s key vals cv = Inr mid"
    and rest: "try_fold (patch_column s key) mid patch = Inr vals'"
    by (auto simp: res_simps)
  have "row_value_eq kv x" if "map_of mid c = Some x" for x
    using mid that Cons.prems(3-5) by (auto simp: patch_column_def res_simps split: if_splits)
  with Cons.IH [OF Cons.prems(1) rest Cons.prems(3,4)] show ?case by blast
qed auto

fun mutation_expected :: "table_mutation \<Rightarrow> expected_version" where
  "mutation_expected (UpsertRow m) = rm_expected_version m"
| "mutation_expected (PatchRow m) = pm_expected_version m"
| "mutation_expected (DeleteRow m) = dm_expected_version m"

lemma validate_row_expected_version_ok [res_simps]:
  "validate_row_expected_version fmt s key ev cur = Inr u \<longleftrightarrow>
     (case ev of Any \<Rightarrow> True | Exact v \<Rightarrow> cur = Some v | NotExists \<Rightarrow> cur = None)"
  by (auto simp: validate_row_expected_version_def split: expected_version.splits option.splits)

lemma next_model_version_ok [res_simps]:
  "next_model_version key cur = Inr v \<longleftrightarrow>
     (case cur of None \<Rightarrow> v = 1 | Some c \<Rightarrow> v = c + 1 \<and> c + 1 \<le> u64_max)"
  by (auto simp: next_model_version_def INITIAL_MODEL_VERSION_def res_simps split: option.splits)

lemma mutate_row_version:
  assumes "mutate_row fmt m cur = Inr (Some row)"
  shows "st_version row = (case cur of None \<Rightarrow> 1 | Some r \<Rightarrow> st_version r + 1)"
  using assms
  by (cases m)
     (auto simp: res_simps INITIAL_MODEL_VERSION_def split: if_splits option.splits)

lemma mutate_row_guard:
  assumes "mutate_row fmt m cur = Inr row"
  shows "case mutation_expected m of Any \<Rightarrow> True | Exact v \<Rightarrow> map_option st_version cur = Some v
           | NotExists \<Rightarrow> cur = None"
  using assms by (cases m) (auto simp: res_simps split: expected_version.splits)

section \<open>Properties\<close>

text \<open>
  C33: Optimistic row versions: a mutation that goes through had its expectation met (the exact
  version, or no row), and the row it leaves behind carries version one if it is new and the
  previous version plus one otherwise. A version never wraps.
\<close>

theorem row_version_step:
  assumes "apply_mutation fmt rows m = Inr rows'"
  shows "(case mutation_expected m of
            Any \<Rightarrow> True
          | Exact v \<Rightarrow> map_option st_version (map_of rows (lock_key fmt m)) = Some v
          | NotExists \<Rightarrow> map_of rows (lock_key fmt m) = None) \<and>
         (\<forall>row. map_of rows' (lock_key fmt m) = Some row \<longrightarrow>
            st_version row =
              (case map_of rows (lock_key fmt m) of None \<Rightarrow> 1 | Some r \<Rightarrow> st_version r + 1))"
proof -
  obtain row where row: "mutate_row fmt m (map_of rows (lock_key fmt m)) = Inr row"
    and rows': "rows' = put_row (lock_key fmt m) row rows"
    using assms by (auto simp: apply_mutation_row res_simps)
  have "st_version r = (case map_of rows (lock_key fmt m) of None \<Rightarrow> 1 | Some r \<Rightarrow> st_version r + 1)"
    if "row = Some r" for r
    using mutate_row_version row that by blast
  then show ?thesis
    using mutate_row_guard [OF row] rows' by simp
qed

definition sample_schema :: table_schema where
  "sample_schema =
     \<lparr>ts_model_name = ''Todo'', ts_table_name = ''todos'',
      ts_columns = [(table_column_new ''id'' ''id'' TextType)\<lparr>col_primary_key := True\<rparr>,
                    (table_column_new ''t'' ''t'' TextType)\<lparr>col_nullable := True\<rparr>],
      ts_primary_key = [''id''], ts_version_column = None, ts_foreign_keys = [],
      ts_indexes = [], ts_relationships = [], ts_kind = ReadModelTable\<rparr>"

definition sample_fmt :: table_fmt where
  "sample_fmt = \<lparr>tf_f64_debug = (\<lambda>_. []), tf_json_string = (\<lambda>_. [])\<rparr>"

definition sample_upsert :: "expected_version \<Rightarrow> table_mutation" where
  "sample_upsert ev =
     UpsertRow \<lparr>rm_schema = sample_schema, rm_key = [(''id'', RString ''7'')],
                rm_values = [(''id'', RString ''7''), (''t'', RNull)],
                rm_expected_version = ev, rm_mode = UpsertMode\<rparr>"

lemma sample_upsert_applies:
  "apply_mutation sample_fmt
     [(lock_key sample_fmt (sample_upsert (Exact 4)), \<lparr>st_values = [], st_version = 4\<rparr>)]
     (sample_upsert (Exact 4)) =
   Inr [(lock_key sample_fmt (sample_upsert (Exact 4)),
         \<lparr>st_values = [(''id'', RString ''7''), (''t'', RNull)], st_version = 5\<rparr>)]"
  by code_simp

theorem row_version_step_witness:
  "map_option st_version (map_of
     [(lock_key sample_fmt (sample_upsert (Exact 4)), \<lparr>st_values = [], st_version = 4\<rparr>)]
     (lock_key sample_fmt (sample_upsert (Exact 4)))) = Some 4"
  using row_version_step [OF sample_upsert_applies] by (simp add: sample_upsert_def)



end
