(* ===== verification/Stream_Identity.thy ===== *)
theory Stream_Identity
  imports Repo_Errors
begin

text \<open>
  Stream identities and their storage keys (\<^verbatim>\<open>src/src/repository/identity.rs\<close>) and consumer
  inbox receipts (\<^verbatim>\<open>src/src/repository/inbox.rs\<close>).
\<close>

section \<open>Identities\<close>

record stream_identity =
  si_aggregate_type :: string
  si_aggregate_id :: string

definition STORAGE_KEY_DELIMITER :: char where
  "STORAGE_KEY_DELIMITER = CHR 0x1F"

definition stream_identity_new :: "string \<Rightarrow> string \<Rightarrow> repository_error + stream_identity" where
  "stream_identity_new aggregate_type aggregate_id =
     (if blank aggregate_type
      then Inl (InvalidStreamIdentity aggregate_type aggregate_id
                  ''aggregate type must not be empty'')
      else if blank aggregate_id
      then Inl (InvalidStreamIdentity aggregate_type aggregate_id
                  ''aggregate id must not be empty'')
      else if STORAGE_KEY_DELIMITER \<in> set aggregate_type
      then Inl (InvalidStreamIdentity aggregate_type aggregate_id
                  ''aggregate type contains reserved delimiter'')
      else if STORAGE_KEY_DELIMITER \<in> set aggregate_id
      then Inl (InvalidStreamIdentity aggregate_type aggregate_id
                  ''aggregate id contains reserved delimiter'')
      else Inr \<lparr>si_aggregate_type = aggregate_type, si_aggregate_id = aggregate_id\<rparr>)"

definition storage_key :: "stream_identity \<Rightarrow> string" where
  "storage_key i = si_aggregate_type i @ [STORAGE_KEY_DELIMITER] @ si_aggregate_id i"

definition display_identity :: "stream_identity \<Rightarrow> string" where
  "display_identity i = si_aggregate_type i @ '':'' @ si_aggregate_id i"

section \<open>Inbox receipts\<close>

record inbox_receipt =
  ir_consumer :: string
  ir_message_id :: string
  ir_processed_at :: system_time

datatype inbox_outcome = Processed | Duplicate

definition inbox_receipt_new :: "system_time \<Rightarrow> string \<Rightarrow> string \<Rightarrow> inbox_receipt" where
  "inbox_receipt_new now consumer message_id =
     \<lparr>ir_consumer = consumer, ir_message_id = message_id, ir_processed_at = now\<rparr>"

definition receipt_key :: "inbox_receipt \<Rightarrow> string \<times> string" where
  "receipt_key r = (ir_consumer r, ir_message_id r)"

definition validate_receipt :: "inbox_receipt \<Rightarrow> repository_error + unit" where
  "validate_receipt r =
     (if ir_consumer r = [] \<or> ir_message_id r = []
      then Inl (InvalidInboxReceipt (ir_consumer r) (ir_message_id r)) else Inr ())"

section \<open>Lemmas\<close>

definition identity_ok :: "stream_identity \<Rightarrow> bool" where
  "identity_ok i \<longleftrightarrow>
     \<not> blank (si_aggregate_type i) \<and> \<not> blank (si_aggregate_id i) \<and>
     STORAGE_KEY_DELIMITER \<notin> set (si_aggregate_type i) \<and>
     STORAGE_KEY_DELIMITER \<notin> set (si_aggregate_id i)"

lemma stream_identity_new_Inr [res_simps]:
  "stream_identity_new aty aid = Inr i \<longleftrightarrow>
     i = \<lparr>si_aggregate_type = aty, si_aggregate_id = aid\<rparr> \<and> identity_ok i"
  by (auto simp: stream_identity_new_def identity_ok_def)

lemma storage_key_inj:
  assumes "identity_ok i" "identity_ok j" "storage_key i = storage_key j"
  shows "i = j"
  using assms delimited_split [of "si_aggregate_type i" STORAGE_KEY_DELIMITER "si_aggregate_id i"
      "si_aggregate_type j" "si_aggregate_id j"]
  by (simp add: storage_key_def identity_ok_def)

lemma storage_key_eq_iff:
  "identity_ok i \<Longrightarrow> identity_ok j \<Longrightarrow> storage_key i = storage_key j \<longleftrightarrow> i = j"
  using storage_key_inj by blast

section \<open>Properties\<close>

text \<open>
  C34: Distinct streams never share a storage key: identities built by the validating
  constructor have equal storage keys only if aggregate type and aggregate id both agree.
\<close>

theorem storage_key_injective:
  assumes "stream_identity_new t1 i1 = Inr a" and "stream_identity_new t2 i2 = Inr b"
  shows "storage_key a = storage_key b \<longleftrightarrow> t1 = t2 \<and> i1 = i2"
  using assms storage_key_inj [of a b] by (auto simp: res_simps)

theorem storage_key_injective_witness:
  "storage_key \<lparr>si_aggregate_type = ''order'', si_aggregate_id = ''1''\<rparr>
     \<noteq> storage_key \<lparr>si_aggregate_type = ''order1'', si_aggregate_id = ''1''\<rparr>"
proof -
  have "stream_identity_new ''order'' ''1''
          = Inr \<lparr>si_aggregate_type = ''order'', si_aggregate_id = ''1''\<rparr>"
    and "stream_identity_new ''order1'' ''1''
          = Inr \<lparr>si_aggregate_type = ''order1'', si_aggregate_id = ''1''\<rparr>"
    by code_simp+
  from storage_key_injective [OF this] show ?thesis by simp
qed

end
