(* ===== verification/Snapshot_Record.thy ===== *)
theory Snapshot_Record
  imports Stream_Identity
begin

text \<open>
  Snapshot cache records and their validation (\<^verbatim>\<open>src/src/snapshot/store.rs\<close>), and the in-memory
  snapshot store (\<^verbatim>\<open>src/src/snapshot/in_memory.rs\<close>).
\<close>

section \<open>Records\<close>

record snapshot_record =
  sr_aggregate_type :: string
  sr_aggregate_id :: string
  sr_version :: nat
  sr_snapshot_version :: nat
  sr_payload_codec :: string
  sr_payload_codec_version :: nat
  sr_payload :: "byte list"
  sr_metadata :: metadata
  sr_recorded_at :: system_time

definition snapshot_record_new ::
    "system_time \<Rightarrow> string \<Rightarrow> string \<Rightarrow> nat \<Rightarrow> nat \<Rightarrow> byte list \<Rightarrow> snapshot_record" where
  "snapshot_record_new now aggregate_type aggregate_id ver snapshot_version payload =
     \<lparr>sr_aggregate_type = aggregate_type, sr_aggregate_id = aggregate_id,
      sr_version = ver, sr_snapshot_version = snapshot_version,
      sr_payload_codec = BITCODE_PAYLOAD_CODEC,
      sr_payload_codec_version = BITCODE_PAYLOAD_CODEC_VERSION,
      sr_payload = payload, sr_metadata = [], sr_recorded_at = now\<rparr>"

definition validate_snapshot :: "snapshot_record \<Rightarrow> repository_error + unit" where
  "validate_snapshot r =
     (if blank (sr_aggregate_type r) then Inl (Model ''snapshot aggregate type must not be empty'')
      else if blank (sr_aggregate_id r) then Inl (Model ''snapshot aggregate id must not be empty'')
      else if sr_version r = 0 then Inl (Model ''snapshot version must be greater than zero'')
      else if sr_snapshot_version r = 0
      then Inl (Model ''snapshot payload version must be greater than zero'')
      else if blank (sr_payload_codec r)
      then Inl (Model ''snapshot payload codec must not be empty'')
      else if sr_payload_codec_version r = 0
      then Inl (Model ''snapshot payload codec version must be greater than zero'')
      else Inr ())"

definition validate_for_identity :: "snapshot_record \<Rightarrow> stream_identity \<Rightarrow> repository_error + unit" where
  "validate_for_identity r i =
     rbind (validate_snapshot r) (\<lambda>_.
     if sr_aggregate_type r \<noteq> si_aggregate_type i
     then Inl (Model (''snapshot aggregate type `'' @ sr_aggregate_type r @
                      ''` does not match stream identity `'' @ display_identity i @ ''`''))
     else if sr_aggregate_id r \<noteq> si_aggregate_id i
     then Inl (Model (''snapshot aggregate id `'' @ sr_aggregate_id r @
                      ''` does not match stream identity `'' @ display_identity i @ ''`''))
     else Inr ())"

definition has_supported_payload_codec :: "snapshot_record \<Rightarrow> bool" where
  "has_supported_payload_codec r \<longleftrightarrow>
     sr_payload_codec r = BITCODE_PAYLOAD_CODEC \<and>
     sr_payload_codec_version r = BITCODE_PAYLOAD_CODEC_VERSION"

section \<open>In-memory store\<close>

type_synonym snapshot_store = "(string, snapshot_record) hashmap"

definition get_snapshot :: "snapshot_store \<Rightarrow> stream_identity \<Rightarrow> snapshot_record option" where
  "get_snapshot store i = map_of store (storage_key i)"

definition get_snapshots :: "snapshot_store \<Rightarrow> stream_identity list \<Rightarrow> snapshot_record list" where
  "get_snapshots store is = List.map_filter (\<lambda>i. map_of store (storage_key i)) is"

definition save_snapshot ::
    "stream_identity \<Rightarrow> snapshot_record \<Rightarrow> snapshot_store \<Rightarrow> repository_error + snapshot_store" where
  "save_snapshot i r store =
     rbind (validate_for_identity r i) (\<lambda>_. Inr (AList.update (storage_key i) r store))"

definition delete_snapshot :: "stream_identity \<Rightarrow> snapshot_store \<Rightarrow> snapshot_store \<times> bool" where
  "delete_snapshot i store =
     (AList.delete (storage_key i) store, map_of store (storage_key i) \<noteq> None)"

section \<open>Lemmas\<close>

lemma validate_for_identity_ok:
  "validate_for_identity r i = Inr u \<longleftrightarrow>
     validate_snapshot r = Inr () \<and> sr_aggregate_type r = si_aggregate_type i \<and>
     sr_aggregate_id r = si_aggregate_id i"
  by (auto simp: validate_for_identity_def res_simps)

lemma validate_snapshot_ok:
  "validate_snapshot r = Inr u \<longleftrightarrow>
     \<not> blank (sr_aggregate_type r) \<and> \<not> blank (sr_aggregate_id r) \<and> sr_version r \<noteq> 0 \<and>
     sr_snapshot_version r \<noteq> 0 \<and> \<not> blank (sr_payload_codec r) \<and> sr_payload_codec_version r \<noteq> 0"
  by (auto simp: validate_snapshot_def)

end
