(* ===== verification/Commit_Batch.thy ===== *)
theory Commit_Batch
  imports Entity Outbox_Message Snapshot_Record
begin

text \<open>
  Commit batches (\<^verbatim>\<open>src/src/repository/traits.rs\<close>) and the validation every backend runs before
  it touches storage (\<^verbatim>\<open>src/src/repository/validation.rs\<close>). A batch borrows its entities, so the
  model of a commit returns them. Preparing the appends slices each entity's events and panics
  on a broken entity; the outer option of \<open>validate_commit_batch\<close> is that panic.
\<close>

section \<open>Data\<close>

record stream_write =
  sw_identity :: stream_identity
  sw_entity :: entity

datatype snapshot_write = Save stream_identity snapshot_record

record commit_batch =
  cb_streams :: "stream_write list"
  cb_outbox_messages :: "outbox_message list"
  cb_read_model_plans :: "table_write_plan list"
  cb_snapshots :: "snapshot_write list"
  cb_inbox_receipts :: "inbox_receipt list"

record prepared_append =
  pa_identity :: stream_identity
  pa_expected_version :: nat
  pa_events :: "event_record list"

definition commit_batch_new :: "stream_write list \<Rightarrow> commit_batch" where
  "commit_batch_new streams =
     \<lparr>cb_streams = streams, cb_outbox_messages = [], cb_read_model_plans = [],
      cb_snapshots = [], cb_inbox_receipts = []\<rparr>"

definition from_stream_write :: "stream_write \<Rightarrow> prepared_append option" where
  "from_stream_write w =
     map_option (\<lambda>evs. \<lparr>pa_identity = sw_identity w,
                        pa_expected_version = en_committed_version (sw_entity w),
                        pa_events = evs\<rparr>)
       (new_events (sw_entity w))"

section \<open>Validation\<close>

fun reject_duplicate_streams_from ::
    "string set \<Rightarrow> stream_write list \<Rightarrow> repository_error + unit" where
  "reject_duplicate_streams_from seen [] = Inr ()"
| "reject_duplicate_streams_from seen (w # ws) =
     (if storage_key (sw_identity w) \<in> seen
      then Inl (DuplicateStreamInBatch (display_identity (sw_identity w)))
      else reject_duplicate_streams_from (insert (storage_key (sw_identity w)) seen) ws)"

definition reject_duplicate_streams :: "stream_write list \<Rightarrow> repository_error + unit" where
  "reject_duplicate_streams ws = reject_duplicate_streams_from {} ws"

fun reject_duplicate_outbox_from ::
    "system_time \<Rightarrow> string set \<Rightarrow> outbox_message list \<Rightarrow> repository_error + unit" where
  "reject_duplicate_outbox_from now seen [] = Inr ()"
| "reject_duplicate_outbox_from now seen (m # ms) =
     rbind (map_err (\<lambda>e. Model (display_table_error e))
              (validate_outbox_message_table_write now m)) (\<lambda>_.
     if blank (ob_id m) then Inl (Model ''outbox message id must not be empty'')
     else if blank (ob_event_type m)
     then Inl (Model (''outbox message `'' @ ob_id m @ ''` event type must not be empty''))
     else if ob_id m \<in> seen then Inl (DuplicateOutboxMessageInBatch (ob_id m))
     else reject_duplicate_outbox_from now (insert (ob_id m) seen) ms)"

definition reject_duplicate_outbox_messages ::
    "system_time \<Rightarrow> outbox_message list \<Rightarrow> repository_error + unit" where
  "reject_duplicate_outbox_messages now ms = reject_duplicate_outbox_from now {} ms"

definition validate_entity_id_matches_identity ::
    "stream_write list \<Rightarrow> repository_error + unit" where
  "validate_entity_id_matches_identity ws =
     try_each (\<lambda>w. ensure (en_id (sw_entity w) = si_aggregate_id (sw_identity w))
         (Model (''stream identity `'' @ display_identity (sw_identity w) @
                 ''` does not match entity id `'' @ en_id (sw_entity w) @ ''`''))) ws"

definition validate_supported_event_codec :: "event_record \<Rightarrow> repository_error + unit" where
  "validate_supported_event_codec ev =
     (if er_payload_codec ev \<noteq> BITCODE_PAYLOAD_CODEC \<or>
         er_payload_codec_version ev \<noteq> BITCODE_PAYLOAD_CODEC_VERSION
      then Inl (repository_error_from_event_record
                  (err_unsupported_codec (er_payload_codec ev) (er_payload_codec_version ev)))
      else Inr ())"

definition validate_prepared_append :: "prepared_append \<Rightarrow> repository_error + unit" where
  "validate_prepared_append a =
     try_each (\<lambda>(offset, ev).
         rbind (validate_supported_event_codec ev) (\<lambda>_.
         let expected_sequence = u64_add (u64_add (pa_expected_version a) offset) 1 in
         ensure (er_sequence ev = expected_sequence)
           (Model (''event `'' @ er_event_name ev @ ''` for stream `'' @
                   display_identity (pa_identity a) @ ''` has sequence '' @
                   show_nat (er_sequence ev) @ '', expected '' @ show_nat expected_sequence))))
       (List.enumerate 0 (pa_events a))"

definition validate_prepared_appends :: "prepared_append list \<Rightarrow> repository_error + unit" where
  "validate_prepared_appends as = try_each validate_prepared_append as"

fun validate_snapshot_write :: "snapshot_write \<Rightarrow> repository_error + unit" where
  "validate_snapshot_write (Save i r) = validate_for_identity r i"

definition validate_commit_batch ::
    "system_time \<Rightarrow> commit_batch \<Rightarrow> (repository_error + prepared_append list) option" where
  "validate_commit_batch now b =
     (case rbind (reject_duplicate_streams (cb_streams b)) (\<lambda>_.
           rbind (reject_duplicate_outbox_messages now (cb_outbox_messages b)) (\<lambda>_.
           validate_entity_id_matches_identity (cb_streams b))) of
        Inl e \<Rightarrow> Some (Inl e)
      | Inr _ \<Rightarrow>
          map_option (\<lambda>prepared.
              rbind (validate_prepared_appends prepared) (\<lambda>_.
              rbind (try_each validate_snapshot_write (cb_snapshots b)) (\<lambda>_.
              Inr prepared)))
            (those (map from_stream_write (cb_streams b))))"

section \<open>Lemmas\<close>

lemma reject_duplicate_streams_ok:
  "reject_duplicate_streams ws = Inr u \<longleftrightarrow> distinct (map (storage_key \<circ> sw_identity) ws)"
proof -
  have "reject_duplicate_streams_from seen ws = Inr u \<longleftrightarrow>
      distinct (map (storage_key \<circ> sw_identity) ws) \<and>
      seen \<inter> (storage_key \<circ> sw_identity) ` set ws = {}" for seen
    by (induction ws arbitrary: seen) auto
  then show ?thesis by (simp add: reject_duplicate_streams_def)
qed

lemma reject_duplicate_outbox_ok:
  "reject_duplicate_outbox_messages now ms = Inr u \<longleftrightarrow>
     distinct (map ob_id ms) \<and>
     (\<forall>m \<in> set ms. validate_outbox_message_table_write now m = Inr () \<and> \<not> blank (ob_id m) \<and>
        \<not> blank (ob_event_type m))"
proof -
  have "reject_duplicate_outbox_from now seen ms = Inr u \<longleftrightarrow>
     distinct (map ob_id ms) \<and> seen \<inter> ob_id ` set ms = {} \<and>
     (\<forall>m \<in> set ms. validate_outbox_message_table_write now m = Inr () \<and> \<not> blank (ob_id m) \<and>
        \<not> blank (ob_event_type m))" for seen
    by (induction ms arbitrary: seen) (auto simp: res_simps)
  then show ?thesis by (simp add: reject_duplicate_outbox_messages_def)
qed

lemma validate_supported_event_codec_ok:
  "validate_supported_event_codec ev = Inr u \<longleftrightarrow> codec_supported ev"
  by (simp add: validate_supported_event_codec_def codec_supported_def)

lemma validate_prepared_append_ok:
  assumes "pa_expected_version a + length (pa_events a) \<le> u64_max"
  shows "validate_prepared_append a = Inr u \<longleftrightarrow>
     list_all codec_supported (pa_events a) \<and> contiguous (pa_expected_version a) (pa_events a)"
proof -
  have "(\<forall>(off, ev) \<in> set (List.enumerate k evs). codec_supported ev \<and> er_sequence ev = n + off + 1) \<longleftrightarrow>
      list_all codec_supported evs \<and> contiguous (n + k) evs" for n k evs
    by (induction evs arbitrary: k) auto
  from this [of 0 "pa_events a" "pa_expected_version a"]
  have "(\<forall>(off, ev) \<in> set (List.enumerate 0 (pa_events a)).
        codec_supported ev \<and> er_sequence ev = pa_expected_version a + off + 1) \<longleftrightarrow>
      list_all codec_supported (pa_events a) \<and> contiguous (pa_expected_version a) (pa_events a)"
    by simp
  moreover have "u64_add (u64_add (pa_expected_version a) off) 1 = pa_expected_version a + off + 1"
    if "(off, ev) \<in> set (List.enumerate 0 (pa_events a))" for off ev
    using that assms by (auto simp: in_set_enumerate_eq)
  ultimately show ?thesis
    by (fastforce simp: validate_prepared_append_def res_simps Let_def
        validate_supported_event_codec_ok split: prod.splits)
qed

end
