(* ===== verification/Projection_Identity.thy ===== *)
theory Projection_Identity
  imports Domain_Event Stream_Identity Table_Model
begin

text \<open>
  Identities and cursors of the projection protocol (\<^verbatim>\<open>src/projection_protocol.rs\<close>): projector
  topologies, partitions, sources, epochs, record scopes, record revisions, input and change
  cursors and checkpoints, with their validating constructors, canonical byte encodings and
  scope-aware comparisons. SHA-256 is the argument \<open>sha\<close> of the definitions that digest bytes.
\<close>

section \<open>Characters of a UTF-8 string\<close>

text \<open>
  The first character of a UTF-8 string: its code point, its width in bytes and the rest. A
  byte that starts no sequence stands for itself (a Rust string holds none).
\<close>

fun utf8_next :: "string \<Rightarrow> (nat \<times> nat \<times> string) option" where
  "utf8_next [] = None"
| "utf8_next (a # s) =
     (let x = (of_char a :: nat);
          y = (\<lambda>i. if i < length s then (of_char (s ! i) :: nat) mod 64 else 0)
      in if x < 0xC0 then Some (x, 1, s)
         else if x < 0xE0 then Some ((x mod 32) * 64 + y 0, 2, drop 1 s)
         else if x < 0xF0 then Some ((x mod 16) * 4096 + y 0 * 64 + y 1, 3, drop 2 s)
         else Some ((x mod 8) * 262144 + y 0 * 4096 + y 1 * 64 + y 2, 4, drop 3 s))"

lemma utf8_next_shorter: "utf8_next s = Some (c, w, t) \<Longrightarrow> length t < length s"
  by (cases s) (auto simp: Let_def split: if_splits)

text \<open>\<^verbatim>\<open>char_indices().find(p)\<close>: byte index and code point of the first character with \<open>p\<close>.\<close>

function find_char :: "(nat \<Rightarrow> bool) \<Rightarrow> nat \<Rightarrow> string \<Rightarrow> (nat \<times> nat) option" where
  "find_char p i s =
     (case utf8_next s of
        None \<Rightarrow> None
      | Some (c, w, t) \<Rightarrow> if p c then Some (i, c) else find_char p (i + w) t)"
  by pat_completeness auto
termination
  by (relation "measure (\<lambda>(p, i, s). length s)") (auto intro: utf8_next_shorter)

declare find_char.simps [simp del]

definition char_is_control :: "nat \<Rightarrow> bool" where
  "char_is_control c \<longleftrightarrow> c < 0x20 \<or> (0x7F \<le> c \<and> c < 0xA0)"

definition char_is_whitespace :: "nat \<Rightarrow> bool" where
  "char_is_whitespace c \<longleftrightarrow>
     (9 \<le> c \<and> c \<le> 13) \<or> c \<in> {0x20, 0x85, 0xA0, 0x1680, 0x2028, 0x2029, 0x202F, 0x205F, 0x3000} \<or>
     (0x2000 \<le> c \<and> c \<le> 0x200A)"

text \<open>\<^verbatim>\<open>std::str::from_utf8\<close> accepts exactly the well-formed sequences.\<close>

definition utf8_cont :: "nat \<Rightarrow> bool" where
  "utf8_cont b \<longleftrightarrow> 0x80 \<le> b \<and> b \<le> 0xBF"

fun utf8_second :: "nat \<Rightarrow> nat \<Rightarrow> bool" where
  "utf8_second a b =
     (if a = 0xE0 then 0xA0 \<le> b \<and> b \<le> 0xBF
      else if a = 0xED then 0x80 \<le> b \<and> b \<le> 0x9F
      else if a = 0xF0 then 0x90 \<le> b \<and> b \<le> 0xBF
      else if a = 0xF4 then 0x80 \<le> b \<and> b \<le> 0x8F
      else utf8_cont b)"

function utf8_valid :: "nat list \<Rightarrow> bool" where
  "utf8_valid bs =
     (case bs of
        [] \<Rightarrow> True
      | a # s \<Rightarrow>
          if a < 0x80 then utf8_valid s
          else if 0xC2 \<le> a \<and> a \<le> 0xDF then
            1 \<le> length s \<and> utf8_cont (s ! 0) \<and> utf8_valid (drop 1 s)
          else if 0xE0 \<le> a \<and> a \<le> 0xEF then
            2 \<le> length s \<and> utf8_second a (s ! 0) \<and> utf8_cont (s ! 1) \<and> utf8_valid (drop 2 s)
          else if 0xF0 \<le> a \<and> a \<le> 0xF4 then
            3 \<le> length s \<and> utf8_second a (s ! 0) \<and> utf8_cont (s ! 1) \<and> utf8_cont (s ! 2) \<and>
            utf8_valid (drop 3 s)
          else False)"
  by pat_completeness auto
termination
  by (relation "measure length") auto

declare utf8_valid.simps [simp del]

definition string_of_bytes :: "byte list \<Rightarrow> string" where
  "string_of_bytes bs = map (\<lambda>b. char_of (unat b)) bs"

definition from_utf8 :: "byte list \<Rightarrow> string option" where
  "from_utf8 bs = (if utf8_valid (map unat bs) then Some (string_of_bytes bs) else None)"

section \<open>Validation\<close>

definition MAX_PROJECTOR_NAME_BYTES :: nat where "MAX_PROJECTOR_NAME_BYTES = 128"
definition MAX_PROJECTION_SOURCE_NAME_BYTES :: nat where "MAX_PROJECTION_SOURCE_NAME_BYTES = 128"
definition MAX_PROJECTION_MODEL_NAME_BYTES :: nat where "MAX_PROJECTION_MODEL_NAME_BYTES = 128"
definition MAX_PROJECTION_EPOCH_BYTES :: nat where "MAX_PROJECTION_EPOCH_BYTES = 128"
definition MAX_PROJECTION_PARTITION_BYTES :: nat where "MAX_PROJECTION_PARTITION_BYTES = 4096"
definition MAX_PROJECTION_SOURCE_PARTITION_BYTES :: nat where
  "MAX_PROJECTION_SOURCE_PARTITION_BYTES = 4096"
definition MAX_PROJECTION_RECORD_KEY_BYTES :: nat where "MAX_PROJECTION_RECORD_KEY_BYTES = 4096"
definition MAX_PROJECTION_POSITION :: nat where "MAX_PROJECTION_POSITION = 2 ^ 63 - 1"

datatype projection_validation_error =
    EmptyField string
  | TooLong string nat nat
  | InvalidNameCharacter string nat nat
  | InvalidOpaqueCharacter string nat nat
  | ZeroField string
  | TooLarge string nat nat
  | CheckpointScopeMismatch string
  | MalformedCanonicalEncoding string

definition hex_digit :: "nat \<Rightarrow> char" where
  "hex_digit n = char_of (if n < 10 then 48 + n else 87 + n)"

fun show_hex :: "nat \<Rightarrow> string" where
  "show_hex n = (if n < 16 then [hex_digit n] else show_hex (n div 16) @ [hex_digit (n mod 16)])"

declare show_hex.simps [simp del]

text \<open>
  \<^verbatim>\<open>escape_default\<close> of a character that a validator reports, in the debug spelling of the
  resulting string: the back slash of an escape is doubled, and the whole is quoted.
\<close>

definition escaped_character :: "nat \<Rightarrow> string" where
  "escaped_character c =
     CHR 0x22 # (if c = 9 then [CHR 0x5C, CHR 0x5C, CHR ''t'']
                 else if c = 13 then [CHR 0x5C, CHR 0x5C, CHR ''r'']
                 else if c = 10 then [CHR 0x5C, CHR 0x5C, CHR ''n'']
                 else if 0x20 \<le> c \<and> c \<le> 0x7E then [char_of c]
                 else [CHR 0x5C, CHR 0x5C] @ ''u{'' @ show_hex c @ ''}'') @ [CHR 0x22]"

fun display_validation_error :: "projection_validation_error \<Rightarrow> string" where
  "display_validation_error (EmptyField f) = f @ '' must not be empty''"
| "display_validation_error (TooLong f len mx) =
     f @ '' is '' @ show_nat len @ '' bytes, exceeding the maximum of '' @ show_nat mx"
| "display_validation_error (InvalidNameCharacter f i c) =
     f @ '' contains invalid character '' @ escaped_character c @ '' at byte '' @ show_nat i"
| "display_validation_error (InvalidOpaqueCharacter f i c) =
     f @ '' contains control character '' @ escaped_character c @ '' at byte '' @ show_nat i"
| "display_validation_error (ZeroField f) = f @ '' must be greater than zero''"
| "display_validation_error (TooLarge f v mx) =
     f @ '' value '' @ show_nat v @ '' exceeds the maximum of '' @ show_nat mx"
| "display_validation_error (CheckpointScopeMismatch f) =
     f @ '' does not match the enclosing projection scope''"
| "display_validation_error (MalformedCanonicalEncoding f) =
     f @ '' has malformed canonical encoding''"

definition validate_name ::
  "string \<Rightarrow> string \<Rightarrow> nat \<Rightarrow> projection_validation_error + string" where
  "validate_name field v mx =
     (if v = [] then Inl (EmptyField field)
      else if mx < length v then Inl (TooLong field (length v) mx)
      else case find_char (\<lambda>c. char_is_control c \<or> char_is_whitespace c) 0 v of
             Some (i, c) \<Rightarrow> Inl (InvalidNameCharacter field i c)
           | None \<Rightarrow> Inr v)"

definition validate_opaque ::
  "string \<Rightarrow> string \<Rightarrow> nat \<Rightarrow> projection_validation_error + string" where
  "validate_opaque field v mx =
     (if v = [] then Inl (EmptyField field)
      else if mx < length v then Inl (TooLong field (length v) mx)
      else case find_char char_is_control 0 v of
             Some (i, c) \<Rightarrow> Inl (InvalidOpaqueCharacter field i c)
           | None \<Rightarrow> Inr v)"

definition validate_canonical_bytes ::
  "string \<Rightarrow> byte list \<Rightarrow> nat \<Rightarrow> projection_validation_error + byte list" where
  "validate_canonical_bytes field v mx =
     (if v = [] then Inl (EmptyField field)
      else if mx < length v then Inl (TooLong field (length v) mx)
      else Inr v)"

definition validate_portable_position :: "string \<Rightarrow> nat \<Rightarrow> projection_validation_error + unit" where
  "validate_portable_position field v =
     (if MAX_PROJECTION_POSITION < v then Inl (TooLarge field v MAX_PROJECTION_POSITION)
      else Inr ())"

text \<open>\<^verbatim>\<open>NonZeroU64::new(v).ok_or(Zero)\<close>.\<close>

definition nonzero :: "string \<Rightarrow> nat \<Rightarrow> projection_validation_error + nat" where
  "nonzero field v = (if v = 0 then Inl (ZeroField field) else Inr v)"

section \<open>Length-prefixed encodings and digests\<close>

definition append_length_prefixed :: "byte list \<Rightarrow> byte list \<Rightarrow> byte list" where
  "append_length_prefixed target v = target @ be_bytes 8 (length v) @ v"

definition be_value :: "byte list \<Rightarrow> nat" where
  "be_value bs = foldl (\<lambda>acc b. acc * 256 + unat b) 0 bs"

definition take_length_prefixed :: "byte list \<Rightarrow> (byte list \<times> byte list) option" where
  "take_length_prefixed bs =
     (if length bs < 8 then None
      else case u64_checked_add 8 (be_value (take 8 bs)) of
             None \<Rightarrow> None
           | Some end_ \<Rightarrow>
               if length bs < end_ then None
               else Some (take (end_ - 8) (drop 8 bs), drop end_ bs))"

definition strip_bytes_prefix :: "byte list \<Rightarrow> byte list \<Rightarrow> byte list option" where
  "strip_bytes_prefix p bs = (if take (length p) bs = p then Some (drop (length p) bs) else None)"

definition domain_separated_digest ::
  "(byte list \<Rightarrow> byte list) \<Rightarrow> byte list \<Rightarrow> byte list \<Rightarrow> byte list" where
  "domain_separated_digest sha domain bs = sha (domain @ be_bytes 8 (length bs) @ bs)"

definition PROJECTION_PARTITION_DIGEST_DOMAIN :: "byte list" where
  "PROJECTION_PARTITION_DIGEST_DOMAIN = as_bytes ''distributed.projection.partition.v1'' @ [0]"
definition PROJECTOR_TOPOLOGY_IDENTITY_ENCODING_DOMAIN :: "byte list" where
  "PROJECTOR_TOPOLOGY_IDENTITY_ENCODING_DOMAIN =
     as_bytes ''distributed.projection.topology-identity.v1'' @ [0]"
definition PROJECTION_SOURCE_NAME_ENCODING_DOMAIN :: "byte list" where
  "PROJECTION_SOURCE_NAME_ENCODING_DOMAIN =
     as_bytes ''distributed.projection.source-name-encoding.v1'' @ [0]"
definition PROJECTION_SOURCE_NAME_DIGEST_DOMAIN :: "byte list" where
  "PROJECTION_SOURCE_NAME_DIGEST_DOMAIN = as_bytes ''distributed.projection.source-name.v1'' @ [0]"
definition PROJECTION_SOURCE_PARTITION_DIGEST_DOMAIN :: "byte list" where
  "PROJECTION_SOURCE_PARTITION_DIGEST_DOMAIN =
     as_bytes ''distributed.projection.source-partition.v1'' @ [0]"
definition PROJECTION_RECORD_KEY_DIGEST_DOMAIN :: "byte list" where
  "PROJECTION_RECORD_KEY_DIGEST_DOMAIN = as_bytes ''distributed.projection.record-key.v1'' @ [0]"

section \<open>Topologies, partitions, sources and epochs\<close>

record topology_id =
  pt_version :: nat
  pt_name :: string
  pt_digest :: "byte list"

definition topology_new ::
  "nat \<Rightarrow> string \<Rightarrow> byte list \<Rightarrow> projection_validation_error + topology_id" where
  "topology_new version name dig =
     rbind (nonzero ''projector topology version'' version) (\<lambda>version.
     rbind (validate_name ''projector topology name'' name MAX_PROJECTOR_NAME_BYTES) (\<lambda>name.
     Inr \<lparr>pt_version = version, pt_name = name, pt_digest = dig\<rparr>))"

definition topology_canonical_bytes :: "topology_id \<Rightarrow> byte list" where
  "topology_canonical_bytes t =
     append_length_prefixed
       (append_length_prefixed
          (append_length_prefixed PROJECTOR_TOPOLOGY_IDENTITY_ENCODING_DOMAIN
             (be_bytes 4 (pt_version t)))
          (as_bytes (pt_name t)))
       (pt_digest t)"

definition topology_from_canonical_bytes ::
  "byte list \<Rightarrow> projection_validation_error + topology_id" where
  "topology_from_canonical_bytes canonical =
     (let bad = MalformedCanonicalEncoding ''projector topology identity'' in
      rbind (ok_or bad (strip_bytes_prefix PROJECTOR_TOPOLOGY_IDENTITY_ENCODING_DOMAIN canonical))
        (\<lambda>encoded.
      rbind (ok_or bad (take_length_prefixed encoded)) (\<lambda>(version, encoded).
      rbind (ok_or bad (take_length_prefixed encoded)) (\<lambda>(name, encoded).
      rbind (ok_or bad (take_length_prefixed encoded)) (\<lambda>(dig, trailing).
      if length version \<noteq> 4 then Inl bad
      else rbind (ok_or bad (from_utf8 name)) (\<lambda>name.
        if length dig \<noteq> 32 then Inl bad
        else if trailing \<noteq> [] then Inl bad
        else rbind (topology_new (be_value version) name dig) (\<lambda>t.
          if topology_canonical_bytes t \<noteq> canonical then Inl bad else Inr t)))))))"

record partition =
  pp_bytes :: "byte list"
  pp_digest :: "byte list"

definition partition_new ::
  "(byte list \<Rightarrow> byte list) \<Rightarrow> byte list \<Rightarrow> projection_validation_error + partition" where
  "partition_new sha bs =
     rbind (validate_canonical_bytes ''projection partition'' bs MAX_PROJECTION_PARTITION_BYTES)
       (\<lambda>bs. Inr \<lparr>pp_bytes = bs,
                  pp_digest = domain_separated_digest sha PROJECTION_PARTITION_DIGEST_DOMAIN bs\<rparr>)"

record source =
  ps_name :: string
  ps_name_digest :: "byte list"
  ps_partition_bytes :: "byte list"
  ps_partition_digest :: "byte list"

definition source_new ::
  "(byte list \<Rightarrow> byte list) \<Rightarrow> string \<Rightarrow> byte list \<Rightarrow> projection_validation_error + source" where
  "source_new sha name bs =
     rbind (validate_name ''projection source name'' name MAX_PROJECTION_SOURCE_NAME_BYTES)
       (\<lambda>name.
     rbind (validate_canonical_bytes ''projection source partition'' bs
              MAX_PROJECTION_SOURCE_PARTITION_BYTES) (\<lambda>bs.
     Inr \<lparr>ps_name = name,
          ps_name_digest =
            domain_separated_digest sha PROJECTION_SOURCE_NAME_DIGEST_DOMAIN (as_bytes name),
          ps_partition_bytes = bs,
          ps_partition_digest =
            domain_separated_digest sha PROJECTION_SOURCE_PARTITION_DIGEST_DOMAIN bs\<rparr>))"

definition canonical_name_bytes :: "source \<Rightarrow> byte list" where
  "canonical_name_bytes s =
     append_length_prefixed PROJECTION_SOURCE_NAME_ENCODING_DOMAIN (as_bytes (ps_name s))"

definition from_canonical_name_bytes ::
  "(byte list \<Rightarrow> byte list) \<Rightarrow> byte list \<Rightarrow> byte list \<Rightarrow> projection_validation_error + source" where
  "from_canonical_name_bytes sha canonical partition_bytes =
     (let bad = MalformedCanonicalEncoding ''projection source name'' in
      rbind (ok_or bad (strip_bytes_prefix PROJECTION_SOURCE_NAME_ENCODING_DOMAIN canonical))
        (\<lambda>encoded.
      rbind (ok_or bad (take_length_prefixed encoded)) (\<lambda>(name, trailing).
      if trailing \<noteq> [] then Inl bad
      else rbind (ok_or bad (from_utf8 name)) (\<lambda>name.
        rbind (source_new sha name partition_bytes) (\<lambda>s.
          if canonical_name_bytes s \<noteq> canonical then Inl bad else Inr s)))))"

type_synonym epoch = string

definition epoch_new :: "string \<Rightarrow> projection_validation_error + epoch" where
  "epoch_new v = validate_opaque ''projection cursor epoch'' v MAX_PROJECTION_EPOCH_BYTES"

section \<open>Scopes, revisions and cursors\<close>

record record_scope =
  sc_topology :: topology_id
  sc_partition :: partition
  sc_model :: string
  sc_key :: "byte list"
  sc_key_digest :: "byte list"

definition key_digest_for :: "(byte list \<Rightarrow> byte list) \<Rightarrow> byte list \<Rightarrow> byte list" where
  "key_digest_for sha key = domain_separated_digest sha PROJECTION_RECORD_KEY_DIGEST_DOMAIN key"

definition record_scope_new ::
  "(byte list \<Rightarrow> byte list) \<Rightarrow> topology_id \<Rightarrow> partition \<Rightarrow> string \<Rightarrow> byte list
     \<Rightarrow> projection_validation_error + record_scope" where
  "record_scope_new sha topology part model key =
     rbind (validate_name ''projection model'' model MAX_PROJECTION_MODEL_NAME_BYTES) (\<lambda>model.
     rbind (validate_canonical_bytes ''projection record key'' key MAX_PROJECTION_RECORD_KEY_BYTES)
       (\<lambda>key.
     Inr \<lparr>sc_topology = topology, sc_partition = part, sc_model = model, sc_key = key,
          sc_key_digest = key_digest_for sha key\<rparr>))"

record record_revision =
  rr_scope :: record_scope
  rr_incarnation :: nat
  rr_revision :: nat

definition record_revision_new ::
  "record_scope \<Rightarrow> nat \<Rightarrow> nat \<Rightarrow> projection_validation_error + record_revision" where
  "record_revision_new scope incarnation revision =
     rbind (validate_portable_position ''projection record incarnation'' incarnation) (\<lambda>_.
     rbind (validate_portable_position ''projection record revision'' revision) (\<lambda>_.
     rbind (nonzero ''projection record incarnation'' incarnation) (\<lambda>incarnation.
     rbind (nonzero ''projection record revision'' revision) (\<lambda>revision.
     Inr \<lparr>rr_scope = scope, rr_incarnation = incarnation, rr_revision = revision\<rparr>))))"

record input_cursor =
  ic_topology :: topology_id
  ic_partition :: partition
  ic_source :: source
  ic_epoch :: epoch
  ic_position :: nat

definition input_cursor_new ::
  "topology_id \<Rightarrow> partition \<Rightarrow> source \<Rightarrow> epoch \<Rightarrow> nat \<Rightarrow> projection_validation_error + input_cursor"
  where
  "input_cursor_new topology part src ep position =
     rbind (validate_portable_position ''projection input position'' position) (\<lambda>_.
     Inr \<lparr>ic_topology = topology, ic_partition = part, ic_source = src, ic_epoch = ep,
          ic_position = position\<rparr>)"

record change_cursor =
  cc_topology :: topology_id
  cc_partition :: partition
  cc_epoch :: epoch
  cc_position :: nat

definition change_cursor_new ::
  "topology_id \<Rightarrow> partition \<Rightarrow> epoch \<Rightarrow> nat \<Rightarrow> projection_validation_error + change_cursor" where
  "change_cursor_new topology part ep position =
     rbind (validate_portable_position ''projection change position'' position) (\<lambda>_.
     rbind (nonzero ''projection change position'' position) (\<lambda>position.
     Inr \<lparr>cc_topology = topology, cc_partition = part, cc_epoch = ep, cc_position = position\<rparr>))"

record checkpoint =
  cp_input :: input_cursor
  cp_change :: change_cursor
  cp_gap_free :: bool

definition checkpoint_new ::
  "input_cursor \<Rightarrow> change_cursor \<Rightarrow> bool \<Rightarrow> projection_validation_error + checkpoint" where
  "checkpoint_new input change gap_free =
     (if ic_topology input \<noteq> cc_topology change
      then Inl (CheckpointScopeMismatch ''projection checkpoint topology'')
      else if ic_partition input \<noteq> cc_partition change
      then Inl (CheckpointScopeMismatch ''projection checkpoint partition'')
      else Inr \<lparr>cp_input = input, cp_change = change, cp_gap_free = gap_free\<rparr>)"

datatype projection_commit_outcome = Applied | DuplicateInput | StaleInput

datatype revision_comparison = Older | EqualRevision | Newer | Incomparable

definition cmp :: "'a::linorder \<Rightarrow> 'a \<Rightarrow> ordering" where
  "cmp x y = (if x < y then Less else if x = y then Equal else Greater)"

fun compare_ordering :: "ordering \<Rightarrow> revision_comparison" where
  "compare_ordering Less = Older"
| "compare_ordering Equal = EqualRevision"
| "compare_ordering Greater = Newer"

definition input_compare_position :: "input_cursor \<Rightarrow> input_cursor \<Rightarrow> revision_comparison" where
  "input_compare_position a b =
     (if ic_topology a \<noteq> ic_topology b \<or> ic_partition a \<noteq> ic_partition b \<or>
         ic_source a \<noteq> ic_source b \<or> ic_epoch a \<noteq> ic_epoch b
      then Incomparable
      else compare_ordering (cmp (ic_position a) (ic_position b)))"

definition revision_compare :: "record_revision \<Rightarrow> record_revision \<Rightarrow> revision_comparison" where
  "revision_compare a b =
     (if rr_scope a \<noteq> rr_scope b then Incomparable
      else compare_ordering
             (cmp (rr_incarnation a, rr_revision a) (rr_incarnation b, rr_revision b)))"

definition change_compare_position :: "change_cursor \<Rightarrow> change_cursor \<Rightarrow> revision_comparison" where
  "change_compare_position a b =
     (if cc_topology a \<noteq> cc_topology b \<or> cc_partition a \<noteq> cc_partition b \<or> cc_epoch a \<noteq> cc_epoch b
      then Incomparable
      else compare_ordering (cmp (cc_position a) (cc_position b)))"


section \<open>Comparisons within a scope\<close>

text \<open>
  The contract of a scoped comparison: values of one scope are ordered by their position, and
  values of different scopes are incomparable. Scope and position together are the value.
\<close>

locale scoped_order =
  fixes compare :: "'a \<Rightarrow> 'a \<Rightarrow> revision_comparison"
    and scope :: "'a \<Rightarrow> 's"
    and position :: "'a \<Rightarrow> 'p::linorder"
  assumes compare_eq:
      "compare a b = (if scope a \<noteq> scope b then Incomparable
                      else compare_ordering (cmp (position a) (position b)))"
    and value_eq: "scope a = scope b \<Longrightarrow> position a = position b \<Longrightarrow> a = b"
begin

lemma incomparable_iff: "compare a b = Incomparable \<longleftrightarrow> scope a \<noteq> scope b"
  by (auto simp: compare_eq cmp_def)

lemma equal_iff: "compare a b = EqualRevision \<longleftrightarrow> a = b"
  using value_eq by (auto simp: compare_eq cmp_def)

lemma older_iff: "compare a b = Older \<longleftrightarrow> scope a = scope b \<and> position a < position b"
  by (auto simp: compare_eq cmp_def)

lemma newer_flip: "compare a b = Newer \<longleftrightarrow> compare b a = Older"
  by (auto simp: compare_eq cmp_def)

lemma older_trans: "compare a b = Older \<Longrightarrow> compare b c = Older \<Longrightarrow> compare a c = Older"
  by (auto simp: older_iff)

lemma older_irrefl: "compare a a \<noteq> Older"
  by (simp add: older_iff)

end

interpretation revision_order: scoped_order revision_compare rr_scope
  "\<lambda>r :: record_revision. (rr_incarnation r, rr_revision r)"
  by unfold_locales (auto simp: revision_compare_def)

interpretation change_order: scoped_order change_compare_position
  "\<lambda>c :: change_cursor. (cc_topology c, cc_partition c, cc_epoch c)" cc_position
  by unfold_locales (auto simp: change_compare_position_def)

interpretation input_order: scoped_order input_compare_position
  "\<lambda>c :: input_cursor. (ic_topology c, ic_partition c, ic_source c, ic_epoch c)" ic_position
  by unfold_locales (auto simp: input_compare_position_def)



section \<open>Bounds\<close>

lemma portable_position_ok_iff [res_simps]:
  "validate_portable_position f v = Inr u \<longleftrightarrow> v \<le> MAX_PROJECTION_POSITION"
  by (auto simp: validate_portable_position_def)

lemma nonzero_ok_iff [res_simps]: "nonzero f v = Inr w \<longleftrightarrow> v \<noteq> 0 \<and> w = v"
  by (auto simp: nonzero_def)

lemma validate_name_ok [res_simps]:
  "validate_name f v mx = Inr w \<longleftrightarrow>
     w = v \<and> v \<noteq> [] \<and> length v \<le> mx \<and>
     find_char (\<lambda>c. char_is_control c \<or> char_is_whitespace c) 0 v = None"
  by (auto simp: validate_name_def split: option.splits)

lemma validate_canonical_bytes_ok [res_simps]:
  "validate_canonical_bytes f v mx = Inr w \<longleftrightarrow> w = v \<and> v \<noteq> [] \<and> length v \<le> mx"
  by (auto simp: validate_canonical_bytes_def)

lemma validate_opaque_ok [res_simps]:
  "validate_opaque f v mx = Inr w \<longleftrightarrow>
     w = v \<and> v \<noteq> [] \<and> length v \<le> mx \<and> find_char char_is_control 0 v = None"
  by (auto simp: validate_opaque_def split: option.splits)

lemma record_revision_new_ok [res_simps]:
  "record_revision_new scope i r = Inr x \<longleftrightarrow>
     x = \<lparr>rr_scope = scope, rr_incarnation = i, rr_revision = r\<rparr> \<and>
     0 < i \<and> i \<le> MAX_PROJECTION_POSITION \<and> 0 < r \<and> r \<le> MAX_PROJECTION_POSITION"
  by (auto simp: record_revision_new_def res_simps)

lemma change_cursor_new_ok [res_simps]:
  "change_cursor_new t p e n = Inr c \<longleftrightarrow>
     c = \<lparr>cc_topology = t, cc_partition = p, cc_epoch = e, cc_position = n\<rparr> \<and>
     0 < n \<and> n \<le> MAX_PROJECTION_POSITION"
  by (auto simp: change_cursor_new_def res_simps)

lemma input_cursor_new_ok [res_simps]:
  "input_cursor_new t p s e n = Inr c \<longleftrightarrow>
     c = \<lparr>ic_topology = t, ic_partition = p, ic_source = s, ic_epoch = e, ic_position = n\<rparr> \<and>
     n \<le> MAX_PROJECTION_POSITION"
  by (auto simp: input_cursor_new_def res_simps)

lemma partition_new_ok [res_simps]:
  "partition_new sha bs = Inr p \<longleftrightarrow>
     p = \<lparr>pp_bytes = bs,
          pp_digest = domain_separated_digest sha PROJECTION_PARTITION_DIGEST_DOMAIN bs\<rparr> \<and>
     bs \<noteq> [] \<and> length bs \<le> MAX_PROJECTION_PARTITION_BYTES"
  by (auto simp: partition_new_def res_simps)

lemma topology_new_ok [res_simps]:
  "topology_new v n d = Inr t \<longleftrightarrow>
     t = \<lparr>pt_version = v, pt_name = n, pt_digest = d\<rparr> \<and> v \<noteq> 0 \<and>
     validate_name ''projector topology name'' n MAX_PROJECTOR_NAME_BYTES = Inr n"
  by (auto simp: topology_new_def res_simps)

lemma record_scope_new_ok [res_simps]:
  "record_scope_new sha t p m k = Inr sc \<longleftrightarrow>
     sc = \<lparr>sc_topology = t, sc_partition = p, sc_model = m, sc_key = k,
           sc_key_digest = key_digest_for sha k\<rparr> \<and>
     validate_name ''projection model'' m MAX_PROJECTION_MODEL_NAME_BYTES = Inr m \<and>
     k \<noteq> [] \<and> length k \<le> MAX_PROJECTION_RECORD_KEY_BYTES"
  by (auto simp: record_scope_new_def res_simps)

lemma checkpoint_new_ok [res_simps]:
  "checkpoint_new i c g = Inr cp \<longleftrightarrow>
     cp = \<lparr>cp_input = i, cp_change = c, cp_gap_free = g\<rparr> \<and>
     ic_topology i = cc_topology c \<and> ic_partition i = cc_partition c"
  by (auto simp: checkpoint_new_def)

section \<open>Canonical encodings\<close>

lemma be_value_snoc: "be_value (bs @ [b]) = be_value bs * 256 + unat b"
  by (simp add: be_value_def)

lemma be_value_be_bytes: "be_value (be_bytes k n) = n mod 256 ^ k"
proof (induction k arbitrary: n)
  case 0
  then show ?case by (simp add: be_value_def be_bytes_def)
next
  case (Suc k)
  have "n mod (256 * 256 ^ k) = 256 * (n div 256 mod 256 ^ k) + n mod 256"
    by (rule mod_mult2_eq)
  then show ?case
    by (simp add: be_bytes_Suc be_value_snoc Suc unat_of_nat mult.commute)
qed

lemma take_length_prefixed_append:
  assumes "length v = n" and "8 + n \<le> u64_max"
  shows "take_length_prefixed (be_bytes 8 n @ v @ rest) = Some (v, rest)"
proof -
  have "n mod 256 ^ 8 = n"
    using assms by (simp add: u64_max_def)
  then have "be_value (be_bytes 8 n) = n"
    by (simp only: be_value_be_bytes)
  then show ?thesis
    using assms by (simp add: take_length_prefixed_def u64_checked_add_def)
qed

lemma as_bytes_string_of_bytes: "as_bytes (string_of_bytes bs) = bs"
proof -
  have "(of_char (char_of (unat b) :: char) :: byte) = b" for b :: byte
  proof -
    have "(of_char (char_of (unat b) :: char) :: byte) = of_nat (of_char (char_of (unat b) :: char))"
      by (rule of_nat_of_char [symmetric])
    also have "\<dots> = of_nat (unat b mod 256)"
      by simp
    also have "\<dots> = b"
      using unsigned_less [of b, where ?'a = nat] by simp
    finally show ?thesis .
  qed
  then show ?thesis
    by (simp add: as_bytes_def string_of_bytes_def map_idI)
qed

lemma string_of_bytes_as_bytes: "string_of_bytes (as_bytes s) = s"
  by (rule as_bytes_inj) (rule as_bytes_string_of_bytes)

lemma strip_bytes_prefix_iff: "strip_bytes_prefix p bs = Some r \<longleftrightarrow> bs = p @ r"
  by (auto simp: strip_bytes_prefix_def) (metis append_take_drop_id)

text \<open>What holds of every topology value the constructor builds from a Rust string and digest.\<close>

definition topology_wf :: "topology_id \<Rightarrow> bool" where
  "topology_wf t \<longleftrightarrow>
     0 < pt_version t \<and> pt_version t \<le> u32_max \<and> length (pt_digest t) = 32 \<and>
     utf8_valid (map unat (as_bytes (pt_name t))) \<and>
     validate_name ''projector topology name'' (pt_name t) MAX_PROJECTOR_NAME_BYTES = Inr (pt_name t)"

lemma be_value_bound: "be_value bs < 256 ^ length bs"
proof (induction bs rule: rev_induct)
  case Nil
  then show ?case by (simp add: be_value_def)
next
  case (snoc b bs)
  have "unat b < 256"
    using unsigned_less [of b, where ?'a = nat] by simp
  moreover have "be_value bs + 1 \<le> 256 ^ length bs"
    using snoc.IH by simp
  then have "(be_value bs + 1) * 256 \<le> 256 ^ length bs * 256"
    by (rule mult_le_mono1)
  ultimately show ?case
    by (simp add: be_value_snoc)
qed

lemma topology_decode_encode:
  assumes "topology_wf t"
  shows "topology_from_canonical_bytes (topology_canonical_bytes t) = Inr t"
proof -
  let ?v = "be_bytes 4 (pt_version t)" and ?n = "as_bytes (pt_name t)" and ?d = "pt_digest t"
  have canon: "topology_canonical_bytes t = PROJECTOR_TOPOLOGY_IDENTITY_ENCODING_DOMAIN @
      be_bytes 8 (length ?v) @ ?v @ be_bytes 8 (length ?n) @ ?n @ be_bytes 8 (length ?d) @ ?d @ []"
    by (simp add: topology_canonical_bytes_def append_length_prefixed_def)
  have "length ?n \<le> 128"
    using assms by (simp add: topology_wf_def validate_name_ok MAX_PROJECTOR_NAME_BYTES_def)
  then have fits: "8 + length (pt_name t) \<le> u64_max" "8 + 32 \<le> u64_max" "8 + 4 \<le> u64_max"
    by (simp_all add: u64_max_def)
  note split = take_length_prefixed_append [OF be_bytes_length fits(3)]
    take_length_prefixed_append [OF as_bytes_length fits(1)]
    take_length_prefixed_append [of ?d 32, OF _ fits(2)]
  have "be_value ?v = pt_version t"
    using assms by (simp add: be_value_be_bytes topology_wf_def u32_max_def)
  moreover have "from_utf8 ?n = Some (pt_name t)"
    using assms by (simp add: from_utf8_def topology_wf_def string_of_bytes_as_bytes)
  moreover have "topology_new (pt_version t) (pt_name t) ?d = Inr t"
    using assms by (simp add: topology_wf_def topology_new_ok)
  moreover have "length ?d = 32"
    using assms by (simp add: topology_wf_def)
  moreover have "strip_bytes_prefix PROJECTOR_TOPOLOGY_IDENTITY_ENCODING_DOMAIN
      (topology_canonical_bytes t) = Some (be_bytes 8 (length ?v) @ ?v @ be_bytes 8 (length ?n) @ ?n
          @ be_bytes 8 (length ?d) @ ?d @ [])"
    by (simp only: canon strip_bytes_prefix_iff)
  ultimately show ?thesis
    using split(3) [where rest = "[]"]
    by (simp add: topology_from_canonical_bytes_def Let_def split)
qed

lemma topology_decode_wf:
  assumes "topology_from_canonical_bytes bs = Inr t"
  shows "topology_wf t \<and> topology_canonical_bytes t = bs"
proof -
  from assms obtain v n d name where len: "length v = 4" "length d = 32"
    and n: "from_utf8 n = Some name" and t: "topology_new (be_value v) name d = Inr t"
    and c: "topology_canonical_bytes t = bs"
    by (simp only: topology_from_canonical_bytes_def Let_def rbind_Inr_iff ok_or_Inr_iff)
      (fastforce simp: rbind_Inr_iff ok_or_Inr_iff split: if_splits prod.splits)
  from n have "utf8_valid (map unat n)" and nm: "name = string_of_bytes n"
    by (auto simp: from_utf8_def split: if_splits)
  moreover have "be_value v < 256 ^ 4"
    using be_value_bound [of v] len by simp
  ultimately have "topology_wf t"
    using t len by (auto simp: topology_wf_def topology_new_ok nm as_bytes_string_of_bytes u32_max_def)
  with c show ?thesis by simp
qed

text \<open>
  C37: The decoder of stored topology identities accepts exactly the canonical encodings of
  well-formed topologies and gives back the topology that was encoded, so topologies and their
  stored identities correspond one to one.
\<close>

theorem topology_canonical_exact:
  "topology_from_canonical_bytes bs = Inr t \<longleftrightarrow> topology_wf t \<and> bs = topology_canonical_bytes t"
  using topology_decode_encode topology_decode_wf by blast

text \<open>
  Cursors, revisions and checkpoints never leave the range every adapter can store: what the
  validating constructors return is positive where the protocol starts at one and at most the
  largest signed 64-bit integer, and a checkpoint joins cursors of one topology and partition.
\<close>

theorem cursor_bounds:
  "(record_revision_new scope i r = Inr v \<longrightarrow>
      1 \<le> rr_incarnation v \<and> rr_incarnation v \<le> 2 ^ 63 - 1 \<and>
      1 \<le> rr_revision v \<and> rr_revision v \<le> 2 ^ 63 - 1 \<and> rr_scope v = scope) \<and>
   (change_cursor_new t p e n = Inr change \<longrightarrow>
      1 \<le> cc_position change \<and> cc_position change \<le> 2 ^ 63 - 1) \<and>
   (input_cursor_new t p s e n = Inr input \<longrightarrow> ic_position input \<le> 2 ^ 63 - 1) \<and>
   (checkpoint_new input change g = Inr cp \<longrightarrow>
      ic_topology (cp_input cp) = cc_topology (cp_change cp) \<and>
      ic_partition (cp_input cp) = cc_partition (cp_change cp))"
  by (auto simp: res_simps MAX_PROJECTION_POSITION_def)

theorem cursor_bounds_witness:
  "\<exists>change. change_cursor_new \<lparr>pt_version = 1, pt_name = ''todos'', pt_digest = []\<rparr>
               \<lparr>pp_bytes = [], pp_digest = []\<rparr> ''log-v1'' 7 = Inr change \<and>
             1 \<le> cc_position change \<and> cc_position change \<le> 2 ^ 63 - 1"
proof -
  let ?t = "\<lparr>pt_version = 1, pt_name = ''todos'', pt_digest = []\<rparr>"
    and ?p = "\<lparr>pp_bytes = [], pp_digest = []\<rparr>"
  have "change_cursor_new ?t ?p ''log-v1'' 7
          = Inr \<lparr>cc_topology = ?t, cc_partition = ?p, cc_epoch = ''log-v1'', cc_position = 7\<rparr>"
    by (simp add: change_cursor_new_ok MAX_PROJECTION_POSITION_def)
  with cursor_bounds [of _ _ _ _ ?t ?p "''log-v1''" 7] show ?thesis
    by blast
qed

end
