(* ===== verification/Projection_Batch.thy ===== *)
theory Projection_Batch
  imports Projection_Identity Read_Model_Store
begin

text \<open>
  Sealed batches of the projection protocol (\<^verbatim>\<open>src/projection_protocol/store/\<close>): errors, trusted
  inputs, model ownership, record mutations, observation requests, the asynchronous commit
  batch, the same-transaction batch and the failure batch, each with its validation.
\<close>

section \<open>Errors\<close>

datatype projection_error =
    PValidation projection_validation_error
  | PRepository repository_error
  | PTable table_store_error
  | InvalidBatch string
  | ScopeMismatch string
  | IncomparableInput
  | InputCorruption
  | MessageIdReuse string
  | GenerationFenced nat nat
  | PartitionStopped string
  | RecordMissing string
  | RecordAlreadyExists string
  | RecordRevisionConflict string nat nat nat nat
  | RecordTombstoned string
  | RecreateRequiresTombstone string
  | PCausalWriteRequired string
  | PositionOverflow string

fun display_projection_error :: "projection_error \<Rightarrow> string" where
  "display_projection_error (PValidation e) =
     ''invalid projection protocol value: '' @ display_validation_error e"
| "display_projection_error (PRepository e) =
     ''projection repository error: '' @ display_repository_error e"
| "display_projection_error (PTable e) = ''projection table error: '' @ display_table_error e"
| "display_projection_error (InvalidBatch m) = ''invalid projection batch: '' @ m"
| "display_projection_error (ScopeMismatch f) = f @ '' does not match the projection input scope''"
| "display_projection_error IncomparableInput =
     ''projection input is incomparable with the durable checkpoint''"
| "display_projection_error InputCorruption =
     ''the same projection input cursor was reused with different content''"
| "display_projection_error (MessageIdReuse m) =
     ''projection message ID `'' @ m @ ''` was reused for a different input''"
| "display_projection_error (GenerationFenced expected actual) =
     ''projection generation '' @ show_nat actual @ '' is fenced; active generation is '' @
     show_nat expected"
| "display_projection_error (PartitionStopped f) =
     ''projection partition is stopped by terminal failure `'' @ f @ ''`''"
| "display_projection_error (RecordMissing m) = ''projection record `'' @ m @ ''` does not exist''"
| "display_projection_error (RecordAlreadyExists m) =
     ''projection record `'' @ m @ ''` already exists''"
| "display_projection_error (RecordRevisionConflict m ei er ai ar) =
     ''projection record `'' @ m @ ''` expected revision ('' @ show_nat ei @ '', '' @ show_nat er @
     '') but found ('' @ show_nat ai @ '', '' @ show_nat ar @ '')''"
| "display_projection_error (RecordTombstoned m) =
     ''projection record `'' @ m @ ''` is tombstoned; use explicit recreate''"
| "display_projection_error (RecreateRequiresTombstone m) =
     ''projection record `'' @ m @ ''` can only be recreated from its exact tombstone revision''"
| "display_projection_error (PCausalWriteRequired t) =
     ''table `'' @ t @ ''` is causal-owned and requires the projection commit path''"
| "display_projection_error (PositionOverflow d) = d @ '' position overflow''"

definition invalid :: "string list \<Rightarrow> projection_error" where
  "invalid parts = InvalidBatch (concat parts)"

section \<open>Bounded text and hexadecimal\<close>

definition MAX_MESSAGE_ID_BYTES :: nat where "MAX_MESSAGE_ID_BYTES = 255"
definition MAX_CAUSATION_ID_BYTES :: nat where "MAX_CAUSATION_ID_BYTES = 128"
definition MAX_FAILURE_ID_BYTES :: nat where "MAX_FAILURE_ID_BYTES = 255"
definition MAX_FAILURE_CODE_BYTES :: nat where "MAX_FAILURE_CODE_BYTES = 255"
definition MAX_FAILURE_DETAIL_BYTES :: nat where "MAX_FAILURE_DETAIL_BYTES = 1024 * 1024"

definition bounded_name :: "string \<Rightarrow> string \<Rightarrow> nat \<Rightarrow> projection_error + string" where
  "bounded_name field v mx =
     (if v = [] \<or> mx < length v \<or>
         find_char (\<lambda>c. char_is_control c \<or> char_is_whitespace c) 0 v \<noteq> None
      then Inl (invalid [field, '' must contain 1..='', show_nat mx,
                         '' non-whitespace, non-control UTF-8 bytes''])
      else Inr v)"

definition bounded_opaque :: "string \<Rightarrow> string \<Rightarrow> nat \<Rightarrow> projection_error + string" where
  "bounded_opaque field v mx =
     (if v = [] \<or> mx < length v \<or> find_char char_is_control 0 v \<noteq> None
      then Inl (invalid [field, '' must contain 1..='', show_nat mx, '' non-control UTF-8 bytes''])
      else Inr v)"

definition digest_hex :: "byte list \<Rightarrow> string" where
  "digest_hex bs = concat (map (\<lambda>b. [hex_digit (unat b div 16), hex_digit (unat b mod 16)]) bs)"

definition validate_scope ::
  "topology_id \<Rightarrow> partition \<Rightarrow> record_scope \<Rightarrow> projection_error + unit" where
  "validate_scope topology part scope =
     (if sc_topology scope \<noteq> topology then Inl (ScopeMismatch ''projection record topology'')
      else if sc_partition scope \<noteq> part then Inl (ScopeMismatch ''projection record partition'')
      else Inr ())"

section \<open>Retention and generations\<close>

definition DEFAULT_MAX_RETAINED_PROJECTION_CHANGES :: nat where
  "DEFAULT_MAX_RETAINED_PROJECTION_CHANGES = 4096"

definition change_retention_new :: "nat \<Rightarrow> projection_validation_error + nat" where
  "change_retention_new n =
     (if MAX_PROJECTION_POSITION < n
      then Inl (TooLarge ''projection retained change count'' n MAX_PROJECTION_POSITION)
      else nonzero ''projection retained change count'' n)"

definition generation_new :: "nat \<Rightarrow> projection_validation_error + nat" where
  "generation_new v =
     (if MAX_PROJECTION_POSITION < v
      then Inl (TooLarge ''projection generation'' v MAX_PROJECTION_POSITION)
      else nonzero ''projection generation'' v)"

definition generation_initial :: nat where
  "generation_initial = 1"

definition generation_checked_next :: "nat \<Rightarrow> projection_error + nat" where
  "generation_checked_next g =
     rbind (ok_or (PositionOverflow ''projection generation'') (u64_checked_add g 1)) (\<lambda>n.
     map_err (\<lambda>_. PositionOverflow ''projection generation'') (generation_new n))"

definition checked_next :: "nat \<Rightarrow> string \<Rightarrow> projection_error + nat" where
  "checked_next v domain =
     (if MAX_PROJECTION_POSITION \<le> v then Inl (PositionOverflow domain) else Inr (v + 1))"

section \<open>Trusted inputs\<close>

definition INPUT_FINGERPRINT_DOMAIN :: "byte list" where
  "INPUT_FINGERPRINT_DOMAIN = as_bytes ''distributed.projection.input.v1'' @ [0]"

definition FAILURE_FINGERPRINT_DOMAIN :: "byte list" where
  "FAILURE_FINGERPRINT_DOMAIN = as_bytes ''distributed.projection.failure.v1'' @ [0]"

definition fingerprint_from_canonical_bytes ::
  "(byte list \<Rightarrow> byte list) \<Rightarrow> byte list \<Rightarrow> byte list" where
  "fingerprint_from_canonical_bytes sha bs = domain_separated_digest sha INPUT_FINGERPRINT_DOMAIN bs"

record trusted_input =
  ti_cursor :: input_cursor
  ti_fingerprint :: "byte list"
  ti_message_id :: string
  ti_causation_id :: string
  ti_generation :: nat
  ti_gap_free :: bool

definition mint ::
  "input_cursor \<Rightarrow> byte list \<Rightarrow> string \<Rightarrow> string \<Rightarrow> nat \<Rightarrow> bool \<Rightarrow> projection_error + trusted_input"
  where
  "mint cursor fp message_id cause generation gap_free =
     rbind (bounded_opaque ''projection message ID'' message_id MAX_MESSAGE_ID_BYTES)
       (\<lambda>message_id.
     rbind (bounded_opaque ''projection causation ID'' cause MAX_CAUSATION_ID_BYTES) (\<lambda>cause.
     Inr \<lparr>ti_cursor = cursor, ti_fingerprint = fp, ti_message_id = message_id,
          ti_causation_id = cause, ti_generation = generation, ti_gap_free = gap_free\<rparr>))"

definition consumer_name :: "trusted_input \<Rightarrow> string" where
  "consumer_name i =
     ''projection:v1:'' @ digest_hex (pt_digest (ic_topology (ti_cursor i))) @ '':'' @
     digest_hex (pp_digest (ic_partition (ti_cursor i))) @ '':'' @ show_nat (ti_generation i)"

definition input_inbox_receipt :: "system_time \<Rightarrow> trusted_input \<Rightarrow> inbox_receipt" where
  "input_inbox_receipt now i = inbox_receipt_new now (consumer_name i) (ti_message_id i)"

section \<open>Ownership, mutations and observations\<close>

record model_ownership =
  ow_model :: string
  ow_table :: string

definition model_ownership_new :: "string \<Rightarrow> string \<Rightarrow> projection_error + model_ownership" where
  "model_ownership_new model table =
     rbind (bounded_name ''projection model'' model 255) (\<lambda>model.
     rbind (bounded_name ''projection table'' table 255) (\<lambda>table.
     Inr \<lparr>ow_model = model, ow_table = table\<rparr>))"

fun validate_ownership_from ::
  "(string, string) hashmap \<Rightarrow> (string, string) hashmap \<Rightarrow> model_ownership list
     \<Rightarrow> projection_error + unit" where
  "validate_ownership_from models tables [] = Inr ()"
| "validate_ownership_from models tables (d # ds) =
     rbind (case map_of models (ow_model d) of
              Some previous \<Rightarrow>
                if previous \<noteq> ow_table d
                then Inl (invalid [''projection model `'', ow_model d, ''` declares both table `'',
                                   previous, ''` and `'', ow_table d, ''`''])
                else Inr ()
            | None \<Rightarrow> Inr ()) (\<lambda>_.
     rbind (case map_of tables (ow_table d) of
              Some previous \<Rightarrow>
                if previous \<noteq> ow_model d
                then Inl (invalid [''projection table `'', ow_table d,
                       ''` is declared by both model `'', previous, ''` and `'', ow_model d, ''`''])
                else Inr ()
            | None \<Rightarrow> Inr ()) (\<lambda>_.
     validate_ownership_from (AList.update (ow_model d) (ow_table d) models)
       (AList.update (ow_table d) (ow_model d) tables) ds))"

definition validate_ownership_batch :: "model_ownership list \<Rightarrow> projection_error + unit" where
  "validate_ownership_batch ds = validate_ownership_from [] [] ds"

datatype record_expectation = ExpectMissing | ExpectExact record_revision

datatype mutation_kind = UpsertKind | DeleteKind | RecreateKind

record record_mutation =
  mu_scope :: record_scope
  mu_mutation :: table_mutation
  mu_expectation :: record_expectation
  mu_kind :: mutation_kind

fun is_delete_row :: "table_mutation \<Rightarrow> bool" where
  "is_delete_row (DeleteRow _) = True"
| "is_delete_row _ = False"

definition record_mutation_new ::
  "record_scope \<Rightarrow> table_mutation \<Rightarrow> record_expectation \<Rightarrow> mutation_kind
     \<Rightarrow> projection_error + record_mutation" where
  "record_mutation_new scope m ex kind =
     (if (case ex of ExpectExact r \<Rightarrow> rr_scope r \<noteq> scope | ExpectMissing \<Rightarrow> False)
      then Inl (ScopeMismatch ''projection record expectation'')
      else if is_delete_row m \<noteq> (kind = DeleteKind)
      then Inl (InvalidBatch ''projection delete kind and table mutation disagree'')
      else if (kind = DeleteKind \<or> kind = RecreateKind) \<and> ex = ExpectMissing
      then Inl (InvalidBatch ''projection delete/recreate requires an exact record revision'')
      else Inr \<lparr>mu_scope = scope, mu_mutation = m, mu_expectation = ex, mu_kind = kind\<rparr>)"

datatype observation_kind = RecordObservation | DependencyObservation

fun observation_kind_as_storage_str :: "observation_kind \<Rightarrow> string" where
  "observation_kind_as_storage_str RecordObservation = ''record''"
| "observation_kind_as_storage_str DependencyObservation = ''dependency''"

fun debug_observation_kind :: "observation_kind \<Rightarrow> string" where
  "debug_observation_kind RecordObservation = ''Record''"
| "debug_observation_kind DependencyObservation = ''Dependency''"

definition observation_kind_from_storage_str :: "string \<Rightarrow> observation_kind option" where
  "observation_kind_from_storage_str v =
     (if v = ''record'' then Some RecordObservation
      else if v = ''dependency'' then Some DependencyObservation else None)"

datatype observation_target =
    StagedRecord record_scope
  | ExistingRecord record_revision
  | DependencyTarget record_scope

record observation_request =
  oq_kind :: observation_kind
  oq_target :: observation_target

definition request_scope :: "observation_request \<Rightarrow> record_scope" where
  "request_scope r =
     (case oq_target r of
        StagedRecord scope \<Rightarrow> scope
      | DependencyTarget scope \<Rightarrow> scope
      | ExistingRecord revision \<Rightarrow> rr_scope revision)"

section \<open>The asynchronous commit batch\<close>

record projection_batch =
  pb_input :: trusted_input
  pb_change_epoch :: epoch
  pb_ownership :: "model_ownership list"
  pb_mutations :: "record_mutation list"
  pb_observations :: "observation_request list"

fun collect_ownership ::
  "(string, string) hashmap \<Rightarrow> string list \<Rightarrow> model_ownership list
     \<Rightarrow> projection_error + (string, string) hashmap" where
  "collect_ownership models tables [] = Inr models"
| "collect_ownership models tables (d # ds) =
     (if map_of models (ow_model d) \<noteq> None \<or> ow_table d \<in> set tables
      then Inl (invalid [''projection ownership repeats model `'', ow_model d, ''` or table `'',
                         ow_table d, ''`''])
      else collect_ownership ((ow_model d, ow_table d) # models) (ow_table d # tables) ds)"

fun validate_batch_mutations ::
  "topology_id \<Rightarrow> partition \<Rightarrow> (string, string) hashmap \<Rightarrow> record_scope list
     \<Rightarrow> record_mutation list \<Rightarrow> projection_error + record_scope list" where
  "validate_batch_mutations topology part owned scopes [] = Inr scopes"
| "validate_batch_mutations topology part owned scopes (m # ms) =
     rbind (validate_scope topology part (mu_scope m)) (\<lambda>_.
     let schema = mutation_schema (mu_mutation m) in
     if sc_model (mu_scope m) \<noteq> ts_model_name schema \<or>
        map_of owned (sc_model (mu_scope m)) \<noteq> Some (ts_table_name schema)
     then Inl (invalid [''projection record scope `'', sc_model (mu_scope m),
                        ''` is not registered to table `'', ts_table_name schema, ''`''])
     else if mu_scope m \<in> set scopes
     then Inl (invalid [''projection batch repeats model `'', sc_model (mu_scope m),
                        ''` record scope''])
     else validate_batch_mutations topology part owned (mu_scope m # scopes) ms)"

definition validate_observation_target ::
  "record_scope list \<Rightarrow> observation_request \<Rightarrow> projection_error + unit" where
  "validate_observation_target scopes r =
     (case (oq_kind r, oq_target r) of
        (RecordObservation, StagedRecord scope) \<Rightarrow>
          if scope \<notin> set scopes
          then Inl (invalid [''projection observation for model `'', sc_model scope,
                             ''` references an unstaged record''])
          else Inr ()
      | (RecordObservation, ExistingRecord _) \<Rightarrow> Inr ()
      | (DependencyObservation, DependencyTarget _) \<Rightarrow> Inr ()
      | _ \<Rightarrow> Inl (InvalidBatch ''projection observation kind and target disagree''))"

fun validate_batch_observations ::
  "topology_id \<Rightarrow> partition \<Rightarrow> (string, string) hashmap \<Rightarrow> record_scope list
     \<Rightarrow> (observation_kind \<times> record_scope) list \<Rightarrow> observation_request list
     \<Rightarrow> projection_error + unit" where
  "validate_batch_observations topology part owned scopes seen [] = Inr ()"
| "validate_batch_observations topology part owned scopes seen (r # rs) =
     rbind (validate_scope topology part (request_scope r)) (\<lambda>_.
     if map_of owned (sc_model (request_scope r)) = None
     then Inl (invalid [''projection observation scope `'', sc_model (request_scope r),
                        ''` is not registered''])
     else if (oq_kind r, request_scope r) \<in> set seen
     then Inl (invalid [''projection batch repeats '', debug_observation_kind (oq_kind r),
                        '' observation for model `'', sc_model (request_scope r), ''`''])
     else rbind (validate_observation_target scopes r) (\<lambda>_.
       validate_batch_observations topology part owned scopes
         ((oq_kind r, request_scope r) # seen) rs))"

definition validate_projection_batch :: "system_time \<Rightarrow> projection_batch \<Rightarrow> projection_error + unit" where
  "validate_projection_batch now b =
     (let topology = ic_topology (ti_cursor (pb_input b));
          part = ic_partition (ti_cursor (pb_input b))
      in
      rbind (map_err PRepository (validate_receipt (input_inbox_receipt now (pb_input b)))) (\<lambda>_.
      rbind (collect_ownership [] [] (pb_ownership b)) (\<lambda>owned.
      rbind (validate_batch_mutations topology part owned [] (pb_mutations b)) (\<lambda>scopes.
      rbind (map_err PTable (validate_plan (map mu_mutation (pb_mutations b)))) (\<lambda>_.
      validate_batch_observations topology part owned scopes [] (pb_observations b))))))"

section \<open>The same-transaction batch\<close>

record direct_mutation =
  dm_scope :: record_scope
  dm_mutation :: table_mutation

record direct_batch =
  db_topology :: topology_id
  db_partition :: partition
  db_change_epoch :: epoch
  db_ownership :: "model_ownership list"
  db_causation_id :: string
  db_mutations :: "direct_mutation list"
  db_observations :: "observation_request list"

definition validate_direct_parts ::
  "direct_batch \<Rightarrow> model_ownership \<Rightarrow> direct_mutation \<Rightarrow> observation_request
     \<Rightarrow> projection_error + unit" where
  "validate_direct_parts b own staged observation =
     rbind (validate_scope (db_topology b) (db_partition b) (dm_scope staged)) (\<lambda>_.
     case dm_mutation staged of
       UpsertRow row \<Rightarrow>
         if rm_mode row \<noteq> UpsertMode \<or> rm_expected_version row \<noteq> Any
         then Inl (InvalidBatch ''a direct projected command requires an unfenced full-row upsert; the projection protocol owns its revision fence'')
         else if sc_model (dm_scope staged) \<noteq> ts_model_name (rm_schema row) \<or>
                 ow_model own \<noteq> ts_model_name (rm_schema row) \<or>
                 ow_table own \<noteq> ts_table_name (rm_schema row)
         then Inl (invalid [''direct projection scope/ownership does not match model `'',
                            ts_model_name (rm_schema row), ''` table `'',
                            ts_table_name (rm_schema row), ''`''])
         else rbind (map_err PTable (validate_plan [dm_mutation staged])) (\<lambda>_.
           if oq_kind observation = RecordObservation \<and>
              oq_target observation = StagedRecord (dm_scope staged)
           then Inr ()
           else Inl (InvalidBatch
                  ''a direct projected command must observe the exact staged record scope''))
     | _ \<Rightarrow> Inl (InvalidBatch ''a direct projected command must seal one full-row upsert''))"

definition validate_direct_batch :: "direct_batch \<Rightarrow> projection_error + unit" where
  "validate_direct_batch b =
     (if length (db_mutations b) \<noteq> 1 \<or> length (db_observations b) \<noteq> 1
      then Inl (InvalidBatch ''a direct projected command must contain exactly one row upsert and one exact record observation'')
      else if length (db_ownership b) \<noteq> 1
      then Inl (InvalidBatch ''a direct projected command must declare exactly one output model owner'')
      else rbind (bounded_opaque ''projection causation ID'' (db_causation_id b) MAX_CAUSATION_ID_BYTES)
        (\<lambda>_. validate_direct_parts b (db_ownership b ! 0) (db_mutations b ! 0)
               (db_observations b ! 0)))"

definition single_upsert ::
  "topology_id \<Rightarrow> partition \<Rightarrow> epoch \<Rightarrow> model_ownership \<Rightarrow> record_scope \<Rightarrow> table_mutation \<Rightarrow> string
     \<Rightarrow> projection_error + direct_batch" where
  "single_upsert topology part ep own scope m cause =
     rbind (bounded_opaque ''projection causation ID'' cause MAX_CAUSATION_ID_BYTES) (\<lambda>cause.
     let b = \<lparr>db_topology = topology, db_partition = part, db_change_epoch = ep,
              db_ownership = [own], db_causation_id = cause,
              db_mutations = [\<lparr>dm_scope = scope, dm_mutation = m\<rparr>],
              db_observations = [\<lparr>oq_kind = RecordObservation, oq_target = StagedRecord scope\<rparr>]\<rparr>
     in rbind (validate_direct_batch b) (\<lambda>_. Inr b))"

section \<open>The failure batch\<close>

record failure_batch =
  fb_input :: trusted_input
  fb_change_epoch :: epoch
  fb_failure_id :: string
  fb_failure_code :: string
  fb_failure_bytes :: "byte list"
  fb_failure_digest :: "byte list"

definition fingerprint_bytes :: "(byte list \<Rightarrow> byte list) \<Rightarrow> byte list \<Rightarrow> byte list" where
  "fingerprint_bytes sha bs = domain_separated_digest sha FAILURE_FINGERPRINT_DOMAIN bs"

definition validate_failure_batch ::
  "(byte list \<Rightarrow> byte list) \<Rightarrow> system_time \<Rightarrow> failure_batch \<Rightarrow> projection_error + unit" where
  "validate_failure_batch sha now b =
     rbind (bounded_opaque ''projection failure ID'' (fb_failure_id b) MAX_FAILURE_ID_BYTES) (\<lambda>_.
     rbind (bounded_name ''projection failure code'' (fb_failure_code b) MAX_FAILURE_CODE_BYTES) (\<lambda>_.
     if fb_failure_bytes b = [] \<or> MAX_FAILURE_DETAIL_BYTES < length (fb_failure_bytes b)
     then Inl (invalid [''projection failure details must contain 1..='',
                        show_nat MAX_FAILURE_DETAIL_BYTES, '' bytes''])
     else if fingerprint_bytes sha (fb_failure_bytes b) \<noteq> fb_failure_digest b
     then Inl (InvalidBatch ''projection failure digest does not match its exact bytes'')
     else
       rbind (bounded_opaque ''projection message ID'' (ti_message_id (fb_input b))
                MAX_MESSAGE_ID_BYTES) (\<lambda>_.
       rbind (bounded_opaque ''projection causation ID'' (ti_causation_id (fb_input b))
                MAX_CAUSATION_ID_BYTES) (\<lambda>_.
       map_err PRepository (validate_receipt (input_inbox_receipt now (fb_input b)))))))"

definition failure_batch_new ::
  "(byte list \<Rightarrow> byte list) \<Rightarrow> system_time \<Rightarrow> trusted_input \<Rightarrow> epoch \<Rightarrow> string \<Rightarrow> string \<Rightarrow> byte list
     \<Rightarrow> projection_error + failure_batch" where
  "failure_batch_new sha now input ep fid code bs =
     (let b = \<lparr>fb_input = input, fb_change_epoch = ep, fb_failure_id = fid,
               fb_failure_code = code, fb_failure_bytes = bs,
               fb_failure_digest = fingerprint_bytes sha bs\<rparr>
      in rbind (validate_failure_batch sha now b) (\<lambda>_. Inr b))"

section \<open>Durable records\<close>

record record_metadata =
  md_revision :: record_revision
  md_tombstone :: bool
  md_change :: change_cursor

datatype change_kind =
    CheckpointChange
  | RecordUpsert
  | RecordDelete
  | RecordRecreate
  | ObservationChange
  | FailureChange

fun change_kind_as_storage_str :: "change_kind \<Rightarrow> string" where
  "change_kind_as_storage_str CheckpointChange = ''checkpoint''"
| "change_kind_as_storage_str RecordUpsert = ''record_upsert''"
| "change_kind_as_storage_str RecordDelete = ''record_delete''"
| "change_kind_as_storage_str RecordRecreate = ''record_recreate''"
| "change_kind_as_storage_str ObservationChange = ''observation''"
| "change_kind_as_storage_str FailureChange = ''failure''"

definition change_kind_from_storage_str :: "string \<Rightarrow> change_kind option" where
  "change_kind_from_storage_str v =
     (if v = ''checkpoint'' then Some CheckpointChange
      else if v = ''record_upsert'' then Some RecordUpsert
      else if v = ''record_delete'' then Some RecordDelete
      else if v = ''record_recreate'' then Some RecordRecreate
      else if v = ''observation'' then Some ObservationChange
      else if v = ''failure'' then Some FailureChange
      else None)"

fun change_kind_for_mutation :: "mutation_kind \<Rightarrow> change_kind" where
  "change_kind_for_mutation UpsertKind = RecordUpsert"
| "change_kind_for_mutation DeleteKind = RecordDelete"
| "change_kind_for_mutation RecreateKind = RecordRecreate"

definition table_model_name :: "table_mutation \<Rightarrow> string" where
  "table_model_name m = ts_model_name (mutation_schema m)"

record projection_change =
  ch_cursor :: change_cursor
  ch_kind :: change_kind
  ch_causation_id :: string
  ch_observation_kind :: "observation_kind option"
  ch_scope :: "record_scope option"
  ch_revision :: "record_revision option"
  ch_failure_id :: "string option"

record projection_observation =
  po_causation_id :: string
  po_kind :: observation_kind
  po_revision :: "record_revision option"
  po_scope :: record_scope
  po_change :: change_cursor

record projection_failure =
  pf_failure_id :: string
  pf_input :: input_cursor
  pf_input_fingerprint :: "byte list"
  pf_message_id :: string
  pf_causation_id :: string
  pf_generation :: nat
  pf_gap_free :: bool
  pf_failure_code :: string
  pf_failure_bytes :: "byte list"
  pf_failure_digest :: "byte list"
  pf_change :: change_cursor

definition failure_matches_batch :: "projection_failure \<Rightarrow> failure_batch \<Rightarrow> bool" where
  "failure_matches_batch f b \<longleftrightarrow>
     pf_input f = ti_cursor (fb_input b) \<and>
     pf_input_fingerprint f = ti_fingerprint (fb_input b) \<and>
     pf_message_id f = ti_message_id (fb_input b) \<and>
     pf_causation_id f = ti_causation_id (fb_input b) \<and>
     pf_gap_free f = ti_gap_free (fb_input b) \<and>
     pf_generation f = ti_generation (fb_input b) \<and>
     pf_failure_code f = fb_failure_code b \<and>
     pf_failure_bytes f = fb_failure_bytes b \<and>
     pf_failure_digest f = fb_failure_digest b \<and>
     cc_epoch (pf_change f) = fb_change_epoch b"

record commit_result =
  cr_outcome :: projection_commit_outcome
  cr_checkpoint :: "checkpoint option"
  cr_records :: "record_metadata list"
  cr_changes :: "projection_change list"

definition not_applied ::
  "projection_commit_outcome \<Rightarrow> checkpoint option \<Rightarrow> commit_result" where
  "not_applied outcome cp =
     \<lparr>cr_outcome = outcome, cr_checkpoint = cp, cr_records = [], cr_changes = []\<rparr>"

section \<open>Lemmas\<close>

lemma change_kind_round_trip [simp]:
  "change_kind_from_storage_str (change_kind_as_storage_str k) = Some k"
  by (cases k) (simp_all add: change_kind_from_storage_str_def)

lemma observation_kind_round_trip [simp]:
  "observation_kind_from_storage_str (observation_kind_as_storage_str k) = Some k"
  by (cases k) (simp_all add: observation_kind_from_storage_str_def)

lemma checked_next_ok [res_simps]:
  "checked_next v d = Inr w \<longleftrightarrow> w = v + 1 \<and> v < MAX_PROJECTION_POSITION"
  by (auto simp: checked_next_def)

lemma generation_checked_next_ok [res_simps]:
  "generation_checked_next g = Inr n \<longleftrightarrow> n = g + 1 \<and> g < MAX_PROJECTION_POSITION"
  by (auto simp: generation_checked_next_def generation_new_def res_simps nonzero_def
      MAX_PROJECTION_POSITION_def u64_max_def)

lemma validate_scope_ok [res_simps]:
  "validate_scope t p sc = Inr u \<longleftrightarrow> sc_topology sc = t \<and> sc_partition sc = p"
  by (auto simp: validate_scope_def)

definition ownership_map :: "model_ownership list \<Rightarrow> (string, string) hashmap" where
  "ownership_map ds = rev (map (\<lambda>d. (ow_model d, ow_table d)) ds)"

lemma collect_ownership_ok:
  assumes "collect_ownership models tables ds = Inr owned"
  shows "owned = ownership_map ds @ models \<and>
         distinct (map ow_model ds) \<and> distinct (map ow_table ds) \<and>
         (\<forall>d \<in> set ds. ow_table d \<notin> set tables \<and> map_of models (ow_model d) = None)"
  using assms
  by (induction ds arbitrary: models tables)
    (fastforce simp: ownership_map_def split: if_splits)+

text \<open>A mutation in scope whose model owns the table it writes.\<close>

definition mutation_ok ::
  "topology_id \<Rightarrow> partition \<Rightarrow> (string, string) hashmap \<Rightarrow> record_mutation \<Rightarrow> bool" where
  "mutation_ok t p owned m \<longleftrightarrow>
     sc_topology (mu_scope m) = t \<and> sc_partition (mu_scope m) = p \<and>
     table_model_name (mu_mutation m) = sc_model (mu_scope m) \<and>
     map_of owned (sc_model (mu_scope m)) = Some (mutation_table_name (mu_mutation m))"

lemma validate_batch_mutations_Cons:
  assumes "validate_batch_mutations t p owned scopes (m # ms) = Inr res"
  shows "mutation_ok t p owned m" "mu_scope m \<notin> set scopes"
    and "validate_batch_mutations t p owned (mu_scope m # scopes) ms = Inr res"
  using assms
  by (simp_all only: validate_batch_mutations.simps res_simps Let_def mutation_ok_def)
    (simp_all add: table_model_name_def mutation_table_name_def split: if_splits)

lemma validate_batch_mutations_ok:
  assumes "validate_batch_mutations t p owned scopes ms = Inr res" "distinct scopes"
  shows "res = rev (map mu_scope ms) @ scopes \<and> distinct res \<and> list_all (mutation_ok t p owned) ms"
  using assms
proof (induction ms arbitrary: scopes)
  case (Cons m ms)
  note step = validate_batch_mutations_Cons [OF Cons.prems(1)]
  with Cons.prems(2) have d: "distinct (mu_scope m # scopes)" by simp
  from Cons.IH [OF step(3) d] step(1) show ?case by (elim conjE) (simp del: distinct_append)
qed simp_all

text \<open>An observation request in scope whose target fits its kind and is staged if it must be.\<close>

definition observation_ok ::
  "topology_id \<Rightarrow> partition \<Rightarrow> record_scope set \<Rightarrow> observation_request \<Rightarrow> bool" where
  "observation_ok t p scopes r \<longleftrightarrow>
     sc_topology (request_scope r) = t \<and> sc_partition (request_scope r) = p \<and>
     (case oq_target r of
        StagedRecord scope \<Rightarrow> oq_kind r = RecordObservation \<and> scope \<in> scopes
      | ExistingRecord _ \<Rightarrow> oq_kind r = RecordObservation
      | DependencyTarget _ \<Rightarrow> oq_kind r = DependencyObservation)"

lemma observation_target_ok:
  "validate_observation_target scopes r = Inr u \<longleftrightarrow>
     (case oq_target r of
        StagedRecord scope \<Rightarrow> oq_kind r = RecordObservation \<and> scope \<in> set scopes
      | ExistingRecord _ \<Rightarrow> oq_kind r = RecordObservation
      | DependencyTarget _ \<Rightarrow> oq_kind r = DependencyObservation)"
  by (cases "oq_kind r"; cases "oq_target r") (simp_all add: validate_observation_target_def)

lemma validate_batch_observations_Cons:
  assumes "validate_batch_observations t p owned scopes seen (r # rs) = Inr u"
  shows "observation_ok t p (set scopes) r" "(oq_kind r, request_scope r) \<notin> set seen"
    and "validate_batch_observations t p owned scopes ((oq_kind r, request_scope r) # seen) rs = Inr u"
proof -
  from assms have "(oq_kind r, request_scope r) \<notin> set seen \<and>
      sc_topology (request_scope r) = t \<and> sc_partition (request_scope r) = p \<and>
      rbind (validate_observation_target scopes r) (\<lambda>_.
        validate_batch_observations t p owned scopes ((oq_kind r, request_scope r) # seen) rs) = Inr u"
    by (simp only: validate_batch_observations.simps res_simps)
      (simp add: rbind_Inr_iff split: if_splits)
  then show "observation_ok t p (set scopes) r" "(oq_kind r, request_scope r) \<notin> set seen"
    "validate_batch_observations t p owned scopes ((oq_kind r, request_scope r) # seen) rs = Inr u"
    by (simp_all add: observation_ok_def observation_target_ok rbind_Inr_iff)
qed

lemma validate_batch_observations_ok:
  assumes "validate_batch_observations t p owned scopes seen rs = Inr u" "distinct seen"
  shows "distinct (map (\<lambda>r. (oq_kind r, request_scope r)) rs @ seen) \<and>
         list_all (observation_ok t p (set scopes)) rs"
  using assms
proof (induction rs arbitrary: seen)
  case (Cons r rs)
  note step = validate_batch_observations_Cons [OF Cons.prems(1)]
  with Cons.prems(2) have "distinct ((oq_kind r, request_scope r) # seen)" by simp
  from Cons.IH [OF step(3) this] step(1) show ?case by simp
qed simp_all

text \<open>What a validated batch guarantees to the store that commits it.\<close>

definition batch_sound :: "projection_batch \<Rightarrow> bool" where
  "batch_sound b \<longleftrightarrow>
     (let t = ic_topology (ti_cursor (pb_input b)); p = ic_partition (ti_cursor (pb_input b)) in
      distinct (map ow_model (pb_ownership b)) \<and> distinct (map ow_table (pb_ownership b)) \<and>
      distinct (map mu_scope (pb_mutations b)) \<and>
      list_all (mutation_ok t p (ownership_map (pb_ownership b))) (pb_mutations b) \<and>
      distinct (map (\<lambda>r. (oq_kind r, request_scope r)) (pb_observations b)) \<and>
      list_all (observation_ok t p (set (map mu_scope (pb_mutations b)))) (pb_observations b))"

lemma validate_projection_batch_ok:
  assumes "validate_projection_batch now b = Inr u"
  shows "batch_sound b"
proof -
  let ?t = "ic_topology (ti_cursor (pb_input b))" and ?p = "ic_partition (ti_cursor (pb_input b))"
  from assms obtain owned scopes where
    own: "collect_ownership [] [] (pb_ownership b) = Inr owned"
    and mut: "validate_batch_mutations ?t ?p owned [] (pb_mutations b) = Inr scopes"
    and obs: "validate_batch_observations ?t ?p owned scopes [] (pb_observations b) = Inr u"
    by (auto simp only: validate_projection_batch_def Let_def res_simps)
  have owned: "owned = ownership_map (pb_ownership b)"
    using collect_ownership_ok [OF own] by simp
  have scopes: "scopes = rev (map mu_scope (pb_mutations b))" and d: "distinct scopes"
    and ok: "list_all (mutation_ok ?t ?p owned) (pb_mutations b)"
    using validate_batch_mutations_ok [OF mut, simplified] by blast+
  have "distinct (map mu_scope (pb_mutations b))"
    and "set scopes = set (map mu_scope (pb_mutations b))"
    using d by (simp_all add: scopes)
  then show ?thesis
    using collect_ownership_ok [OF own] ok validate_batch_observations_ok [OF obs] owned
    by (simp add: batch_sound_def Let_def)
qed

lemma validate_direct_batch_ok:
  assumes "validate_direct_batch b = Inr u"
  obtains own row scope where "db_ownership b = [own]"
    and "db_mutations b = [\<lparr>dm_scope = scope, dm_mutation = UpsertRow row\<rparr>]"
    and "db_observations b = [\<lparr>oq_kind = RecordObservation, oq_target = StagedRecord scope\<rparr>]"
    and "sc_topology scope = db_topology b" "sc_partition scope = db_partition b"
    and "rm_mode row = UpsertMode" "rm_expected_version row = Any"
    and "ow_model own = sc_model scope" "sc_model scope = ts_model_name (rm_schema row)"
    and "ow_table own = ts_table_name (rm_schema row)"
    and "bounded_opaque ''projection causation ID'' (db_causation_id b) MAX_CAUSATION_ID_BYTES
           = Inr (db_causation_id b)"
proof -
  from assms obtain own m r where parts: "db_ownership b = [own]" "db_mutations b = [m]"
    "db_observations b = [r]" and v: "validate_direct_parts b own m r = Inr ()"
    and c: "bounded_opaque ''projection causation ID'' (db_causation_id b) MAX_CAUSATION_ID_BYTES
           = Inr (db_causation_id b)"
    by (auto simp: validate_direct_batch_def res_simps bounded_opaque_def length_Suc_conv
        split: if_splits)
  from v obtain row where "dm_mutation m = UpsertRow row"
    by (auto simp: validate_direct_parts_def res_simps split: table_mutation.splits)
  with v that [of own "dm_scope m" row] parts c show thesis
    by (cases m; cases r) (auto simp: validate_direct_parts_def res_simps split: if_splits)
qed

end
