(* ===== verification/Projection_State.thy ===== *)
theory Projection_State
  imports Projection_Batch
begin

text \<open>
  The state of the in-memory projection protocol
  (\<^verbatim>\<open>src/in_memory_repo/projection_protocol/state.rs\<close> and \<^verbatim>\<open>state_impl.rs\<close>): partitions with
  their change logs, repair generations, input and message identities, receipts, ownership,
  record metadata, observations and failures, and the checks and updates a projection
  transaction composes. An \<^verbatim>\<open>expect\<close> that fails is the fault \<open>Panics\<close>.
\<close>

section \<open>Keys and rows\<close>

record partition_key =
  pk_topology :: topology_id
  pk_partition :: partition

record input_key =
  ik_partition :: partition_key
  ik_source :: source
  ik_generation :: nat

record source_capability_key =
  sk_partition :: partition_key
  sk_source :: source

record cursor_receipt_key =
  rk_partition :: partition_key
  rk_source :: source
  rk_source_epoch :: epoch
  rk_source_position :: nat
  rk_generation :: nat

record cursor_identity_key =
  ck_partition :: partition_key
  ck_source :: source
  ck_source_epoch :: epoch
  ck_source_position :: nat

record message_key =
  mk_topology :: topology_id
  mk_message_id :: string

record generation_key =
  gk_partition :: partition_key
  gk_generation :: nat

record ownership_key =
  wk_partition :: partition_key
  wk_model :: string

record registered_model_key =
  rg_topology :: topology_id
  rg_model :: string

record observation_key =
  vk_causation_id :: string
  vk_scope :: record_scope
  vk_kind :: observation_kind

definition partition_key_new :: "topology_id \<Rightarrow> partition \<Rightarrow> partition_key" where
  "partition_key_new t p = \<lparr>pk_topology = t, pk_partition = p\<rparr>"

definition from_input :: "input_cursor \<Rightarrow> partition_key" where
  "from_input c = partition_key_new (ic_topology c) (ic_partition c)"

definition cursor_receipt_key_new :: "input_cursor \<Rightarrow> nat \<Rightarrow> cursor_receipt_key" where
  "cursor_receipt_key_new c g =
     \<lparr>rk_partition = from_input c, rk_source = ic_source c, rk_source_epoch = ic_epoch c,
      rk_source_position = ic_position c, rk_generation = g\<rparr>"

definition cursor_identity_key_new :: "input_cursor \<Rightarrow> cursor_identity_key" where
  "cursor_identity_key_new c =
     \<lparr>ck_partition = from_input c, ck_source = ic_source c, ck_source_epoch = ic_epoch c,
      ck_source_position = ic_position c\<rparr>"

definition source_capability_key_new :: "input_cursor \<Rightarrow> source_capability_key" where
  "source_capability_key_new c = \<lparr>sk_partition = from_input c, sk_source = ic_source c\<rparr>"

definition input_key_new :: "input_cursor \<Rightarrow> nat \<Rightarrow> input_key" where
  "input_key_new c g = \<lparr>ik_partition = from_input c, ik_source = ic_source c, ik_generation = g\<rparr>"

record stored_input =
  sn_cursor :: input_cursor
  sn_fingerprint :: "byte list"
  sn_message_id :: string
  sn_causation_id :: string
  sn_checkpoint :: checkpoint
  sn_gap_free :: bool

record message_identity =
  mi_cursor :: input_cursor
  mi_fingerprint :: "byte list"
  mi_causation_id :: string
  mi_gap_free :: bool

record input_identity =
  ii_fingerprint :: "byte list"
  ii_message_id :: string
  ii_causation_id :: string
  ii_gap_free :: bool

record applied_receipt =
  ar_fingerprint :: "byte list"
  ar_message_id :: string
  ar_causation_id :: string
  ar_gap_free :: bool
  ar_checkpoint :: checkpoint

record generation_lineage =
  gl_retry_of_generation :: "nat option"
  gl_retry_of_failure_id :: "string option"

definition lineage_initial :: generation_lineage where
  "lineage_initial = \<lparr>gl_retry_of_generation = None, gl_retry_of_failure_id = None\<rparr>"

definition lineage_retry_of :: "nat \<Rightarrow> string \<Rightarrow> generation_lineage" where
  "lineage_retry_of g f = \<lparr>gl_retry_of_generation = Some g, gl_retry_of_failure_id = Some f\<rparr>"

record failed_input_fence =
  ff_cursor :: input_cursor
  ff_fingerprint :: "byte list"
  ff_message_id :: string
  ff_causation_id :: string
  ff_generation :: nat
  ff_gap_free :: bool

definition fence_from_input :: "trusted_input \<Rightarrow> failed_input_fence" where
  "fence_from_input i =
     \<lparr>ff_cursor = ti_cursor i, ff_fingerprint = ti_fingerprint i, ff_message_id = ti_message_id i,
      ff_causation_id = ti_causation_id i, ff_generation = ti_generation i,
      ff_gap_free = ti_gap_free i\<rparr>"

definition matches_retry :: "failed_input_fence \<Rightarrow> trusted_input \<Rightarrow> bool" where
  "matches_retry f i \<longleftrightarrow>
     ff_cursor f = ti_cursor i \<and> ff_fingerprint f = ti_fingerprint i \<and>
     ff_message_id f = ti_message_id i \<and> ff_causation_id f = ti_causation_id i \<and>
     ff_gap_free f = ti_gap_free i"

record partition_state =
  pn_active_generation :: nat
  pn_change_epoch :: epoch
  pn_change_head :: nat
  pn_compacted_through :: nat
  pn_stopped_failure_id :: "string option"
  pn_pending_retry_failure_id :: "string option"
  pn_changes :: "(nat \<times> projection_change) list"

definition partition_state_new :: "epoch \<Rightarrow> partition_state" where
  "partition_state_new ep =
     \<lparr>pn_active_generation = generation_initial, pn_change_epoch = ep, pn_change_head = 0,
      pn_compacted_through = 0, pn_stopped_failure_id = None, pn_pending_retry_failure_id = None,
      pn_changes = []\<rparr>"

record pending_change =
  pc_kind :: change_kind
  pc_causation_id :: string
  pc_observation_kind :: "observation_kind option"
  pc_scope :: "record_scope option"
  pc_revision :: "record_revision option"
  pc_failure_id :: "string option"

record protocol_state =
  pr_partitions :: "(partition_key, partition_state) hashmap"
  pr_generations :: "(generation_key, generation_lineage) hashmap"
  pr_inputs :: "(input_key, stored_input) hashmap"
  pr_input_identities :: "(cursor_identity_key, input_identity) hashmap"
  pr_messages :: "(message_key, message_identity) hashmap"
  pr_applied_receipts :: "(cursor_receipt_key, applied_receipt) hashmap"
  pr_registered_topologies :: "topology_id set"
  pr_registered_models :: "(registered_model_key, string) hashmap"
  pr_table_owners :: "(string, registered_model_key) hashmap"
  pr_ownership :: "(ownership_key, string) hashmap"
  pr_gap_free_capabilities :: "(source_capability_key, bool) hashmap"
  pr_records :: "(record_scope, record_metadata) hashmap"
  pr_observations :: "(observation_key, projection_observation) hashmap"
  pr_failures :: "(string, projection_failure) hashmap"
  pr_failure_inputs :: "(string, failed_input_fence) hashmap"

definition protocol_empty :: protocol_state where
  "protocol_empty =
     \<lparr>pr_partitions = [], pr_generations = [], pr_inputs = [], pr_input_identities = [],
      pr_messages = [], pr_applied_receipts = [], pr_registered_topologies = {},
      pr_registered_models = [], pr_table_owners = [], pr_ownership = [],
      pr_gap_free_capabilities = [], pr_records = [], pr_observations = [], pr_failures = [],
      pr_failure_inputs = []\<rparr>"

datatype input_disposition = NewInput | DuplicateOf checkpoint | StaleAfter checkpoint

datatype fault = Fails projection_error | Panics

section \<open>Topologies and partitions\<close>

definition live_identity_clash :: "record_scope \<Rightarrow> record_scope \<times> record_metadata \<Rightarrow> bool" where
  "live_identity_clash candidate sm \<longleftrightarrow>
     \<not> md_tombstone (snd sm) \<and> fst sm \<noteq> candidate \<and>
     sc_topology (fst sm) = sc_topology candidate \<and> sc_model (fst sm) = sc_model candidate \<and>
     sc_key_digest (fst sm) = sc_key_digest candidate"

definition ensure_live_record_identity_available ::
  "protocol_state \<Rightarrow> record_metadata \<Rightarrow> projection_error + unit" where
  "ensure_live_record_identity_available st md =
     (if md_tombstone md then Inr ()
      else
        let candidate = rr_scope (md_revision md) in
        case find (live_identity_clash candidate) (pr_records st) of
          None \<Rightarrow> Inr ()
        | Some (scope, stored) \<Rightarrow>
            if sc_key scope \<noteq> sc_key candidate
            then Inl (invalid [''projection live-record key digest collision for model `'',
                               sc_model candidate, ''`''])
            else Inl (invalid [''projection live record for model `'', sc_model candidate,
                               ''` is already owned by another partition'']))"

definition require_registered_topology :: "protocol_state \<Rightarrow> topology_id \<Rightarrow> projection_error + unit"
  where
  "require_registered_topology st t =
     (if t \<in> pr_registered_topologies st then Inr ()
      else Inl (InvalidBatch ''projector topology was not bootstrapped before projector traffic''))"

definition ensure_partition ::
  "partition_key \<Rightarrow> epoch \<Rightarrow> protocol_state \<Rightarrow> projection_error + protocol_state" where
  "ensure_partition key ep st =
     (case map_of (pr_partitions st) key of
        Some pn \<Rightarrow>
          if pn_change_epoch pn \<noteq> ep then Inl (ScopeMismatch ''projection change epoch'') else Inr st
      | None \<Rightarrow>
          Inr (st\<lparr>pr_partitions := AList.update key (partition_state_new ep) (pr_partitions st),
                  pr_generations :=
                    AList.update \<lparr>gk_partition = key, gk_generation = generation_initial\<rparr>
                      lineage_initial (pr_generations st)\<rparr>))"

section \<open>Input identity\<close>

definition reject_reused_message ::
  "protocol_state \<Rightarrow> input_cursor \<Rightarrow> byte list \<Rightarrow> string \<Rightarrow> string \<Rightarrow> bool \<Rightarrow> projection_error + unit"
  where
  "reject_reused_message st cursor fp message_id cause gap_free =
     (case map_of (pr_messages st) \<lparr>mk_topology = ic_topology cursor, mk_message_id = message_id\<rparr> of
        Some previous \<Rightarrow>
          if mi_cursor previous \<noteq> cursor \<or> mi_fingerprint previous \<noteq> fp \<or>
             mi_causation_id previous \<noteq> cause \<or> mi_gap_free previous \<noteq> gap_free
          then Inl (MessageIdReuse message_id) else Inr ()
      | None \<Rightarrow> Inr ())"

definition validate_gap_free :: "protocol_state \<Rightarrow> input_cursor \<Rightarrow> bool \<Rightarrow> projection_error + unit" where
  "validate_gap_free st cursor gap_free =
     (case map_of (pr_gap_free_capabilities st) (source_capability_key_new cursor) of
        Some registered \<Rightarrow> if registered \<noteq> gap_free then Inl InputCorruption else Inr ()
      | None \<Rightarrow> Inr ())"

definition validate_input_identity :: "protocol_state \<Rightarrow> trusted_input \<Rightarrow> projection_error + unit" where
  "validate_input_identity st i =
     (if (case map_of (pr_input_identities st) (cursor_identity_key_new (ti_cursor i)) of
            Some identity \<Rightarrow>
              ii_fingerprint identity \<noteq> ti_fingerprint i \<or> ii_message_id identity \<noteq> ti_message_id i \<or>
              ii_causation_id identity \<noteq> ti_causation_id i \<or> ii_gap_free identity \<noteq> ti_gap_free i
          | None \<Rightarrow> False)
      then Inl InputCorruption
      else reject_reused_message st (ti_cursor i) (ti_fingerprint i) (ti_message_id i)
             (ti_causation_id i) (ti_gap_free i))"

definition validate_known_input_identity ::
  "protocol_state \<Rightarrow> trusted_input \<Rightarrow> projection_error + unit" where
  "validate_known_input_identity st i =
     (if hm_contains (pr_input_identities st) (cursor_identity_key_new (ti_cursor i)) \<or>
         hm_contains (pr_messages st)
           \<lparr>mk_topology = ic_topology (ti_cursor i), mk_message_id = ti_message_id i\<rparr> \<or>
         hm_contains (pr_gap_free_capabilities st) (source_capability_key_new (ti_cursor i))
      then rbind (validate_input_identity st i) (\<lambda>_.
             validate_gap_free st (ti_cursor i) (ti_gap_free i))
      else Inr ())"

definition validate_partition ::
  "protocol_state \<Rightarrow> partition_key \<Rightarrow> trusted_input \<Rightarrow> epoch \<Rightarrow> projection_error + unit" where
  "validate_partition st key i ep =
     rbind (require_registered_topology st (ic_topology (ti_cursor i))) (\<lambda>_.
     rbind (validate_known_input_identity st i) (\<lambda>_.
     case map_of (pr_partitions st) key of
       None \<Rightarrow>
         if ti_generation i \<noteq> generation_initial
         then Inl (GenerationFenced generation_initial (ti_generation i))
         else rbind (validate_gap_free st (ti_cursor i) (ti_gap_free i)) (\<lambda>_.
                validate_input_identity st i)
     | Some pn \<Rightarrow>
         if pn_change_epoch pn \<noteq> ep then Inl (ScopeMismatch ''projection change epoch'')
         else if ti_generation i \<noteq> pn_active_generation pn
         then Inl (GenerationFenced (pn_active_generation pn) (ti_generation i))
         else if \<not> hm_contains (pr_generations st)
                    \<lparr>gk_partition = key, gk_generation = ti_generation i\<rparr>
         then Inl (invalid [''active projection generation '', show_nat (ti_generation i),
                            '' has no durable lineage''])
         else rbind (validate_gap_free st (ti_cursor i) (ti_gap_free i)) (\<lambda>_.
              rbind (validate_input_identity st i) (\<lambda>_.
              case pn_stopped_failure_id pn of
                Some f \<Rightarrow> Inl (PartitionStopped f)
              | None \<Rightarrow> Inr ()))))"

definition validate_pending_retry ::
  "protocol_state \<Rightarrow> partition_key \<Rightarrow> trusted_input \<Rightarrow> projection_error + unit" where
  "validate_pending_retry st key i =
     (case map_of (pr_partitions st) key of
        None \<Rightarrow> Inr ()
      | Some pn \<Rightarrow>
          (case pn_pending_retry_failure_id pn of
             None \<Rightarrow> Inr ()
           | Some f \<Rightarrow>
               (case map_of (pr_failure_inputs st) f of
                  None \<Rightarrow> Inl (invalid [''pending projection retry `'', f,
                                        ''` has no exact input fence''])
                | Some fence \<Rightarrow>
                    if ff_cursor fence \<noteq> ti_cursor i then Inl IncomparableInput
                    else if \<not> matches_retry fence i then Inl InputCorruption
                    else Inr ())))"

text \<open>\<^verbatim>\<open>entry(key).or_insert(value)\<close>.\<close>

definition or_insert :: "'k \<Rightarrow> 'v \<Rightarrow> ('k, 'v) hashmap \<Rightarrow> ('k, 'v) hashmap" where
  "or_insert k v m = (case map_of m k of Some _ \<Rightarrow> m | None \<Rightarrow> AList.update k v m)"

definition persist_input_identity :: "trusted_input \<Rightarrow> protocol_state \<Rightarrow> protocol_state" where
  "persist_input_identity i st =
     st\<lparr>pr_input_identities :=
          or_insert (cursor_identity_key_new (ti_cursor i))
            \<lparr>ii_fingerprint = ti_fingerprint i, ii_message_id = ti_message_id i,
             ii_causation_id = ti_causation_id i, ii_gap_free = ti_gap_free i\<rparr>
            (pr_input_identities st),
        pr_messages :=
          or_insert \<lparr>mk_topology = ic_topology (ti_cursor i), mk_message_id = ti_message_id i\<rparr>
            \<lparr>mi_cursor = ti_cursor i, mi_fingerprint = ti_fingerprint i,
             mi_causation_id = ti_causation_id i, mi_gap_free = ti_gap_free i\<rparr>
            (pr_messages st)\<rparr>"

definition classify_input :: "protocol_state \<Rightarrow> trusted_input \<Rightarrow> projection_error + input_disposition"
  where
  "classify_input st i =
     (let cursor = ti_cursor i;
          reused = reject_reused_message st cursor (ti_fingerprint i) (ti_message_id i)
                     (ti_causation_id i) (ti_gap_free i)
      in
      rbind (validate_gap_free st cursor (ti_gap_free i)) (\<lambda>_.
      rbind (validate_input_identity st i) (\<lambda>_.
      case map_of (pr_applied_receipts st) (cursor_receipt_key_new cursor (ti_generation i)) of
        Some receipt \<Rightarrow>
          if ar_fingerprint receipt = ti_fingerprint i \<and> ar_message_id receipt = ti_message_id i \<and>
             ar_causation_id receipt = ti_causation_id i \<and> ar_gap_free receipt = ti_gap_free i
          then Inr (DuplicateOf (ar_checkpoint receipt))
          else Inl InputCorruption
      | None \<Rightarrow>
          (case map_of (pr_inputs st) (input_key_new cursor (ti_generation i)) of
             None \<Rightarrow> rbind reused (\<lambda>_. Inr NewInput)
           | Some previous \<Rightarrow>
               (case input_compare_position cursor (sn_cursor previous) of
                  EqualRevision \<Rightarrow>
                    if ti_fingerprint i \<noteq> sn_fingerprint previous \<or>
                       ti_message_id i \<noteq> sn_message_id previous \<or>
                       ti_causation_id i \<noteq> sn_causation_id previous \<or>
                       ti_gap_free i \<noteq> sn_gap_free previous
                    then Inl InputCorruption
                    else Inr (DuplicateOf (sn_checkpoint previous))
                | Older \<Rightarrow> rbind reused (\<lambda>_. Inr (StaleAfter (sn_checkpoint previous)))
                | Incomparable \<Rightarrow> Inl IncomparableInput
                | Newer \<Rightarrow>
                    rbind reused (\<lambda>_.
                    if ti_gap_free i
                    then rbind (checked_next (ic_position (sn_cursor previous))
                                  ''gap-free projection input'') (\<lambda>next.
                           if ic_position cursor \<noteq> next then Inl IncomparableInput else Inr NewInput)
                    else Inr NewInput))))))"

definition has_exact_message_identity :: "protocol_state \<Rightarrow> trusted_input \<Rightarrow> bool" where
  "has_exact_message_identity st i \<longleftrightarrow>
     (case map_of (pr_messages st)
             \<lparr>mk_topology = ic_topology (ti_cursor i), mk_message_id = ti_message_id i\<rparr> of
        Some identity \<Rightarrow>
          mi_cursor identity = ti_cursor i \<and> mi_fingerprint identity = ti_fingerprint i \<and>
          mi_causation_id identity = ti_causation_id i \<and> mi_gap_free identity = ti_gap_free i
      | None \<Rightarrow> False)"

section \<open>Ownership\<close>

definition owned_table ::
  "protocol_state \<Rightarrow> partition_key \<Rightarrow> record_scope \<Rightarrow> projection_error + string" where
  "owned_table st key scope =
     ok_or (invalid [''projection model `'', sc_model scope,
                     ''` has no causal ownership declaration''])
       (map_of (pr_ownership st) \<lparr>wk_partition = key, wk_model = sc_model scope\<rparr>)"

definition check_registered ::
  "string \<Rightarrow> protocol_state \<Rightarrow> partition_key \<Rightarrow> model_ownership \<Rightarrow> projection_error + unit" where
  "check_registered traffic st key d =
     (let registered = \<lparr>rg_topology = pk_topology key, rg_model = ow_model d\<rparr> in
      case map_of (pr_registered_models st) registered of
        None \<Rightarrow> Inl (invalid [''projection model `'', ow_model d, ''` was not registered before '',
                              traffic, '' traffic''])
      | Some table \<Rightarrow>
          if table \<noteq> ow_table d
          then Inl (invalid [''projection model `'', ow_model d, ''` was bootstrapped for table `'',
                             table, ''`, not `'', ow_table d, ''`''])
          else if map_of (pr_table_owners st) (ow_table d) \<noteq> Some registered
          then Inl (invalid [''projection table `'', ow_table d, ''` does not have model `'', ow_model d,
                 ''` in this topology as its global authoritative owner''])
          else Inr ())"

definition bind_ownership ::
  "partition_key \<Rightarrow> protocol_state \<Rightarrow> model_ownership \<Rightarrow> projection_error + protocol_state" where
  "bind_ownership key st d =
     (let own = \<lparr>wk_partition = key, wk_model = ow_model d\<rparr> in
      rbind (case map_of (pr_ownership st) own of
               Some previous \<Rightarrow>
                 if previous \<noteq> ow_table d
                 then Inl (invalid [''projection model `'', ow_model d,
                                    ''` is already bound to table `'', previous, ''`''])
                 else Inr ()
             | None \<Rightarrow> Inr ()) (\<lambda>_.
      case find (\<lambda>(other, table). wk_partition other = key \<and> table = ow_table d \<and>
                                   wk_model other \<noteq> ow_model d) (pr_ownership st) of
        Some (other, _) \<Rightarrow>
          Inl (invalid [''projection table `'', ow_table d, ''` is already bound to model `'',
                        wk_model other, ''`''])
      | None \<Rightarrow> Inr (st\<lparr>pr_ownership := AList.update own (ow_table d) (pr_ownership st)\<rparr>)))"

definition check_mutation_ownership ::
  "protocol_state \<Rightarrow> partition_key \<Rightarrow> record_mutation \<Rightarrow> projection_error + unit" where
  "check_mutation_ownership st key m =
     rbind (owned_table st key (mu_scope m)) (\<lambda>table.
     if table \<noteq> mutation_table_name (mu_mutation m)
     then Inl (invalid [''projection model `'', sc_model (mu_scope m), ''` owns table `'', table,
                 ''`, but its mutation targets `'', mutation_table_name (mu_mutation m), ''`''])
     else if table_model_name (mu_mutation m) \<noteq> sc_model (mu_scope m)
     then Inl (invalid [''projection record model `'', sc_model (mu_scope m),
                 ''` does not match table schema model `'', table_model_name (mu_mutation m), ''`''])
     else Inr ())"

definition register_ownership ::
  "partition_key \<Rightarrow> projection_batch \<Rightarrow> protocol_state \<Rightarrow> projection_error + protocol_state" where
  "register_ownership key b st =
     rbind (try_each (check_registered ''projector'' st key) (pb_ownership b)) (\<lambda>_.
     rbind (validate_ownership_batch (pb_ownership b)) (\<lambda>_.
     rbind (try_fold (bind_ownership key) st (pb_ownership b)) (\<lambda>st.
     rbind (try_each (check_mutation_ownership st key) (pb_mutations b)) (\<lambda>_.
     rbind (try_each (\<lambda>r. rbind (owned_table st key (request_scope r)) (\<lambda>_. Inr ()))
              (pb_observations b)) (\<lambda>_.
     Inr st)))))"

definition register_same_transaction_ownership ::
  "partition_key \<Rightarrow> direct_batch \<Rightarrow> protocol_state \<Rightarrow> fault + protocol_state" where
  "register_same_transaction_ownership key b st =
     (case db_ownership b of
        [] \<Rightarrow> Inl Panics
      | d # _ \<Rightarrow>
          rbind (map_err Fails (
            rbind (check_registered ''direct projection'' st key d) (\<lambda>_. bind_ownership key st d)))
            (\<lambda>st.
          case db_mutations b of
            [] \<Rightarrow> Inl Panics
          | m # _ \<Rightarrow>
              map_err Fails (
              rbind (owned_table st key (dm_scope m)) (\<lambda>table.
              if table \<noteq> mutation_table_name (dm_mutation m) \<or>
                 table_model_name (dm_mutation m) \<noteq> sc_model (dm_scope m)
              then Inl (invalid [''direct projection record model `'', sc_model (dm_scope m),
                     ''` does not own staged table `'', mutation_table_name (dm_mutation m), ''`''])
              else Inr st))))"

section \<open>Records\<close>

definition new_revision :: "record_scope \<Rightarrow> nat \<Rightarrow> nat \<Rightarrow> projection_error + record_revision" where
  "new_revision scope i r = map_err PValidation (record_revision_new scope i r)"

definition next_record ::
  "protocol_state \<Rightarrow> record_scope \<Rightarrow> record_expectation \<Rightarrow> mutation_kind
     \<Rightarrow> projection_error + record_revision \<times> bool" where
  "next_record st scope ex kind =
     (case ex of
        ExpectMissing \<Rightarrow>
          (case map_of (pr_records st) scope of
             None \<Rightarrow>
               if kind = UpsertKind
               then rbind (new_revision scope 1 1) (\<lambda>r. Inr (r, False))
               else Inl (InvalidBatch ''delete/recreate requires an exact record expectation'')
           | Some md \<Rightarrow>
               if md_tombstone md then Inl (RecordTombstoned (sc_model scope))
               else Inl (RecordAlreadyExists (sc_model scope)))
      | ExpectExact expected \<Rightarrow>
          (case map_of (pr_records st) scope of
             None \<Rightarrow> Inl (RecordMissing (sc_model scope))
           | Some md \<Rightarrow>
               let cur = md_revision md in
               if expected \<noteq> cur
               then Inl (RecordRevisionConflict (sc_model scope)
                           (rr_incarnation expected) (rr_revision expected)
                           (rr_incarnation cur) (rr_revision cur))
               else (case kind of
                       UpsertKind \<Rightarrow>
                         if md_tombstone md then Inl (RecordTombstoned (sc_model scope))
                         else rbind (checked_next (rr_revision cur) ''record revision'') (\<lambda>n.
                              rbind (new_revision scope (rr_incarnation cur) n) (\<lambda>r. Inr (r, False)))
                     | DeleteKind \<Rightarrow>
                         if md_tombstone md then Inl (RecordTombstoned (sc_model scope))
                         else rbind (checked_next (rr_revision cur) ''record revision'') (\<lambda>n.
                              rbind (new_revision scope (rr_incarnation cur) n) (\<lambda>r. Inr (r, True)))
                     | RecreateKind \<Rightarrow>
                         if \<not> md_tombstone md then Inl (RecreateRequiresTombstone (sc_model scope))
                         else rbind (checked_next (rr_incarnation cur) ''record incarnation'') (\<lambda>n.
                              rbind (new_revision scope n 1) (\<lambda>r. Inr (r, False))))))"

definition validate_physical_record ::
  "record_scope \<Rightarrow> record_expectation \<Rightarrow> mutation_kind \<Rightarrow> bool \<Rightarrow> projection_error + unit" where
  "validate_physical_record scope ex kind row_exists =
     rbind (case (ex, kind) of
              (ExpectMissing, UpsertKind) \<Rightarrow> Inr False
            | (ExpectExact _, RecreateKind) \<Rightarrow> Inr False
            | (ExpectExact _, _) \<Rightarrow> Inr True
            | _ \<Rightarrow> Inl (InvalidBatch ''projection mutation has no valid physical-row expectation''))
       (\<lambda>should_exist.
     if row_exists = should_exist then Inr ()
     else Inl (invalid [''projection record `'', sc_model scope,
                 ''` metadata requires its physical row to be '',
                 (if should_exist then ''present'' else ''absent''), '', but it is '',
                 (if row_exists then ''present'' else ''absent'')]))"

section \<open>The change log\<close>

definition append_change ::
  "partition_key \<Rightarrow> pending_change \<Rightarrow> protocol_state \<Rightarrow> fault + protocol_state \<times> projection_change"
  where
  "append_change key pc st =
     (case map_of (pr_partitions st) key of
        None \<Rightarrow> Inl Panics
      | Some pn \<Rightarrow>
          map_err Fails (
          rbind (ok_or (PositionOverflow ''projection change'')
                   (u64_checked_add (pn_change_head pn) 1)) (\<lambda>position.
          rbind (map_err PValidation
                   (change_cursor_new (pk_topology key) (pk_partition key) (pn_change_epoch pn)
                      position)) (\<lambda>cursor.
          let change = \<lparr>ch_cursor = cursor, ch_kind = pc_kind pc,
                        ch_causation_id = pc_causation_id pc,
                        ch_observation_kind = pc_observation_kind pc, ch_scope = pc_scope pc,
                        ch_revision = pc_revision pc, ch_failure_id = pc_failure_id pc\<rparr>;
              pn' = pn\<lparr>pn_change_head := position,
                        pn_changes := bt_insert position change (pn_changes pn)\<rparr>
          in Inr (st\<lparr>pr_partitions := AList.update key pn' (pr_partitions st)\<rparr>, change)))))"

definition compact_changes_through ::
  "partition_key \<Rightarrow> nat \<Rightarrow> protocol_state \<Rightarrow> projection_error + protocol_state \<times> nat" where
  "compact_changes_through key through st =
     (case map_of (pr_partitions st) key of
        None \<Rightarrow> Inl (InvalidBatch ''cannot compact an unknown projection partition'')
      | Some pn \<Rightarrow>
          if pn_change_head pn < through
          then Inl (InvalidBatch ''cannot compact beyond the projection change head'')
          else if through \<le> pn_compacted_through pn then Inr (st, pn_compacted_through pn)
          else
            let expected = through - pn_compacted_through pn;
                actual = length (filter (\<lambda>(p, _). pn_compacted_through pn < p \<and> p \<le> through)
                                   (pn_changes pn))
            in if actual \<noteq> expected
               then Inl (invalid [''projection change compaction expected to remove '',
                      show_nat expected, '' contiguous entries but found '', show_nat actual])
               else Inr (st\<lparr>pr_partitions :=
                              AList.update key
                                (pn\<lparr>pn_changes := filter (\<lambda>(p, _). through < p) (pn_changes pn),
                                    pn_compacted_through := through\<rparr>)
                                (pr_partitions st)\<rparr>, through))"

definition retain_change_suffix ::
  "partition_key \<Rightarrow> nat \<Rightarrow> protocol_state \<Rightarrow> projection_error + protocol_state \<times> nat" where
  "retain_change_suffix key retention st =
     (case map_of (pr_partitions st) key of
        None \<Rightarrow> Inl (InvalidBatch ''cannot retain changes for an unknown projection partition'')
      | Some pn \<Rightarrow> compact_changes_through key (pn_change_head pn - retention) st)"

section \<open>Invariant\<close>

text \<open>
  The change log of a partition holds exactly the positions after the compaction watermark up
  to the head, in order, and every entry carries the cursor of its position.
\<close>

definition change_log_ok :: "partition_key \<Rightarrow> partition_state \<Rightarrow> bool" where
  "change_log_ok key pn \<longleftrightarrow>
     pn_compacted_through pn \<le> pn_change_head pn \<and> pn_change_head pn \<le> MAX_PROJECTION_POSITION \<and>
     map fst (pn_changes pn) = [Suc (pn_compacted_through pn)..<Suc (pn_change_head pn)] \<and>
     map (\<lambda>(p, ch). ch_cursor ch) (pn_changes pn) =
       map (\<lambda>p. \<lparr>cc_topology = pk_topology key, cc_partition = pk_partition key,
                 cc_epoch = pn_change_epoch pn, cc_position = p\<rparr>)
         [Suc (pn_compacted_through pn)..<Suc (pn_change_head pn)]"

text \<open>Heads and watermarks only advance, and a partition keeps its change epoch.\<close>

definition log_extends :: "protocol_state \<Rightarrow> protocol_state \<Rightarrow> bool" where
  "log_extends st st' \<longleftrightarrow>
     (\<forall>key. case map_of (pr_partitions st) key of
              None \<Rightarrow> True
            | Some pn \<Rightarrow>
                (case map_of (pr_partitions st') key of
                   None \<Rightarrow> False
                 | Some pn' \<Rightarrow> pn_change_epoch pn' = pn_change_epoch pn \<and>
                     pn_change_head pn \<le> pn_change_head pn' \<and>
                     pn_compacted_through pn \<le> pn_compacted_through pn'))"

lemma log_extends_refl [simp]: "log_extends st st"
  by (simp add: log_extends_def split: option.splits)

lemma log_extendsD:
  "log_extends st st' \<Longrightarrow> map_of (pr_partitions st) key = Some pn \<Longrightarrow>
   \<exists>pn'. map_of (pr_partitions st') key = Some pn' \<and> pn_change_epoch pn' = pn_change_epoch pn \<and>
         pn_change_head pn \<le> pn_change_head pn' \<and> pn_compacted_through pn \<le> pn_compacted_through pn'"
  unfolding log_extends_def by (drule spec [of _ key]) (simp split: option.splits)

lemma log_extendsI:
  assumes "\<And>key pn. map_of (pr_partitions st) key = Some pn \<Longrightarrow>
    \<exists>pn'. map_of (pr_partitions st') key = Some pn' \<and> pn_change_epoch pn' = pn_change_epoch pn \<and>
         pn_change_head pn \<le> pn_change_head pn' \<and> pn_compacted_through pn \<le> pn_compacted_through pn'"
  shows "log_extends st st'"
  unfolding log_extends_def
proof
  fix key
  show "case map_of (pr_partitions st) key of None \<Rightarrow> True
        | Some pn \<Rightarrow> (case map_of (pr_partitions st') key of None \<Rightarrow> False
            | Some pn' \<Rightarrow> pn_change_epoch pn' = pn_change_epoch pn \<and>
                pn_change_head pn \<le> pn_change_head pn' \<and>
                pn_compacted_through pn \<le> pn_compacted_through pn')"
  proof (cases "map_of (pr_partitions st) key")
    case (Some pn)
    from assms [OF this] obtain pn' where "map_of (pr_partitions st') key = Some pn'"
      "pn_change_epoch pn' = pn_change_epoch pn" "pn_change_head pn \<le> pn_change_head pn'"
      "pn_compacted_through pn \<le> pn_compacted_through pn'"
      by blast
    with Some show ?thesis by simp
  qed simp
qed

lemma log_extends_trans:
  assumes "log_extends a b" "log_extends b c"
  shows "log_extends a c"
proof (rule log_extendsI)
  fix key pn
  assume "map_of (pr_partitions a) key = Some pn"
  from log_extendsD [OF assms(1) this] obtain q where
    q: "map_of (pr_partitions b) key = Some q" "pn_change_epoch q = pn_change_epoch pn"
      "pn_change_head pn \<le> pn_change_head q" "pn_compacted_through pn \<le> pn_compacted_through q"
    by blast
  from log_extendsD [OF assms(2) q(1)] q(2-4)
  show "\<exists>pn'. map_of (pr_partitions c) key = Some pn' \<and> pn_change_epoch pn' = pn_change_epoch pn \<and>
         pn_change_head pn \<le> pn_change_head pn' \<and> pn_compacted_through pn \<le> pn_compacted_through pn'"
    by (metis order_trans)
qed

text \<open>A cursor that the log of its partition has already handed out.\<close>

definition cursor_issued :: "protocol_state \<Rightarrow> change_cursor \<Rightarrow> bool" where
  "cursor_issued st c \<longleftrightarrow>
     (case map_of (pr_partitions st) (partition_key_new (cc_topology c) (cc_partition c)) of
        None \<Rightarrow> False
      | Some pn \<Rightarrow> cc_epoch c = pn_change_epoch pn \<and> 0 < cc_position c \<and>
          cc_position c \<le> pn_change_head pn)"

lemma cursor_issued_extends: "cursor_issued st c \<Longrightarrow> log_extends st st' \<Longrightarrow> cursor_issued st' c"
  unfolding cursor_issued_def
  by (auto split: option.splits dest!: log_extendsD [where st = st and st' = st'])

text \<open>Metadata of a record: its revision is in range and its last change was issued in its scope.\<close>

definition record_ok :: "protocol_state \<Rightarrow> record_scope \<Rightarrow> record_metadata \<Rightarrow> bool" where
  "record_ok st scope md \<longleftrightarrow>
     rr_scope (md_revision md) = scope \<and>
     0 < rr_incarnation (md_revision md) \<and> rr_incarnation (md_revision md) \<le> MAX_PROJECTION_POSITION \<and>
     0 < rr_revision (md_revision md) \<and> rr_revision (md_revision md) \<le> MAX_PROJECTION_POSITION \<and>
     cc_topology (md_change md) = sc_topology scope \<and>
     cc_partition (md_change md) = sc_partition scope \<and> cursor_issued st (md_change md)"

text \<open>Identities of live records; a row has one live owner across all partitions.\<close>

definition live_ids :: "(record_scope, record_metadata) hashmap \<Rightarrow> (topology_id \<times> string \<times> byte list) list"
  where
  "live_ids m = map (\<lambda>(sc, md). (sc_topology sc, sc_model sc, sc_key_digest sc))
                  (filter (\<lambda>(sc, md). \<not> md_tombstone md) m)"

definition generation_ok :: "protocol_state \<Rightarrow> partition_key \<Rightarrow> partition_state \<Rightarrow> bool" where
  "generation_ok st key pn \<longleftrightarrow>
     0 < pn_active_generation pn \<and>
     hm_contains (pr_generations st) \<lparr>gk_partition = key, gk_generation = pn_active_generation pn\<rparr>"

definition protocol_inv :: "protocol_state \<Rightarrow> bool" where
  "protocol_inv st \<longleftrightarrow>
     hm_all change_log_ok (pr_partitions st) \<and> hm_all (generation_ok st) (pr_partitions st) \<and>
     hm_wf (pr_records st) \<and> hm_all (record_ok st) (pr_records st) \<and>
     distinct (live_ids (pr_records st))"

lemma protocol_inv_empty [simp]: "protocol_inv protocol_empty"
  by (simp add: protocol_inv_def protocol_empty_def live_ids_def)

section \<open>The change log keeps the invariant\<close>

lemma change_log_ok_new [simp]: "change_log_ok key (partition_state_new ep)"
  by (simp add: change_log_ok_def partition_state_new_def)

lemma change_log_ok_append:
  assumes "change_log_ok key pn" and "Suc (pn_change_head pn) \<le> MAX_PROJECTION_POSITION"
    and "ch_cursor ch = \<lparr>cc_topology = pk_topology key, cc_partition = pk_partition key,
           cc_epoch = pn_change_epoch pn, cc_position = Suc (pn_change_head pn)\<rparr>"
  shows "bt_insert (Suc (pn_change_head pn)) ch (pn_changes pn)
           = pn_changes pn @ [(Suc (pn_change_head pn), ch)]"
    and "change_log_ok key (pn\<lparr>pn_change_head := Suc (pn_change_head pn),
           pn_changes := bt_insert (Suc (pn_change_head pn)) ch (pn_changes pn)\<rparr>)"
proof -
  have "fst ` set (pn_changes pn) = set (map fst (pn_changes pn))" by simp
  also have "\<dots> = {Suc (pn_compacted_through pn)..<Suc (pn_change_head pn)}"
    using assms(1) unfolding change_log_ok_def by (metis atLeastLessThan_upt)
  finally have "\<forall>l \<in> fst ` set (pn_changes pn). l < Suc (pn_change_head pn)" by simp
  then show eq: "bt_insert (Suc (pn_change_head pn)) ch (pn_changes pn)
           = pn_changes pn @ [(Suc (pn_change_head pn), ch)]"
    by (rule bt_insert_last)
  show "change_log_ok key (pn\<lparr>pn_change_head := Suc (pn_change_head pn),
           pn_changes := bt_insert (Suc (pn_change_head pn)) ch (pn_changes pn)\<rparr>)"
    using assms by (simp add: change_log_ok_def eq)
qed

lemma filter_upt: "filter (\<lambda>p. t < p) [Suc a..<Suc b] = [Suc (max a t)..<Suc b]"
  by (induction b) (auto simp: max_def)

lemma length_filter_upt:
  "a \<le> t \<Longrightarrow> t \<le> b \<Longrightarrow> length (filter (\<lambda>p. a < p \<and> p \<le> t) [Suc a..<Suc b]) = t - a"
proof (induction b)
  case (Suc b)
  then show ?case
    by (cases "t \<le> b") (auto simp: le_Suc_eq upt_conv_Nil filter_id_conv)
qed simp

lemma change_log_count:
  assumes "change_log_ok key pn" "pn_compacted_through pn \<le> t" "t \<le> pn_change_head pn"
  shows "length (filter (\<lambda>(p, _). pn_compacted_through pn < p \<and> p \<le> t) (pn_changes pn))
           = t - pn_compacted_through pn"
proof -
  have "length (filter (\<lambda>(p, _). pn_compacted_through pn < p \<and> p \<le> t) (pn_changes pn))
      = length (filter (\<lambda>p. pn_compacted_through pn < p \<and> p \<le> t) (map fst (pn_changes pn)))"
    by (simp add: filter_map o_def split_def)
  also have "\<dots> = t - pn_compacted_through pn"
    using assms length_filter_upt by (simp add: change_log_ok_def)
  finally show ?thesis .
qed

lemma filter_map_keyed:
  assumes "map f xs = map g (map fst xs)"
  shows "map f (filter (\<lambda>(p, _). P p) xs) = map g (filter P (map fst xs))"
  using assms by (induction xs) auto

lemma change_log_ok_compact:
  assumes "change_log_ok key pn" "pn_compacted_through pn \<le> t" "t \<le> pn_change_head pn"
  shows "change_log_ok key (pn\<lparr>pn_changes := filter (\<lambda>(p, _). t < p) (pn_changes pn),
           pn_compacted_through := t\<rparr>)"
proof -
  let ?cur = "\<lambda>p. \<lparr>cc_topology = pk_topology key, cc_partition = pk_partition key,
                 cc_epoch = pn_change_epoch pn, cc_position = p\<rparr>"
  have keys: "map fst (pn_changes pn) = [Suc (pn_compacted_through pn)..<Suc (pn_change_head pn)]"
    and curs: "map (\<lambda>(p, ch). ch_cursor ch) (pn_changes pn) = map ?cur (map fst (pn_changes pn))"
    using assms(1) by (simp_all add: change_log_ok_def)
  have "map fst (filter (\<lambda>(p, _). t < p) (pn_changes pn)) = filter (\<lambda>p. t < p) (map fst (pn_changes pn))"
    by (simp add: filter_map o_def split_def)
  moreover have "map (\<lambda>(p, ch). ch_cursor ch) (filter (\<lambda>(p, _). t < p) (pn_changes pn))
      = map ?cur (filter (\<lambda>p. t < p) (map fst (pn_changes pn)))"
    by (rule filter_map_keyed [OF curs])
  moreover have "filter (\<lambda>p. t < p) (map fst (pn_changes pn)) = [Suc t..<Suc (pn_change_head pn)]"
    using assms(2) by (simp only: keys filter_upt max_absorb2)
  ultimately show ?thesis
    using assms by (simp add: change_log_ok_def del: upt_Suc)
qed

text \<open>A step that leaves the records alone keeps what the invariant says of them.\<close>

lemma record_ok_extends: "record_ok st scope md \<Longrightarrow> log_extends st st' \<Longrightarrow> record_ok st' scope md"
  unfolding record_ok_def by (elim conjE, intro conjI) (assumption | rule cursor_issued_extends)+

lemma protocol_inv_partition:
  assumes "protocol_inv st" "map_of (pr_partitions st) key = Some pn"
  shows "change_log_ok key pn" "generation_ok st key pn"
  using assms hm_all_lookup [of change_log_ok, OF _ assms(2)]
    hm_all_lookup [of "generation_ok st", OF _ assms(2)]
  by (simp_all add: protocol_inv_def)

lemma protocol_inv_record:
  assumes "protocol_inv st" "map_of (pr_records st) scope = Some md"
  shows "record_ok st scope md"
  using assms hm_all_lookup [of "record_ok st", OF _ assms(2)] by (simp add: protocol_inv_def)

lemma protocol_inv_step:
  assumes "protocol_inv st" and "log_extends st st'" and "pr_records st' = pr_records st"
    and "hm_all change_log_ok (pr_partitions st')" and "hm_all (generation_ok st') (pr_partitions st')"
  shows "protocol_inv st'"
proof -
  have "hm_all (record_ok st') (pr_records st)"
    using assms(1) unfolding protocol_inv_def
    by (elim conjE, elim hm_all_mono) (rule record_ok_extends [OF _ assms(2)])
  then show ?thesis
    using assms by (simp add: protocol_inv_def)
qed

lemma protocol_inv_frame:
  assumes "protocol_inv st" and "pr_partitions st' = pr_partitions st"
    and "pr_generations st' = pr_generations st" and "pr_records st' = pr_records st"
  shows "protocol_inv st'" "log_extends st st'"
proof -
  show ext: "log_extends st st'"
    by (simp add: log_extends_def assms(2) split: option.splits)
  have gen: "generation_ok st' = generation_ok st"
    using assms(3) by (simp add: generation_ok_def fun_eq_iff)
  show "protocol_inv st'"
    by (rule protocol_inv_step [OF assms(1) ext assms(4)])
      (use assms(1,2) gen in \<open>simp_all add: protocol_inv_def\<close>)
qed

lemma generation_ok_mono:
  assumes "generation_ok st key pn"
    and "\<And>k. hm_contains (pr_generations st) k \<Longrightarrow> hm_contains (pr_generations st') k"
  shows "generation_ok st' key pn"
  using assms by (simp add: generation_ok_def)

lemma ensure_partition_ok:
  assumes "ensure_partition key ep st = Inr st'" and inv: "protocol_inv st"
  shows "protocol_inv st'" "log_extends st st'" "pr_records st' = pr_records st"
    "\<exists>pn. map_of (pr_partitions st') key = Some pn \<and> pn_change_epoch pn = ep"
proof -
  have "protocol_inv st' \<and> log_extends st st' \<and> pr_records st' = pr_records st \<and>
      (\<exists>pn. map_of (pr_partitions st') key = Some pn \<and> pn_change_epoch pn = ep)"
  proof (cases "map_of (pr_partitions st) key")
    case None
    let ?g = "\<lparr>gk_partition = key, gk_generation = generation_initial\<rparr>"
    from None assms(1) have st': "st' = st\<lparr>
        pr_partitions := AList.update key (partition_state_new ep) (pr_partitions st),
        pr_generations := AList.update ?g lineage_initial (pr_generations st)\<rparr>"
      by (simp add: ensure_partition_def)
    have ext: "log_extends st st'"
      by (rule log_extendsI) (use None in \<open>auto simp: st'\<close>)
    have gen: "hm_contains (pr_generations st') k" if "hm_contains (pr_generations st) k \<or> k = ?g" for k
      using that by (auto simp: st' hm_contains_def)
    have "hm_all (generation_ok st') (pr_partitions st)"
      using inv unfolding protocol_inv_def
      by (elim conjE, elim hm_all_mono) (rule generation_ok_mono, assumption, simp add: gen)
    moreover have "generation_ok st' key (partition_state_new ep)"
      by (simp add: generation_ok_def partition_state_new_def generation_initial_def
          gen [unfolded generation_initial_def])
    ultimately have "hm_all (generation_ok st') (pr_partitions st')"
      unfolding st' by (simp add: hm_all_update)
    moreover have "hm_all change_log_ok (pr_partitions st')"
      using inv by (simp add: st' protocol_inv_def hm_all_update)
    ultimately have "protocol_inv st'"
      using protocol_inv_step [OF inv ext] by (simp add: st')
    with ext show ?thesis
      by (simp add: st' partition_state_new_def)
  next
    case (Some pn)
    with assms show ?thesis
      by (simp add: ensure_partition_def split: if_splits)
  qed
  then show "protocol_inv st'" "log_extends st st'" "pr_records st' = pr_records st"
    "\<exists>pn. map_of (pr_partitions st') key = Some pn \<and> pn_change_epoch pn = ep"
    by simp_all
qed

lemma update_partition_inv:
  assumes inv: "protocol_inv st" and "map_of (pr_partitions st) key = Some pn"
    and "change_log_ok key pn'" and "generation_ok st key pn'"
    and "pn_change_epoch pn' = pn_change_epoch pn" "pn_change_head pn \<le> pn_change_head pn'"
      "pn_compacted_through pn \<le> pn_compacted_through pn'"
    and st': "st' = st\<lparr>pr_partitions := AList.update key pn' (pr_partitions st)\<rparr>"
  shows "protocol_inv st'" "log_extends st st'"
proof -
  show ext: "log_extends st st'"
    by (rule log_extendsI) (use assms(2,5-7) in \<open>auto simp: st'\<close>)
  have gen: "generation_ok st' = generation_ok st"
    by (simp add: generation_ok_def st' fun_eq_iff)
  show "protocol_inv st'"
    by (rule protocol_inv_step [OF inv ext])
      (use inv assms(3,4) gen in \<open>simp_all add: protocol_inv_def st' hm_all_update\<close>)
qed

lemma append_change_ok:
  assumes app: "append_change key pc st = Inr (st', ch)" and inv: "protocol_inv st"
  shows "protocol_inv st'" "log_extends st st'" "cursor_issued st' (ch_cursor ch)"
    "cc_topology (ch_cursor ch) = pk_topology key" "cc_partition (ch_cursor ch) = pk_partition key"
    "\<exists>ps. st' = st\<lparr>pr_partitions := ps\<rparr>"
proof -
  from app obtain pn where pn: "map_of (pr_partitions st) key = Some pn"
    by (cases "map_of (pr_partitions st) key") (simp_all add: append_change_def)
  let ?c = "\<lparr>cc_topology = pk_topology key, cc_partition = pk_partition key,
             cc_epoch = pn_change_epoch pn, cc_position = Suc (pn_change_head pn)\<rparr>"
    and ?pn' = "pn\<lparr>pn_change_head := Suc (pn_change_head pn),
                   pn_changes := bt_insert (Suc (pn_change_head pn)) ch (pn_changes pn)\<rparr>"
  from app pn have c: "ch_cursor ch = ?c" and fits: "Suc (pn_change_head pn) \<le> MAX_PROJECTION_POSITION"
    and st': "st' = st\<lparr>pr_partitions := AList.update key ?pn' (pr_partitions st)\<rparr>"
    by (simp_all add: append_change_def Let_def res_simps) auto
  have "change_log_ok key pn" "generation_ok st key pn"
    by (rule protocol_inv_partition [OF inv pn])+
  then have "change_log_ok key ?pn'" "generation_ok st key ?pn'"
    using change_log_ok_append(2) [OF _ fits c] by (simp_all add: generation_ok_def)
  from update_partition_inv [OF inv pn this _ _ _ st']
  show "protocol_inv st'" "log_extends st st'" by simp_all
  show "cursor_issued st' (ch_cursor ch)"
    "cc_topology (ch_cursor ch) = pk_topology key" "cc_partition (ch_cursor ch) = pk_partition key"
    "\<exists>ps. st' = st\<lparr>pr_partitions := ps\<rparr>"
    using pn by (simp_all add: c cursor_issued_def st' partition_key_new_def) blast
qed

lemma append_change_no_panic:
  "map_of (pr_partitions st) key = Some pn \<Longrightarrow> append_change key pc st \<noteq> Inl Panics"
  by (auto simp: append_change_def res_simps)

lemma compact_changes_ok:
  assumes comp: "compact_changes_through key t st = Inr (st', n)" and inv: "protocol_inv st"
  shows "protocol_inv st'" "log_extends st st'" "\<exists>ps. st' = st\<lparr>pr_partitions := ps\<rparr>"
proof -
  have "protocol_inv st' \<and> log_extends st st' \<and> (\<exists>ps. st' = st\<lparr>pr_partitions := ps\<rparr>)"
  proof (cases "st' = st")
    case True
    then show ?thesis using inv by (auto intro: exI [of _ "pr_partitions st"])
  next
    case False
    from comp obtain pn where pn: "map_of (pr_partitions st) key = Some pn"
      by (cases "map_of (pr_partitions st) key") (simp_all add: compact_changes_through_def)
    let ?pn' = "pn\<lparr>pn_changes := filter (\<lambda>(p, _). t < p) (pn_changes pn),
                    pn_compacted_through := t\<rparr>"
    from comp pn False have le: "pn_compacted_through pn \<le> t" "t \<le> pn_change_head pn"
      and st': "st' = st\<lparr>pr_partitions := AList.update key ?pn' (pr_partitions st)\<rparr>"
      by (auto simp: compact_changes_through_def Let_def split: if_splits)
    have "change_log_ok key pn" "generation_ok st key pn"
      by (rule protocol_inv_partition [OF inv pn])+
    then have "change_log_ok key ?pn'" "generation_ok st key ?pn'"
      using change_log_ok_compact [OF _ le] by (simp_all add: generation_ok_def)
    from update_partition_inv [OF inv pn this _ _ _ st'] le show ?thesis
      by (auto simp: st')
  qed
  then show "protocol_inv st'" "log_extends st st'" "\<exists>ps. st' = st\<lparr>pr_partitions := ps\<rparr>"
    by simp_all
qed

lemma compact_changes_total:
  assumes "protocol_inv st" "map_of (pr_partitions st) key = Some pn" "t \<le> pn_change_head pn"
  shows "\<exists>st'. compact_changes_through key t st = Inr (st', max t (pn_compacted_through pn))"
proof -
  have "change_log_ok key pn"
    by (rule protocol_inv_partition(1) [OF assms(1,2)])
  from change_log_count [OF this] assms show ?thesis
    by (auto simp: compact_changes_through_def Let_def max_def)
qed

section \<open>Records keep the invariant\<close>

abbreviation live_id :: "record_scope \<Rightarrow> topology_id \<times> string \<times> byte list" where
  "live_id sc \<equiv> (sc_topology sc, sc_model sc, sc_key_digest sc)"

lemma live_ids_simps [simp]:
  "live_ids [] = []"
  "live_ids ((sc, md) # m) = (if md_tombstone md then live_ids m else live_id sc # live_ids m)"
  by (simp_all add: live_ids_def)

lemma set_live_ids_update:
  "set (live_ids (AList.update k md m)) \<subseteq>
     set (live_ids m) \<union> (if md_tombstone md then {} else {live_id k})"
proof (induction m)
  case (Cons a m)
  then show ?case by (cases a) auto
qed simp

lemma live_ids_no_clash:
  assumes "find (live_identity_clash k) m = None" "k \<notin> fst ` set m"
  shows "live_id k \<notin> set (live_ids m)"
  using assms
proof (induction m)
  case (Cons a m)
  then show ?case
    by (cases a) (auto simp: live_identity_clash_def split: if_splits)
qed simp

lemma distinct_live_ids_update:
  assumes "hm_wf m" "distinct (live_ids m)"
    and "\<not> md_tombstone md \<Longrightarrow> find (live_identity_clash k) m = None"
  shows "distinct (live_ids (AList.update k md m))"
  using assms
proof (induction m)
  case (Cons a m)
  obtain sc d where a: "a = (sc, d)" by (cases a)
  show ?case
  proof (cases "sc = k")
    case True
    then have "k \<notin> fst ` set m" using Cons.prems(1) a by auto
    then have "\<not> md_tombstone md \<Longrightarrow> live_id k \<notin> set (live_ids m)"
      using Cons.prems(3) a live_ids_no_clash by (auto split: if_splits)
    moreover have "distinct (live_ids m)"
      using Cons.prems(2) a by (auto split: if_splits)
    ultimately show ?thesis using True a by simp
  next
    case False
    have rest: "distinct (live_ids (AList.update k md m))"
    proof (rule Cons.IH)
      show "find (live_identity_clash k) m = None" if "\<not> md_tombstone md"
        using Cons.prems(3) [OF that] by (simp split: if_splits)
    qed (use Cons.prems(1,2) a in \<open>auto split: if_splits\<close>)
    have "live_id sc \<notin> set (live_ids m)" if "\<not> md_tombstone d"
      using Cons.prems(2) a that by auto
    moreover have "live_id sc \<noteq> live_id k" if "\<not> md_tombstone d" "\<not> md_tombstone md"
      using Cons.prems(3) [OF that(2)] a that(1) False
      by (auto simp: live_identity_clash_def split: if_splits)
    ultimately have "live_id sc \<notin> set (live_ids (AList.update k md m))" if "\<not> md_tombstone d"
      using that set_live_ids_update [of k md m] by (auto split: if_splits)
    with rest False a show ?thesis by simp
  qed
qed simp

lemma insert_record_inv:
  assumes inv: "protocol_inv st" and ok: "record_ok st scope md"
    and live: "ensure_live_record_identity_available st md = Inr u"
    and st': "st' = st\<lparr>pr_records := AList.update scope md (pr_records st)\<rparr>"
  shows "protocol_inv st'" "log_extends st st'"
proof -
  show ext: "log_extends st st'"
    by (simp add: log_extends_def st' split: option.splits)
  have rec: "record_ok st' = record_ok st" and gen: "generation_ok st' = generation_ok st"
    by (simp_all add: record_ok_def cursor_issued_def generation_ok_def st' fun_eq_iff)
  have "rr_scope (md_revision md) = scope"
    using ok by (simp add: record_ok_def)
  then have "\<not> md_tombstone md \<Longrightarrow> find (live_identity_clash scope) (pr_records st) = None"
    using live by (auto simp: ensure_live_record_identity_available_def Let_def
        split: option.splits if_splits)
  then have "distinct (live_ids (pr_records st'))"
    using inv distinct_live_ids_update by (simp add: st' protocol_inv_def)
  then show "protocol_inv st'"
    using inv ok rec gen by (simp add: protocol_inv_def st' hm_all_update)
qed

lemma new_revision_ok [res_simps]:
  "new_revision scope i r = Inr x \<longleftrightarrow>
     x = \<lparr>rr_scope = scope, rr_incarnation = i, rr_revision = r\<rparr> \<and>
     0 < i \<and> i \<le> MAX_PROJECTION_POSITION \<and> 0 < r \<and> r \<le> MAX_PROJECTION_POSITION"
  by (simp add: new_revision_def res_simps)

lemma next_record_ok:
  assumes "next_record st scope ex kind = Inr (r, tomb)"
  shows "rr_scope r = scope" "tomb \<longleftrightarrow> kind = DeleteKind"
    "0 < rr_incarnation r \<and> rr_incarnation r \<le> MAX_PROJECTION_POSITION \<and>
     0 < rr_revision r \<and> rr_revision r \<le> MAX_PROJECTION_POSITION"
    "case map_of (pr_records st) scope of
       None \<Rightarrow> ex = ExpectMissing \<and> kind = UpsertKind \<and> rr_incarnation r = 1 \<and> rr_revision r = 1
     | Some md \<Rightarrow> ex = ExpectExact (md_revision md) \<and> (md_tombstone md \<longleftrightarrow> kind = RecreateKind) \<and>
         (rr_incarnation (md_revision md), rr_revision (md_revision md))
           < (rr_incarnation r, rr_revision r)"
  using assms
  by (cases ex; cases kind; cases "map_of (pr_records st) scope";
      fastforce simp: next_record_def res_simps Let_def split: if_splits)+

section \<open>Ownership keeps the invariant\<close>

lemma bind_ownership_ok:
  assumes "bind_ownership key st d = Inr st'"
  shows "\<exists>ows. st' = st\<lparr>pr_ownership := ows\<rparr>"
  using assms by (auto simp: bind_ownership_def Let_def res_simps split: option.splits)

lemma bind_ownerships_ok:
  assumes "try_fold (bind_ownership key) st ds = Inr st'"
  shows "\<exists>ows. st' = st\<lparr>pr_ownership := ows\<rparr>"
  using assms
proof (induction ds arbitrary: st)
  case Nil
  then show ?case by (auto intro: exI [of _ "pr_ownership st"])
next
  case (Cons d ds)
  then obtain mid where "bind_ownership key st d = Inr mid"
    and "try_fold (bind_ownership key) mid ds = Inr st'"
    by (auto simp: res_simps)
  with Cons.IH bind_ownership_ok [of key st d mid] show ?case by force
qed

lemma register_ownership_ok:
  assumes "register_ownership key b st = Inr st'"
  shows "\<exists>ows. st' = st\<lparr>pr_ownership := ows\<rparr>"
  using assms bind_ownerships_ok [of key st "pb_ownership b" st']
  by (auto simp: register_ownership_def res_simps)

end
