(* ===== verification/Projection_Store.thy ===== *)
theory Projection_Store
  imports Projection_State
begin

text \<open>
  Transactions of the in-memory projection store
  (\<^verbatim>\<open>src/in_memory_repo/projection_protocol/store_impl.rs\<close>, \<^verbatim>\<open>direct_projection.rs\<close>, \<^verbatim>\<open>util.rs\<close>):
  model registration, the asynchronous projection commit, terminal failures, repair, change
  compaction, the reads of the change log, and the same-transaction projection. A transaction
  works on a copy of the protocol state and publishes it at its end, so a refused transaction
  returns the store it was given.
\<close>

section \<open>The store\<close>

record projection_backend =
  pj_rows :: row_store
  pj_causal_tables :: "string set"
  pj_protocol :: protocol_state
  pj_inbox :: "(string \<times> string) set"
  pj_retention :: nat

text \<open>
  \<^verbatim>\<open>parse::<usize>\<close>: an optional plus sign and decimal digits within 64 bits.
\<close>

definition parse_usize :: "string \<Rightarrow> nat option" where
  "parse_usize s =
     (let ds = (case s of c # r \<Rightarrow> if c = CHR ''+'' then r else s | [] \<Rightarrow> s);
          n = foldl (\<lambda>acc c. acc * 10 + ((of_char c :: nat) - 48)) 0 ds
      in if ds = [] \<or> \<not> list_all is_digit ds \<or> u64_max < n then None else Some n)"

text \<open>
  The loop over the length-prefixed parts of a key fingerprint. A semicolon byte is a whole
  character of a UTF-8 string, so the character-boundary test after it always passes.
\<close>

function fingerprint_parts_ok :: "string \<Rightarrow> bool" where
  "fingerprint_parts_ok fp =
     (if fp = [] then True
      else
        let len = takeWhile (\<lambda>c. c \<noteq> CHR '':'') fp; rest = dropWhile (\<lambda>c. c \<noteq> CHR '':'') fp
        in case (rest, parse_usize len) of
             (_ # rest, Some n) \<Rightarrow>
               if n < length rest \<and> rest ! n = CHR '';'' then fingerprint_parts_ok (drop (Suc n) rest)
               else False
           | _ \<Rightarrow> False)"
  by pat_completeness auto
termination
proof (relation "measure length", goal_cases)
  case (2 fp len rest x y a b n)
  have "length (a # b) \<le> length fp"
    using 2 by (metis length_dropWhile_le prod.inject)
  with 2(1) show ?case by (cases fp) auto
qed simp

definition storage_key_belongs_to_table :: "string \<Rightarrow> string \<Rightarrow> bool" where
  "storage_key_belongs_to_table key table =
     (case strip_prefix (table @ '':'') key of
        None \<Rightarrow> False
      | Some fp \<Rightarrow> fp \<noteq> [] \<and> fingerprint_parts_ok fp)"

section \<open>Registration\<close>

definition register_declaration ::
  "row_store \<Rightarrow> topology_id \<Rightarrow> protocol_state \<Rightarrow> model_ownership \<Rightarrow> projection_error + protocol_state"
  where
  "register_declaration rows topology st d =
     (let key = \<lparr>rg_topology = topology, rg_model = ow_model d\<rparr> in
      rbind (case map_of (pr_table_owners st) (ow_table d) of
               Some previous \<Rightarrow>
                 if previous \<noteq> key
                 then Inl (invalid [''projection table `'', ow_table d,
                        ''` already has authoritative owner `'', rg_model previous,
                        ''` in another topology''])
                 else Inr ()
             | None \<Rightarrow>
                 if list_ex (\<lambda>(k, _). storage_key_belongs_to_table k (ow_table d)) rows
                 then Inl (invalid [''projection table `'', ow_table d,
                        ''` contains rows without causal metadata; rebuild or verified import is required before registration''])
                 else Inr ()) (\<lambda>_.
      rbind (case map_of (pr_registered_models st) key of
               Some previous \<Rightarrow>
                 if previous \<noteq> ow_table d
                 then Inl (invalid [''projection model `'', ow_model d,
                        ''` is already registered for table `'', previous, ''`''])
                 else Inr ()
             | None \<Rightarrow> Inr ()) (\<lambda>_.
      case find (\<lambda>(other, table). rg_topology other = topology \<and> table = ow_table d \<and>
                                   rg_model other \<noteq> ow_model d) (pr_registered_models st) of
        Some (other, _) \<Rightarrow>
          Inl (invalid [''projection table `'', ow_table d, ''` is already registered for model `'',
                        rg_model other, ''`''])
      | None \<Rightarrow>
          Inr (st\<lparr>pr_registered_models := AList.update key (ow_table d) (pr_registered_models st),
                  pr_table_owners := AList.update (ow_table d) key (pr_table_owners st)\<rparr>))))"

definition stage_registration ::
  "topology_id \<Rightarrow> model_ownership list \<Rightarrow> 'z projection_backend_scheme
     \<Rightarrow> projection_error + protocol_state" where
  "stage_registration topology ownership be =
     (if ownership = []
      then Inl (InvalidBatch ''projection topology bootstrap requires at least one model/table owner'')
      else rbind (validate_ownership_batch ownership) (\<lambda>_.
           try_fold (register_declaration (pj_rows be) topology)
             ((pj_protocol be)\<lparr>pr_registered_topologies :=
                insert topology (pr_registered_topologies (pj_protocol be))\<rparr>)
             ownership))"

definition register_projection_models ::
  "topology_id \<Rightarrow> model_ownership list \<Rightarrow> 'z projection_backend_scheme
     \<Rightarrow> 'z projection_backend_scheme \<times> (projection_error + unit)" where
  "register_projection_models topology ownership be =
     (case stage_registration topology ownership be of
        Inl e \<Rightarrow> (be, Inl e)
      | Inr st \<Rightarrow> (be\<lparr>pj_protocol := st,
                        pj_causal_tables := pj_causal_tables be \<union> set (map ow_table ownership)\<rparr>,
                     Inr ()))"

section \<open>Committing a projection\<close>

type_synonym staged = "protocol_state \<times> record_metadata list \<times> projection_change list"

definition record_change ::
  "change_kind \<Rightarrow> string \<Rightarrow> record_scope \<Rightarrow> record_revision \<Rightarrow> pending_change" where
  "record_change kind cause scope revision =
     \<lparr>pc_kind = kind, pc_causation_id = cause, pc_observation_kind = None, pc_scope = Some scope,
      pc_revision = Some revision, pc_failure_id = None\<rparr>"

definition stage_mutation ::
  "table_fmt \<Rightarrow> partition_key \<Rightarrow> string \<Rightarrow> row_store \<Rightarrow> staged \<Rightarrow> record_mutation \<Rightarrow> fault + staged" where
  "stage_mutation fmt key cause rows =
     (\<lambda>(st, records, changes) m.
      rbind (map_err Fails (next_record st (mu_scope m) (mu_expectation m) (mu_kind m)))
        (\<lambda>(revision, tombstone).
      rbind (map_err Fails (validate_physical_record (mu_scope m) (mu_expectation m) (mu_kind m)
               (hm_contains rows (lock_key fmt (mu_mutation m))))) (\<lambda>_.
      rbind (append_change key
               (record_change (change_kind_for_mutation (mu_kind m)) cause (mu_scope m) revision) st)
        (\<lambda>(st, change).
      let md = \<lparr>md_revision = revision, md_tombstone = tombstone, md_change = ch_cursor change\<rparr> in
      rbind (map_err Fails (ensure_live_record_identity_available st md)) (\<lambda>_.
      Inr (st\<lparr>pr_records := AList.update (mu_scope m) md (pr_records st)\<rparr>,
           records @ [md], changes @ [change]))))))"

definition check_row_left ::
  "table_fmt \<Rightarrow> row_store \<Rightarrow> record_mutation \<Rightarrow> projection_error + unit" where
  "check_row_left fmt rows m =
     (let exists = hm_contains rows (lock_key fmt (mu_mutation m)) in
      if exists \<noteq> (mu_kind m \<noteq> DeleteKind)
      then Inl (invalid [''projection table mutation left model `'', sc_model (mu_scope m),
                  ''` physical row '',
                  (if exists then ''present when deletion required absence''
                   else ''absent when persistence required presence'')])
      else Inr ())"

text \<open>
  Scope, revision and, for a record staged by this batch, the change cursor of an observation.
\<close>

definition resolve_observation ::
  "protocol_state \<Rightarrow> observation_target
     \<Rightarrow> fault + record_scope \<times> record_revision option \<times> change_cursor option" where
  "resolve_observation st target =
     (case target of
        StagedRecord scope \<Rightarrow>
          (case map_of (pr_records st) scope of
             None \<Rightarrow> Inl Panics
           | Some md \<Rightarrow> Inr (scope, Some (md_revision md), Some (md_change md)))
      | ExistingRecord expected \<Rightarrow>
          let scope = rr_scope expected in
          (case map_of (pr_records st) scope of
             None \<Rightarrow> Inl (Fails (RecordMissing (sc_model scope)))
           | Some md \<Rightarrow>
               let cur = md_revision md in
               if cur \<noteq> expected
               then Inl (Fails (RecordRevisionConflict (sc_model scope)
                           (rr_incarnation expected) (rr_revision expected)
                           (rr_incarnation cur) (rr_revision cur)))
               else Inr (scope, Some expected, None))
      | DependencyTarget scope \<Rightarrow> Inr (scope, None, None))"

definition stage_observation ::
  "partition_key \<Rightarrow> string \<Rightarrow> protocol_state \<times> projection_change list \<Rightarrow> observation_request
     \<Rightarrow> fault + protocol_state \<times> projection_change list" where
  "stage_observation key cause =
     (\<lambda>(st, changes) r.
      rbind (resolve_observation st (oq_target r)) (\<lambda>(scope, revision, staged_change).
      let okey = \<lparr>vk_causation_id = cause, vk_scope = scope, vk_kind = oq_kind r\<rparr> in
      if hm_contains (pr_observations st) okey then Inr (st, changes)
      else
        rbind (case staged_change of
                 Some cursor \<Rightarrow> Inr (st, changes, cursor)
               | None \<Rightarrow>
                   rbind (append_change key
                            \<lparr>pc_kind = ObservationChange, pc_causation_id = cause,
                             pc_observation_kind = Some (oq_kind r), pc_scope = Some scope,
                             pc_revision = revision, pc_failure_id = None\<rparr> st) (\<lambda>(st, change).
                   Inr (st, changes @ [change], ch_cursor change))) (\<lambda>(st, changes, cursor).
        Inr (st\<lparr>pr_observations :=
                  AList.update okey
                    \<lparr>po_causation_id = cause, po_kind = oq_kind r, po_revision = revision,
                     po_scope = scope, po_change = cursor\<rparr> (pr_observations st)\<rparr>,
             changes))))"

definition checkpoint_change :: "string \<Rightarrow> pending_change" where
  "checkpoint_change cause =
     \<lparr>pc_kind = CheckpointChange, pc_causation_id = cause, pc_observation_kind = None,
      pc_scope = None, pc_revision = None, pc_failure_id = None\<rparr>"

definition last_change :: "projection_change list \<Rightarrow> fault + projection_change" where
  "last_change changes = (if changes = [] then Inl Panics else Inr (last changes))"

definition clear_pending_retry :: "partition_key \<Rightarrow> protocol_state \<Rightarrow> fault + protocol_state" where
  "clear_pending_retry key st =
     (case map_of (pr_partitions st) key of
        None \<Rightarrow> Inl Panics
      | Some pn \<Rightarrow> Inr (st\<lparr>pr_partitions :=
                           AList.update key (pn\<lparr>pn_pending_retry_failure_id := None\<rparr>)
                             (pr_partitions st)\<rparr>))"

definition note_input :: "trusted_input \<Rightarrow> checkpoint \<Rightarrow> protocol_state \<Rightarrow> protocol_state" where
  "note_input i cp st =
     (let st = st\<lparr>pr_inputs :=
                    AList.update (input_key_new (ti_cursor i) (ti_generation i))
                      \<lparr>sn_cursor = ti_cursor i, sn_fingerprint = ti_fingerprint i,
                       sn_message_id = ti_message_id i, sn_causation_id = ti_causation_id i,
                       sn_checkpoint = cp, sn_gap_free = ti_gap_free i\<rparr> (pr_inputs st)\<rparr>;
          st = persist_input_identity i st
      in st\<lparr>pr_applied_receipts :=
              AList.update (cursor_receipt_key_new (ti_cursor i) (ti_generation i))
                \<lparr>ar_fingerprint = ti_fingerprint i, ar_message_id = ti_message_id i,
                 ar_causation_id = ti_causation_id i, ar_gap_free = ti_gap_free i,
                 ar_checkpoint = cp\<rparr> (pr_applied_receipts st)\<rparr>)"

definition touched_rows ::
  "table_fmt \<Rightarrow> record_mutation list \<Rightarrow> projection_error + string list" where
  "touched_rows fmt ms =
     try_fold (\<lambda>touched m.
        let k = lock_key fmt (mu_mutation m) in
        if k \<in> set touched
        then Inl (invalid [''projection batch repeats table row `'', k, ''`''])
        else Inr (touched @ [k])) [] ms"

definition select_rows :: "string list \<Rightarrow> row_store \<Rightarrow> row_store" where
  "select_rows keys rows = List.map_filter (\<lambda>k. map_option (Pair k) (map_of rows k)) keys"

definition merge_rows :: "string list \<Rightarrow> row_store \<Rightarrow> row_store \<Rightarrow> row_store" where
  "merge_rows keys staged rows =
     foldl (\<lambda>rows k. case map_of staged k of
                        Some row \<Rightarrow> AList.update k row rows
                      | None \<Rightarrow> AList.delete k rows) rows keys"

text \<open>Everything a new input stages; the last component is published when it succeeds.\<close>

definition stage_commit ::
  "table_fmt \<Rightarrow> projection_batch \<Rightarrow> 'z projection_backend_scheme
     \<Rightarrow> fault + protocol_state \<times> row_store \<times> commit_result" where
  "stage_commit fmt b be =
     (let i = pb_input b; key = from_input (ti_cursor i); cause = ti_causation_id i in
      rbind (map_err Fails (ensure_partition key (pb_change_epoch b) (pj_protocol be))) (\<lambda>st.
      let st = st\<lparr>pr_gap_free_capabilities :=
                    or_insert (source_capability_key_new (ti_cursor i)) (ti_gap_free i)
                      (pr_gap_free_capabilities st)\<rparr> in
      rbind (map_err Fails (register_ownership key b st)) (\<lambda>st.
      rbind (map_err Fails (touched_rows fmt (pb_mutations b))) (\<lambda>touched.
      let rows = select_rows touched (pj_rows be) in
      rbind (try_fold (stage_mutation fmt key cause rows) (st, [], []) (pb_mutations b))
        (\<lambda>(st, records, changes).
      rbind (map_err (\<lambda>e. Fails (PTable e))
               (apply_read_model_write_plan fmt (map mu_mutation (pb_mutations b)) rows)) (\<lambda>rows.
      rbind (map_err Fails (try_each (check_row_left fmt rows) (pb_mutations b))) (\<lambda>_.
      rbind (try_fold (stage_observation key cause) (st, changes) (pb_observations b))
        (\<lambda>(st, changes).
      rbind (if changes = []
             then rbind (append_change key (checkpoint_change cause) st) (\<lambda>(st, change).
                    Inr (st, [change]))
             else Inr (st, changes)) (\<lambda>(st, changes).
      rbind (last_change changes) (\<lambda>final.
      rbind (map_err (\<lambda>e. Fails (PValidation e))
               (checkpoint_new (ti_cursor i) (ch_cursor final) (ti_gap_free i))) (\<lambda>cp.
      rbind (clear_pending_retry key (note_input i cp st)) (\<lambda>st.
      rbind (map_err Fails (retain_change_suffix key (pj_retention be) st)) (\<lambda>(st, _).
      Inr (st, merge_rows touched rows (pj_rows be),
           \<lparr>cr_outcome = Applied, cr_checkpoint = Some cp, cr_records = records,
            cr_changes = changes\<rparr>))))))))))))))"

text \<open>The decision about an input, before anything is staged.\<close>

definition admit_input ::
  "system_time \<Rightarrow> projection_batch \<Rightarrow> 'z projection_backend_scheme
     \<Rightarrow> projection_error + input_disposition" where
  "admit_input now b be =
     (let i = pb_input b; key = from_input (ti_cursor i); st = pj_protocol be;
          receipt = input_inbox_receipt now i in
      rbind (validate_projection_batch now b) (\<lambda>_.
      rbind (validate_partition st key i (pb_change_epoch b)) (\<lambda>_.
      rbind (classify_input st i) (\<lambda>d.
      case d of
        NewInput \<Rightarrow>
          rbind (validate_pending_retry st key i) (\<lambda>_.
          rbind (map_err PRepository (validate_receipt receipt)) (\<lambda>_.
          if receipt_key receipt \<in> pj_inbox be then Inl (MessageIdReuse (ti_message_id i))
          else Inr NewInput))
      | DuplicateOf cp \<Rightarrow> Inr (DuplicateOf cp)
      | StaleAfter cp \<Rightarrow> Inr (StaleAfter cp)))))"

definition commit_projection ::
  "table_fmt \<Rightarrow> system_time \<Rightarrow> projection_batch \<Rightarrow> 'z projection_backend_scheme
     \<Rightarrow> 'z projection_backend_scheme \<times> (fault + commit_result)" where
  "commit_projection fmt now b be =
     (case admit_input now b be of
        Inl e \<Rightarrow> (be, Inl (Fails e))
      | Inr (DuplicateOf cp) \<Rightarrow> (be, Inr (not_applied DuplicateInput (Some cp)))
      | Inr (StaleAfter cp) \<Rightarrow> (be, Inr (not_applied StaleInput (Some cp)))
      | Inr NewInput \<Rightarrow>
          (case stage_commit fmt b be of
             Inl e \<Rightarrow> (be, Inl e)
           | Inr (st, rows, res) \<Rightarrow>
               (be\<lparr>pj_rows := rows, pj_protocol := st,
                   pj_inbox := insert (receipt_key (input_inbox_receipt now (pb_input b))) (pj_inbox be)\<rparr>,
                Inr res)))"

section \<open>Terminal failures and repair\<close>

definition stop_partition :: "partition_key \<Rightarrow> string \<Rightarrow> protocol_state \<Rightarrow> fault + protocol_state" where
  "stop_partition key f st =
     (case map_of (pr_partitions st) key of
        None \<Rightarrow> Inl Panics
      | Some pn \<Rightarrow> Inr (st\<lparr>pr_partitions :=
                           AList.update key (pn\<lparr>pn_stopped_failure_id := Some f,
                                               pn_pending_retry_failure_id := None\<rparr>)
                             (pr_partitions st)\<rparr>))"

definition failure_of :: "failure_batch \<Rightarrow> change_cursor \<Rightarrow> projection_failure" where
  "failure_of b cursor =
     (let i = fb_input b in
      \<lparr>pf_failure_id = fb_failure_id b, pf_input = ti_cursor i, pf_input_fingerprint = ti_fingerprint i,
       pf_message_id = ti_message_id i, pf_causation_id = ti_causation_id i,
       pf_generation = ti_generation i, pf_gap_free = ti_gap_free i,
       pf_failure_code = fb_failure_code b, pf_failure_bytes = fb_failure_bytes b,
       pf_failure_digest = fb_failure_digest b, pf_change = cursor\<rparr>)"

definition stage_failure ::
  "failure_batch \<Rightarrow> nat \<Rightarrow> protocol_state \<Rightarrow> fault + protocol_state \<times> projection_failure" where
  "stage_failure b retention st =
     (let i = fb_input b; key = from_input (ti_cursor i); f = fb_failure_id b in
      rbind (map_err Fails (ensure_partition key (fb_change_epoch b) st)) (\<lambda>st.
      let st = st\<lparr>pr_gap_free_capabilities :=
                    or_insert (source_capability_key_new (ti_cursor i)) (ti_gap_free i)
                      (pr_gap_free_capabilities st)\<rparr> in
      rbind (append_change key
               \<lparr>pc_kind = FailureChange, pc_causation_id = ti_causation_id i,
                pc_observation_kind = None, pc_scope = None, pc_revision = None,
                pc_failure_id = Some f\<rparr> st) (\<lambda>(st, change).
      let failure = failure_of b (ch_cursor change) in
      rbind (stop_partition key f st) (\<lambda>st.
      let st = persist_input_identity i st;
          st = st\<lparr>pr_failure_inputs := AList.update f (fence_from_input i) (pr_failure_inputs st),
                  pr_failures := AList.update f failure (pr_failures st)\<rparr> in
      rbind (map_err Fails (retain_change_suffix key retention st)) (\<lambda>(st, _).
      Inr (st, failure))))))"

text \<open>The checks of a failure for a partition that is not stopped.\<close>

definition admit_failure ::
  "system_time \<Rightarrow> failure_batch \<Rightarrow> 'z projection_backend_scheme \<Rightarrow> projection_error + unit" where
  "admit_failure now b be =
     (let i = fb_input b; key = from_input (ti_cursor i); st = pj_protocol be; f = fb_failure_id b;
          receipt = input_inbox_receipt now i;
          processed = InvalidBatch ''cannot record terminal failure for an already processed input'' in
      if hm_contains (pr_failures st) f
      then Inl (invalid [''projection failure ID `'', f, ''` is already bound to another failure''])
      else
        rbind (validate_partition st key i (fb_change_epoch b)) (\<lambda>_.
        rbind (classify_input st i) (\<lambda>d.
        case d of
          NewInput \<Rightarrow>
            rbind (validate_pending_retry st key i) (\<lambda>_.
            rbind (map_err PRepository (validate_receipt receipt)) (\<lambda>_.
            if receipt_key receipt \<in> pj_inbox be then Inl (MessageIdReuse (ti_message_id i))
            else Inr ()))
        | DuplicateOf cp \<Rightarrow> Inl processed
        | StaleAfter cp \<Rightarrow> Inl processed)))"

text \<open>
  The checks before anything is staged: \<^const>\<open>Some\<close> is the failure already recorded for an exact
  repetition of the call.
\<close>

definition check_failure ::
  "(byte list \<Rightarrow> byte list) \<Rightarrow> system_time \<Rightarrow> failure_batch \<Rightarrow> 'z projection_backend_scheme
     \<Rightarrow> projection_error + projection_failure option" where
  "check_failure sha now b be =
     (let i = fb_input b; key = from_input (ti_cursor i); st = pj_protocol be; f = fb_failure_id b;
          proceed = rbind (admit_failure now b be) (\<lambda>_. Inr None)
      in
      rbind (validate_failure_batch sha now b) (\<lambda>_.
      rbind (require_registered_topology st (ic_topology (ti_cursor i))) (\<lambda>_.
      rbind (validate_known_input_identity st i) (\<lambda>_.
      case map_of (pr_partitions st) key of
        None \<Rightarrow> proceed
      | Some pn \<Rightarrow>
          if ti_generation i \<noteq> pn_active_generation pn
          then Inl (GenerationFenced (pn_active_generation pn) (ti_generation i))
          else
            rbind (validate_gap_free st (ti_cursor i) (ti_gap_free i)) (\<lambda>_.
            rbind (validate_input_identity st i) (\<lambda>_.
            case pn_stopped_failure_id pn of
              None \<Rightarrow> proceed
            | Some stopped \<Rightarrow>
                (case map_of (pr_failures st) stopped of
                   Some existing \<Rightarrow>
                     if stopped = f \<and> failure_matches_batch existing b \<and>
                        (case map_of (pr_failure_inputs st) stopped of
                           Some fence \<Rightarrow> ff_generation fence = ti_generation i \<and> matches_retry fence i
                         | None \<Rightarrow> False) \<and>
                        has_exact_message_identity st i
                     then Inr (Some existing)
                     else Inl (PartitionStopped stopped)
                 | None \<Rightarrow> Inl (PartitionStopped stopped))))))))"

definition record_projection_failure ::
  "(byte list \<Rightarrow> byte list) \<Rightarrow> system_time \<Rightarrow> failure_batch \<Rightarrow> 'z projection_backend_scheme
     \<Rightarrow> 'z projection_backend_scheme \<times> (fault + projection_failure)" where
  "record_projection_failure sha now b be =
     (case check_failure sha now b be of
        Inl e \<Rightarrow> (be, Inl (Fails e))
      | Inr (Some existing) \<Rightarrow> (be, Inr existing)
      | Inr None \<Rightarrow>
          (case stage_failure b (pj_retention be) (pj_protocol be) of
             Inl e \<Rightarrow> (be, Inl e)
           | Inr (st, failure) \<Rightarrow>
               (be\<lparr>pj_protocol := st,
                   pj_inbox := insert (receipt_key (input_inbox_receipt now (fb_input b))) (pj_inbox be)\<rparr>,
                Inr failure)))"

definition copy_inputs ::
  "partition_key \<Rightarrow> nat \<Rightarrow> nat \<Rightarrow> (input_key, stored_input) hashmap \<Rightarrow> (input_key, stored_input) hashmap"
  where
  "copy_inputs key g g' inputs =
     foldl (\<lambda>m (k, v). AList.update (k\<lparr>ik_generation := g'\<rparr>) v m) inputs
       (filter (\<lambda>(k, _). ik_partition k = key \<and> ik_generation k = g) inputs)"

definition check_repair ::
  "protocol_state \<Rightarrow> topology_id \<Rightarrow> partition \<Rightarrow> string \<Rightarrow> projection_error + partition_state \<times> nat" where
  "check_repair st topology part f =
     (let key = partition_key_new topology part in
      case map_of (pr_partitions st) key of
        None \<Rightarrow> Inl (InvalidBatch ''cannot repair an unknown projection partition'')
      | Some pn \<Rightarrow>
          rbind (case pn_stopped_failure_id pn of
                   None \<Rightarrow> Inl (InvalidBatch ''projection partition is not stopped'')
                 | Some stopped \<Rightarrow> if stopped = f then Inr () else Inl (PartitionStopped stopped)) (\<lambda>_.
          case map_of (pr_failures st) f of
            None \<Rightarrow> Inl (invalid [''stopped projection failure `'', f, ''` is missing''])
          | Some failure \<Rightarrow>
              if ic_topology (pf_input failure) \<noteq> topology \<or> ic_partition (pf_input failure) \<noteq> part
              then Inl (ScopeMismatch ''projection repair failure'')
              else if pf_generation failure \<noteq> pn_active_generation pn
              then Inl (invalid [''stopped failure generation '', show_nat (pf_generation failure),
                     '' differs from active generation '', show_nat (pn_active_generation pn)])
              else (case map_of (pr_failure_inputs st) f of
                None \<Rightarrow> Inl (invalid [''stopped projection failure `'', f,
                              ''` has no exact input fence''])
              | Some fence \<Rightarrow>
                  if ff_generation fence \<noteq> pn_active_generation pn \<or>
                     ff_cursor fence \<noteq> pf_input failure \<or>
                     ff_fingerprint fence \<noteq> pf_input_fingerprint failure \<or>
                     ff_message_id fence \<noteq> pf_message_id failure \<or>
                     ff_causation_id fence \<noteq> pf_causation_id failure
                  then Inl (invalid [''stopped projection failure `'', f,
                         ''` input fence is corrupt''])
                  else
                    rbind (generation_checked_next (pn_active_generation pn)) (\<lambda>next.
                    if hm_contains (pr_generations st) \<lparr>gk_partition = key, gk_generation = next\<rparr>
                    then Inl (invalid [''projection repair generation '', show_nat next,
                           '' already exists''])
                    else if list_ex (\<lambda>(gk, l). gk_partition gk = key \<and>
                              gl_retry_of_failure_id l = Some f) (pr_generations st)
                    then Inl (invalid [''stopped failure `'', f,
                           ''` already has a repair generation''])
                    else Inr (pn, next)))))"

definition repair_projection ::
  "topology_id \<Rightarrow> partition \<Rightarrow> string \<Rightarrow> 'z projection_backend_scheme
     \<Rightarrow> 'z projection_backend_scheme \<times> (projection_error + nat)" where
  "repair_projection topology part f be =
     (let key = partition_key_new topology part; st = pj_protocol be in
      case check_repair st topology part f of
        Inl e \<Rightarrow> (be, Inl e)
      | Inr (pn, next) \<Rightarrow>
          (be\<lparr>pj_protocol := st\<lparr>
               pr_inputs := copy_inputs key (pn_active_generation pn) next (pr_inputs st),
               pr_generations :=
                 AList.update \<lparr>gk_partition = key, gk_generation = next\<rparr>
                   (lineage_retry_of (pn_active_generation pn) f) (pr_generations st),
               pr_partitions :=
                 AList.update key (pn\<lparr>pn_active_generation := next, pn_stopped_failure_id := None,
                                     pn_pending_retry_failure_id := Some f\<rparr>) (pr_partitions st)\<rparr>\<rparr>,
           Inr next))"

section \<open>Reads\<close>

definition projection_checkpoint ::
  "input_cursor \<Rightarrow> nat \<Rightarrow> 'z projection_backend_scheme \<Rightarrow> projection_error + checkpoint option" where
  "projection_checkpoint cursor g be =
     (case map_of (pr_inputs (pj_protocol be)) (input_key_new cursor g) of
        None \<Rightarrow> Inr None
      | Some i \<Rightarrow>
          if input_compare_position cursor (sn_cursor i) = Incomparable then Inl IncomparableInput
          else Inr (Some (sn_checkpoint i)))"

definition projection_record ::
  "record_scope \<Rightarrow> 'z projection_backend_scheme \<Rightarrow> record_metadata option" where
  "projection_record scope be = map_of (pr_records (pj_protocol be)) scope"

datatype runtime_disposition = Pending | DuplicateDisposition checkpoint | StaleDisposition checkpoint

definition projection_input_disposition ::
  "trusted_input \<Rightarrow> 'z projection_backend_scheme \<Rightarrow> projection_error + runtime_disposition" where
  "projection_input_disposition i be =
     (let st = pj_protocol be; key = from_input (ti_cursor i) in
      rbind (require_registered_topology st (ic_topology (ti_cursor i))) (\<lambda>_.
      rbind (validate_known_input_identity st i) (\<lambda>_.
      case map_of (pr_partitions st) key of
        None \<Rightarrow>
          if ti_generation i \<noteq> generation_initial
          then Inl (GenerationFenced generation_initial (ti_generation i))
          else rbind (validate_gap_free st (ti_cursor i) (ti_gap_free i)) (\<lambda>_.
               rbind (validate_input_identity st i) (\<lambda>_. Inr Pending))
      | Some pn \<Rightarrow>
          if ti_generation i \<noteq> pn_active_generation pn
          then Inl (GenerationFenced (pn_active_generation pn) (ti_generation i))
          else if \<not> hm_contains (pr_generations st)
                     \<lparr>gk_partition = key, gk_generation = ti_generation i\<rparr>
          then Inl (invalid [''active projection generation '', show_nat (ti_generation i),
                             '' has no durable lineage''])
          else
            rbind (validate_gap_free st (ti_cursor i) (ti_gap_free i)) (\<lambda>_.
            rbind (validate_input_identity st i) (\<lambda>_.
            case pn_stopped_failure_id pn of
              Some f \<Rightarrow> Inl (PartitionStopped f)
            | None \<Rightarrow>
                rbind (classify_input st i) (\<lambda>d.
                case d of
                  DuplicateOf cp \<Rightarrow> Inr (DuplicateDisposition cp)
                | StaleAfter cp \<Rightarrow> Inr (StaleDisposition cp)
                | NewInput \<Rightarrow> rbind (validate_pending_retry st key i) (\<lambda>_. Inr Pending)))))))"

record pending_retry =
  py_failure_id :: string
  py_input :: input_cursor
  py_input_fingerprint :: "byte list"
  py_message_id :: string
  py_causation_id :: string
  py_failed_generation :: nat
  py_gap_free :: bool

record partition_runtime_state =
  pu_active_generation :: nat
  pu_stopped_failure_id :: "string option"
  pu_pending_retry :: "pending_retry option"

definition pending_retry_of ::
  "protocol_state \<Rightarrow> topology_id \<Rightarrow> partition \<Rightarrow> partition_state \<Rightarrow> string \<Rightarrow> projection_error + pending_retry"
  where
  "pending_retry_of st topology part pn f =
     rbind (ok_or (invalid [''pending projection retry failure `'', f, ''` is missing''])
              (map_of (pr_failures st) f)) (\<lambda>failure.
     rbind (ok_or (invalid [''pending projection retry failure `'', f, ''` has no input fence''])
              (map_of (pr_failure_inputs st) f)) (\<lambda>fence.
     let corrupt = invalid [''pending projection retry failure `'', f, ''` is corrupt''] in
     if pn_stopped_failure_id pn \<noteq> None \<or> pf_failure_id failure \<noteq> f \<or>
        ic_topology (pf_input failure) \<noteq> topology \<or> ic_partition (pf_input failure) \<noteq> part
     then Inl corrupt
     else
       rbind (generation_checked_next (pf_generation failure)) (\<lambda>next.
       if next \<noteq> pn_active_generation pn \<or> ff_cursor fence \<noteq> pf_input failure \<or>
          ff_fingerprint fence \<noteq> pf_input_fingerprint failure \<or>
          ff_message_id fence \<noteq> pf_message_id failure \<or>
          ff_causation_id fence \<noteq> pf_causation_id failure \<or>
          ff_generation fence \<noteq> pf_generation failure \<or> ff_gap_free fence \<noteq> pf_gap_free failure
       then Inl corrupt
       else Inr \<lparr>py_failure_id = f, py_input = pf_input failure,
                 py_input_fingerprint = pf_input_fingerprint failure,
                 py_message_id = pf_message_id failure, py_causation_id = pf_causation_id failure,
                 py_failed_generation = pf_generation failure, py_gap_free = pf_gap_free failure\<rparr>)))"

definition projection_partition_runtime_state ::
  "topology_id \<Rightarrow> partition \<Rightarrow> 'z projection_backend_scheme
     \<Rightarrow> projection_error + partition_runtime_state option" where
  "projection_partition_runtime_state topology part be =
     (let st = pj_protocol be in
      case map_of (pr_partitions st) (partition_key_new topology part) of
        None \<Rightarrow> Inr None
      | Some pn \<Rightarrow>
          rbind (case pn_pending_retry_failure_id pn of
                   None \<Rightarrow> Inr None
                 | Some f \<Rightarrow> rbind (pending_retry_of st topology part pn f) (\<lambda>r. Inr (Some r)))
            (\<lambda>retry.
          Inr (Some \<lparr>pu_active_generation = pn_active_generation pn,
                     pu_stopped_failure_id = pn_stopped_failure_id pn,
                     pu_pending_retry = retry\<rparr>)))"

definition observation_lookup ::
  "string \<Rightarrow> record_scope \<Rightarrow> observation_kind \<Rightarrow> 'z projection_backend_scheme
     \<Rightarrow> projection_observation option" where
  "observation_lookup cause scope kind be =
     map_of (pr_observations (pj_protocol be))
       \<lparr>vk_causation_id = cause, vk_scope = scope, vk_kind = kind\<rparr>"

datatype change_read =
    Changes "change_cursor option" nat "projection_change list"
  | ResetRequired "change_cursor option" nat

definition projection_changes ::
  "topology_id \<Rightarrow> partition \<Rightarrow> change_cursor option \<Rightarrow> nat \<Rightarrow> 'z projection_backend_scheme
     \<Rightarrow> projection_error + change_read" where
  "projection_changes topology part after limit be =
     (case map_of (pr_partitions (pj_protocol be)) (partition_key_new topology part) of
        None \<Rightarrow> Inr (case after of Some _ \<Rightarrow> ResetRequired None 0 | None \<Rightarrow> Changes None 0 [])
      | Some pn \<Rightarrow>
          rbind (if pn_change_head pn = 0 then Inr None
                 else rbind (map_err PValidation
                        (change_cursor_new topology part (pn_change_epoch pn) (pn_change_head pn)))
                        (\<lambda>c. Inr (Some c))) (\<lambda>head.
          let reset = Inr (ResetRequired head (pn_compacted_through pn));
              read = (\<lambda>position.
                Inr (Changes head (pn_compacted_through pn)
                  (if limit = 0 then []
                   else map snd (take limit (filter (\<lambda>(p, _). position < p) (pn_changes pn))))))
          in case after of
               None \<Rightarrow> if 0 < pn_compacted_through pn then reset else read 0
             | Some c \<Rightarrow>
                 if cc_topology c \<noteq> topology \<or> cc_partition c \<noteq> part \<or>
                    cc_epoch c \<noteq> pn_change_epoch pn \<or> pn_change_head pn < cc_position c \<or>
                    cc_position c < pn_compacted_through pn
                 then reset else read (cc_position c)))"

definition compact_projection_changes ::
  "change_cursor \<Rightarrow> 'z projection_backend_scheme
     \<Rightarrow> 'z projection_backend_scheme \<times> (projection_error + nat)" where
  "compact_projection_changes through be =
     (let st = pj_protocol be; key = partition_key_new (cc_topology through) (cc_partition through) in
      case map_of (pr_partitions st) key of
        None \<Rightarrow> (be, Inl (InvalidBatch ''cannot compact an unknown projection partition''))
      | Some pn \<Rightarrow>
          if cc_epoch through \<noteq> pn_change_epoch pn
          then (be, Inl (ScopeMismatch ''projection compaction epoch''))
          else if pn_change_head pn < cc_position through
          then (be, Inl (InvalidBatch ''cannot compact beyond the projection change head''))
          else (case compact_changes_through key (cc_position through) st of
                  Inl e \<Rightarrow> (be, Inl e)
                | Inr (st, n) \<Rightarrow> (be\<lparr>pj_protocol := st\<rparr>, Inr n)))"

definition failure_lookup ::
  "topology_id \<Rightarrow> partition \<Rightarrow> string \<Rightarrow> 'z projection_backend_scheme \<Rightarrow> projection_failure option"
  where
  "failure_lookup topology part f be =
     (case map_of (pr_failures (pj_protocol be)) f of
        Some failure \<Rightarrow>
          if ic_topology (pf_input failure) = topology \<and> ic_partition (pf_input failure) = part
          then Some failure else None
      | None \<Rightarrow> None)"

definition projection_failure_location ::
  "string \<Rightarrow> 'z projection_backend_scheme \<Rightarrow> (topology_id \<times> partition) option" where
  "projection_failure_location f be =
     map_option (\<lambda>failure. (ic_topology (pf_input failure), ic_partition (pf_input failure)))
       (map_of (pr_failures (pj_protocol be)) f)"

section \<open>Same-transaction projection\<close>

record direct_evidence =
  se_records :: "record_metadata list"
  se_changes :: "projection_change list"
  se_observations :: "projection_observation list"

definition direct_revision ::
  "protocol_state \<Rightarrow> record_scope \<Rightarrow> bool \<Rightarrow> projection_error + record_revision" where
  "direct_revision st scope row_exists =
     (case map_of (pr_records st) scope of
        None \<Rightarrow>
          if row_exists then Inl (RecordAlreadyExists (sc_model scope)) else new_revision scope 1 1
      | Some md \<Rightarrow>
          if md_tombstone md then Inl (RecordTombstoned (sc_model scope))
          else if \<not> row_exists then Inl (RecordMissing (sc_model scope))
          else rbind (checked_next (rr_revision (md_revision md)) ''record revision'') (\<lambda>n.
               new_revision scope (rr_incarnation (md_revision md)) n))"

definition stage_same_transaction_projection ::
  "table_fmt \<Rightarrow> direct_batch \<Rightarrow> nat \<Rightarrow> protocol_state \<Rightarrow> row_store
     \<Rightarrow> fault + protocol_state \<times> row_store \<times> direct_evidence" where
  "stage_same_transaction_projection fmt b retention st rows =
     (let key = partition_key_new (db_topology b) (db_partition b); cause = db_causation_id b in
      rbind (map_err Fails (validate_direct_batch b)) (\<lambda>_.
      rbind (map_err Fails (require_registered_topology st (db_topology b))) (\<lambda>_.
      rbind (map_err Fails (ensure_partition key (db_change_epoch b) st)) (\<lambda>st.
      rbind (case map_of (pr_partitions st) key of
               None \<Rightarrow> Inr ()
             | Some pn \<Rightarrow>
                 (case pn_stopped_failure_id pn of
                    Some f \<Rightarrow> Inl (Fails (PartitionStopped f))
                  | None \<Rightarrow> if pn_pending_retry_failure_id pn \<noteq> None
                            then Inl (Fails IncomparableInput) else Inr ())) (\<lambda>_.
      rbind (register_same_transaction_ownership key b st) (\<lambda>st.
      case db_mutations b of
        [] \<Rightarrow> Inl Panics
      | m # _ \<Rightarrow>
          let scope = dm_scope m; lock = lock_key fmt (dm_mutation m) in
          rbind (map_err Fails (direct_revision st scope (hm_contains rows lock))) (\<lambda>revision.
          rbind (append_change key (record_change RecordUpsert cause scope revision) st)
            (\<lambda>(st, change).
          let md = \<lparr>md_revision = revision, md_tombstone = False, md_change = ch_cursor change\<rparr> in
          rbind (map_err Fails (ensure_live_record_identity_available st md)) (\<lambda>_.
          let st = st\<lparr>pr_records := AList.update scope md (pr_records st)\<rparr> in
          rbind (map_err (\<lambda>e. Fails (PTable e))
                   (apply_read_model_write_plan fmt [dm_mutation m] rows)) (\<lambda>rows.
          if \<not> hm_contains rows lock
          then Inl (Fails (invalid [''direct projection upsert left model `'', sc_model scope,
                 ''` without a physical row'']))
          else
            let okey = \<lparr>vk_causation_id = cause, vk_scope = scope, vk_kind = RecordObservation\<rparr> in
            if hm_contains (pr_observations st) okey
            then Inl (Fails (invalid [''direct projection causation `'', cause,
                   ''` already observed this record'']))
            else
              let ob = \<lparr>po_causation_id = cause, po_kind = RecordObservation,
                        po_revision = Some revision, po_scope = scope, po_change = ch_cursor change\<rparr>;
                  st = st\<lparr>pr_observations := AList.update okey ob (pr_observations st)\<rparr> in
              rbind (map_err Fails (retain_change_suffix key retention st)) (\<lambda>(st, _).
              Inr (st, rows, \<lparr>se_records = [md], se_changes = [change], se_observations = [ob]\<rparr>))))))))))))"

end
