(* ===== verification/Projection_Safety.thy ===== *)
theory Projection_Safety
  imports Projection_Store
begin

text \<open>
  Properties of the projection store: every transaction keeps the invariant of the protocol
  state and only adds to its history, an input is applied at most once, a stopped partition
  admits nothing but the repaired input, the change log reads back without gaps, and no
  transaction runs into an \<^verbatim>\<open>expect\<close>.
\<close>

section \<open>What a transaction may change\<close>

definition revision_pair :: "record_metadata \<Rightarrow> nat \<times> nat" where
  "revision_pair md = (rr_incarnation (md_revision md), rr_revision (md_revision md))"

text \<open>No record disappears, and a record that changes gets a newer revision.\<close>

definition records_advance :: "protocol_state \<Rightarrow> protocol_state \<Rightarrow> bool" where
  "records_advance st st' \<longleftrightarrow>
     (\<forall>scope. case map_of (pr_records st) scope of
                None \<Rightarrow> True
              | Some md \<Rightarrow>
                  (case map_of (pr_records st') scope of
                     None \<Rightarrow> False
                   | Some md' \<Rightarrow> md' = md \<or> revision_pair md < revision_pair md'))"

lemma records_advance_frame: "pr_records st' = pr_records st \<Longrightarrow> records_advance st st'"
  by (simp add: records_advance_def split: option.splits)

lemma records_advanceD:
  "records_advance st st' \<Longrightarrow> map_of (pr_records st) scope = Some md \<Longrightarrow>
   \<exists>md'. map_of (pr_records st') scope = Some md' \<and> (md' = md \<or> revision_pair md < revision_pair md')"
  unfolding records_advance_def by (drule spec [of _ scope]) (simp split: option.splits)

lemma records_advance_trans:
  assumes "records_advance a b" "records_advance b c"
  shows "records_advance a c"
  unfolding records_advance_def
proof
  fix scope
  show "case map_of (pr_records a) scope of None \<Rightarrow> True
        | Some md \<Rightarrow> (case map_of (pr_records c) scope of None \<Rightarrow> False
            | Some md' \<Rightarrow> md' = md \<or> revision_pair md < revision_pair md')"
  proof (cases "map_of (pr_records a) scope")
    case (Some md)
    from records_advanceD [OF assms(1) this] obtain md1 where
      b: "map_of (pr_records b) scope = Some md1" "md1 = md \<or> revision_pair md < revision_pair md1"
      by blast
    from records_advanceD [OF assms(2) b(1)] obtain md2 where
      c: "map_of (pr_records c) scope = Some md2" "md2 = md1 \<or> revision_pair md1 < revision_pair md2"
      by blast
    from b(2) c(2) have "md2 = md \<or> revision_pair md < revision_pair md2"
      using less_trans by blast
    with Some c(1) show ?thesis by simp
  qed simp
qed

text \<open>A staging step: the invariant holds again, and the log, the records and the observations grow.\<close>

definition advances :: "protocol_state \<Rightarrow> protocol_state \<Rightarrow> bool" where
  "advances st st' \<longleftrightarrow>
     protocol_inv st' \<and> log_extends st st' \<and> records_advance st st' \<and>
     map_of (pr_observations st) \<subseteq>\<^sub>m map_of (pr_observations st')"

lemma advances_trans: "advances a b \<Longrightarrow> advances b c \<Longrightarrow> advances a c"
  unfolding advances_def
  by (elim conjE, intro conjI)
    (assumption | rule log_extends_trans records_advance_trans map_le_trans)+

lemma advances_frame:
  assumes "protocol_inv st" "pr_partitions st' = pr_partitions st"
    "pr_generations st' = pr_generations st" "pr_records st' = pr_records st"
    "pr_observations st' = pr_observations st"
  shows "advances st st'"
  using protocol_inv_frame [OF assms(1-4)] records_advance_frame [OF assms(4)] assms(5)
  by (simp add: advances_def)

lemma advances_refl: "protocol_inv st \<Longrightarrow> advances st st"
  by (rule advances_frame) simp_all

lemma advances_key:
  assumes "advances st st'" "map_of (pr_partitions st) key = Some pn"
  shows "\<exists>pn'. map_of (pr_partitions st') key = Some pn' \<and> pn_change_head pn \<le> pn_change_head pn'"
  using assms log_extendsD [of st st' key pn] unfolding advances_def by blast

text \<open>What decides who may write next, and everything the staging of rows does not touch.\<close>

definition control :: "protocol_state \<Rightarrow> partition_key \<Rightarrow> (nat \<times> string option \<times> string option) option"
  where
  "control st key =
     map_option (\<lambda>pn. (pn_active_generation pn, pn_stopped_failure_id pn,
                       pn_pending_retry_failure_id pn)) (map_of (pr_partitions st) key)"

lemma control_cases:
  "control st key = None \<longleftrightarrow> map_of (pr_partitions st) key = None"
  "control st key = Some (g, s, r) \<longleftrightarrow>
     (\<exists>pn. map_of (pr_partitions st) key = Some pn \<and> pn_active_generation pn = g \<and>
           pn_stopped_failure_id pn = s \<and> pn_pending_retry_failure_id pn = r)"
  by (auto simp: control_def)

definition bookkeeping where
  "bookkeeping st =
     (control st, pr_generations st, pr_inputs st, pr_input_identities st, pr_messages st,
      pr_applied_receipts st, pr_registered_topologies st, pr_registered_models st,
      pr_table_owners st, pr_gap_free_capabilities st, pr_failures st, pr_failure_inputs st)"

lemma bookkeeping_partitions:
  assumes "st' = st\<lparr>pr_partitions := ps\<rparr>"
  shows "bookkeeping st' = bookkeeping st \<longleftrightarrow> control st' = control st"
  by (simp add: bookkeeping_def assms)

lemma control_update:
  assumes "map_of (pr_partitions st) key = Some pn"
    and "pn_active_generation pn' = pn_active_generation pn"
      "pn_stopped_failure_id pn' = pn_stopped_failure_id pn"
      "pn_pending_retry_failure_id pn' = pn_pending_retry_failure_id pn"
  shows "control (st\<lparr>pr_partitions := AList.update key pn' (pr_partitions st)\<rparr>) = control st"
  using assms by (auto simp: control_def fun_eq_iff)

text \<open>The retained changes of a partition, oldest first.\<close>

definition change_log :: "protocol_state \<Rightarrow> partition_key \<Rightarrow> projection_change list" where
  "change_log st key =
     (case map_of (pr_partitions st) key of None \<Rightarrow> [] | Some pn \<Rightarrow> map snd (pn_changes pn))"

abbreviation extend_log where
  "extend_log st key cs \<equiv> (change_log st)(key := change_log st key @ cs)"

lemma change_log_update:
  "change_log (st\<lparr>pr_partitions := AList.update key pn (pr_partitions st)\<rparr>)
     = (change_log st)(key := map snd (pn_changes pn))"
  by (auto simp: change_log_def fun_eq_iff)

lemma change_log_frame: "pr_partitions st' = pr_partitions st \<Longrightarrow> change_log st' = change_log st"
  by (simp add: change_log_def fun_eq_iff)

lemma change_log_eqI:
  "map_of (pr_partitions st) key = Some pn \<Longrightarrow> change_log st key = map snd (pn_changes pn)"
  by (simp add: change_log_def)

section \<open>Staging steps\<close>

lemma append_change_log:
  assumes app: "append_change key pc st = Inr (st', ch)" and inv: "protocol_inv st"
  shows "change_log st' = extend_log st key [ch]"
proof -
  from app obtain pn where pn: "map_of (pr_partitions st) key = Some pn"
    by (cases "map_of (pr_partitions st) key") (simp_all add: append_change_def)
  let ?pn' = "pn\<lparr>pn_change_head := Suc (pn_change_head pn),
                  pn_changes := bt_insert (Suc (pn_change_head pn)) ch (pn_changes pn)\<rparr>"
  from app pn have c: "ch_cursor ch = \<lparr>cc_topology = pk_topology key, cc_partition = pk_partition key,
             cc_epoch = pn_change_epoch pn, cc_position = Suc (pn_change_head pn)\<rparr>"
    and fits: "Suc (pn_change_head pn) \<le> MAX_PROJECTION_POSITION"
    and st': "st' = st\<lparr>pr_partitions := AList.update key ?pn' (pr_partitions st)\<rparr>"
    by (simp_all add: append_change_def Let_def res_simps) auto
  from change_log_ok_append(1) [OF protocol_inv_partition(1) [OF inv pn] fits c]
  show ?thesis
    by (simp add: st' change_log_update change_log_eqI [OF pn])
qed

lemma append_change_keeps:
  assumes app: "append_change key pc st = Inr (st', ch)" and inv: "protocol_inv st"
  shows "advances st st'" "bookkeeping st' = bookkeeping st"
    "pr_records st' = pr_records st" "pr_observations st' = pr_observations st"
    "pr_ownership st' = pr_ownership st"
    "ch_kind ch = pc_kind pc" "ch_scope ch = pc_scope pc" "ch_revision ch = pc_revision pc"
    "change_log st' = extend_log st key [ch]"
proof -
  from append_change_ok(6) [OF app inv] obtain ps where st': "st' = st\<lparr>pr_partitions := ps\<rparr>" by blast
  then show "pr_records st' = pr_records st" "pr_observations st' = pr_observations st"
    "pr_ownership st' = pr_ownership st" by simp_all
  with append_change_ok(1,2) [OF app inv] show "advances st st'"
    by (simp add: advances_def records_advance_frame)
  from app obtain pn where "map_of (pr_partitions st) key = Some pn"
    by (cases "map_of (pr_partitions st) key") (simp_all add: append_change_def)
  with app have "control st' = control st" "ch_kind ch = pc_kind pc" "ch_scope ch = pc_scope pc"
    "ch_revision ch = pc_revision pc"
    by (auto simp: append_change_def Let_def res_simps control_update)
  then show "bookkeeping st' = bookkeeping st" "ch_kind ch = pc_kind pc" "ch_scope ch = pc_scope pc"
    "ch_revision ch = pc_revision pc"
    by (simp_all add: bookkeeping_def st')
  show "change_log st' = extend_log st key [ch]"
    by (rule append_change_log [OF app inv])
qed

lemma compact_changes_keeps:
  assumes comp: "compact_changes_through key t st = Inr (st', n)" and inv: "protocol_inv st"
  shows "advances st st'" "bookkeeping st' = bookkeeping st" "pr_records st' = pr_records st"
    "pr_observations st' = pr_observations st"
proof -
  from compact_changes_ok(3) [OF comp inv] obtain ps where st': "st' = st\<lparr>pr_partitions := ps\<rparr>" by blast
  then show "pr_records st' = pr_records st" "pr_observations st' = pr_observations st" by simp_all
  with compact_changes_ok(1,2) [OF comp inv] show "advances st st'"
    by (simp add: advances_def records_advance_frame)
  from comp obtain pn where "map_of (pr_partitions st) key = Some pn"
    by (cases "map_of (pr_partitions st) key") (simp_all add: compact_changes_through_def)
  with comp have "control st' = control st"
    by (auto simp: compact_changes_through_def Let_def control_update split: if_splits)
  then show "bookkeeping st' = bookkeeping st"
    by (simp add: bookkeeping_def st')
qed

lemma retain_change_suffix_compacts:
  assumes "retain_change_suffix key n st = Inr (st', k)"
  shows "\<exists>t. compact_changes_through key t st = Inr (st', k)"
  using assms by (auto simp: retain_change_suffix_def split: option.splits)

lemma retain_change_suffix_keeps:
  assumes "retain_change_suffix key n st = Inr (st', k)" "protocol_inv st"
  shows "advances st st'" "bookkeeping st' = bookkeeping st" "pr_records st' = pr_records st"
    "pr_observations st' = pr_observations st"
  using retain_change_suffix_compacts [OF assms(1)] compact_changes_keeps assms(2) by blast+

lemma drop_filter_upt:
  assumes "map fst xs = [Suc a..<Suc b]" "a \<le> t"
  shows "filter (\<lambda>(p, _). t < p) xs = drop (t - a) xs"
  using assms
proof (induction xs arbitrary: a)
  case (Cons x xs)
  obtain p v where x: "x = (p, v)" by (cases x)
  from Cons.prems(1) have "p = Suc a" "map fst xs = [Suc (Suc a)..<Suc b]"
    by (auto simp: x upt_conv_Cons split: if_splits simp del: upt_Suc)
      (metis list.sel(1,3) upt_conv_Cons upt_eq_Cons_conv)+
  moreover have "filter (\<lambda>(p, _). a < p) xs = xs"
    using calculation(2) by (intro filter_True) (metis (mono_tags, lifting) Suc_lessD atLeastLessThan_iff
        atLeastLessThan_upt case_prod_unfold imageI less_eq_Suc_le list.set_map)
  ultimately show ?case
    using Cons.IH [of "Suc a"] Cons.prems(2) x by (cases "t = a") (auto simp: Suc_diff_le drop_Cons')
qed simp

lemma retain_change_suffix_log:
  assumes ret: "retain_change_suffix key n st = Inr (st', k)" and inv: "protocol_inv st"
  shows "change_log st' = (change_log st)(key :=
           drop (length (change_log st key) - n) (change_log st key))"
proof -
  from ret obtain pn where pn: "map_of (pr_partitions st) key = Some pn"
    by (cases "map_of (pr_partitions st) key") (simp_all add: retain_change_suffix_def)
  have ok: "change_log_ok key pn" by (rule protocol_inv_partition(1) [OF inv pn])
  then have keys: "map fst (pn_changes pn) = [Suc (pn_compacted_through pn)..<Suc (pn_change_head pn)]"
    and le: "pn_compacted_through pn \<le> pn_change_head pn"
    by (simp_all add: change_log_ok_def)
  have len: "length (pn_changes pn) = pn_change_head pn - pn_compacted_through pn"
    using arg_cong [OF keys, of length] by (simp del: upt_Suc)
  let ?t = "pn_change_head pn - n"
  from ret pn have comp: "compact_changes_through key ?t st = Inr (st', k)"
    by (simp add: retain_change_suffix_def)
  show ?thesis
  proof (cases "?t \<le> pn_compacted_through pn")
    case True
    with comp pn have "st' = st"
      by (auto simp: compact_changes_through_def split: if_splits)
    moreover have "length (change_log st key) - n = 0"
      using True len by (simp add: change_log_eqI [OF pn])
    ultimately show ?thesis by simp
  next
    case False
    with comp pn have "st' = st\<lparr>pr_partitions := AList.update key
        (pn\<lparr>pn_changes := filter (\<lambda>(p, _). ?t < p) (pn_changes pn), pn_compacted_through := ?t\<rparr>)
        (pr_partitions st)\<rparr>"
      by (auto simp: compact_changes_through_def Let_def split: if_splits)
    moreover have "length (pn_changes pn) - n = ?t - pn_compacted_through pn"
      using len by simp
    ultimately show ?thesis
      using False drop_filter_upt [OF keys, of ?t]
      by (simp add: change_log_update change_log_eqI [OF pn] drop_map)
  qed
qed

lemma retain_change_suffix_total:
  assumes "protocol_inv st" "map_of (pr_partitions st) key = Some pn"
  shows "\<exists>st' k. retain_change_suffix key n st = Inr (st', k)"
  using compact_changes_total [OF assms, of "pn_change_head pn - n"] assms(2)
  by (auto simp: retain_change_suffix_def)

lemma insert_record_keeps:
  assumes inv: "protocol_inv st" and ok: "record_ok st scope md"
    and live: "ensure_live_record_identity_available st md = Inr u"
    and newer: "case map_of (pr_records st) scope of None \<Rightarrow> True
                | Some old \<Rightarrow> revision_pair old < revision_pair md"
    and st': "st' = st\<lparr>pr_records := AList.update scope md (pr_records st)\<rparr>"
  shows "advances st st'" "bookkeeping st' = bookkeeping st"
proof -
  have "records_advance st st'"
    using newer by (auto simp: records_advance_def st' split: option.splits)
  with insert_record_inv [OF inv ok live st'] show "advances st st'"
    by (simp add: advances_def st')
  show "bookkeeping st' = bookkeeping st"
    by (simp add: bookkeeping_def control_def st' fun_eq_iff)
qed

definition in_scope :: "partition_key \<Rightarrow> record_scope \<Rightarrow> bool" where
  "in_scope key scope \<longleftrightarrow> sc_topology scope = pk_topology key \<and> sc_partition scope = pk_partition key"

lemma stage_mutation_keeps:
  assumes step: "stage_mutation fmt key cause rows (st, rs, cs) m = Inr (st', rs', cs')"
    and inv: "protocol_inv st" and scope: "in_scope key (mu_scope m)"
  obtains md ch where "advances st st'" "bookkeeping st' = bookkeeping st"
    "pr_observations st' = pr_observations st"
    "map_of (pr_records st') = (map_of (pr_records st))(mu_scope m \<mapsto> md)"
    "rs' = rs @ [md]" "cs' = cs @ [ch]" "change_log st' = extend_log st key [ch]"
    "md_change md = ch_cursor ch" "record_ok st' (mu_scope m) md"
    "md_tombstone md \<longleftrightarrow> mu_kind m = DeleteKind"
proof -
  from step obtain r tomb st1 ch u where
    nxt: "next_record st (mu_scope m) (mu_expectation m) (mu_kind m) = Inr (r, tomb)"
    and app: "append_change key
        (record_change (change_kind_for_mutation (mu_kind m)) cause (mu_scope m) r) st = Inr (st1, ch)"
    and live: "ensure_live_record_identity_available st1
        \<lparr>md_revision = r, md_tombstone = tomb, md_change = ch_cursor ch\<rparr> = Inr u"
    and st': "st' = st1\<lparr>pr_records := AList.update (mu_scope m)
        \<lparr>md_revision = r, md_tombstone = tomb, md_change = ch_cursor ch\<rparr> (pr_records st1)\<rparr>"
    and lists: "rs' = rs @ [\<lparr>md_revision = r, md_tombstone = tomb, md_change = ch_cursor ch\<rparr>]"
      "cs' = cs @ [ch]"
    by (auto simp: stage_mutation_def res_simps Let_def)
  let ?md = "\<lparr>md_revision = r, md_tombstone = tomb, md_change = ch_cursor ch\<rparr>"
  note keep = append_change_keeps [OF app inv] and ok = append_change_ok [OF app inv]
  have rec: "record_ok st1 (mu_scope m) ?md"
    using next_record_ok [OF nxt] ok(3-5) scope by (simp add: record_ok_def in_scope_def)
  have newer: "case map_of (pr_records st1) (mu_scope m) of None \<Rightarrow> True
      | Some old \<Rightarrow> revision_pair old < revision_pair ?md"
    using next_record_ok(4) [OF nxt] keep(3) by (simp add: revision_pair_def split: option.splits)
  note ins = insert_record_keeps [OF ok(1) rec live newer st']
  show thesis
  proof (rule that)
    show "advances st st'" by (rule advances_trans [OF keep(1) ins(1)])
    show "bookkeeping st' = bookkeeping st" using keep(2) ins(2) by simp
    show "record_ok st' (mu_scope m) ?md"
      using rec ins(1) record_ok_extends unfolding advances_def by blast
    show "change_log st' = extend_log st key [ch]"
      using keep(9) change_log_frame [of st' st1] st' by simp
  qed (use keep lists st' next_record_ok(2) [OF nxt] in simp_all)
qed

text \<open>The mutations of a batch, one after the other.\<close>

lemma stage_mutations_keep:
  assumes "try_fold (stage_mutation fmt key cause rows) (st, rs, cs) ms = Inr (st', rs', cs')"
    and "protocol_inv st" and "list_all (\<lambda>m. in_scope key (mu_scope m)) ms"
  shows "advances st st' \<and> bookkeeping st' = bookkeeping st \<and>
    pr_observations st' = pr_observations st \<and> length rs' = length rs + length ms \<and>
    (\<exists>more. cs' = cs @ more \<and> length more = length ms \<and> change_log st' = extend_log st key more) \<and>
    (\<forall>scope. scope \<in> mu_scope ` set ms \<or> hm_contains (pr_records st) scope \<longrightarrow>
             hm_contains (pr_records st') scope)"
  using assms
proof (induction ms arbitrary: st rs cs)
  case Nil
  then show ?case by (simp add: advances_refl fun_eq_iff)
next
  case (Cons m ms)
  from Cons.prems(1) obtain st1 rs1 cs1 where
    one: "stage_mutation fmt key cause rows (st, rs, cs) m = Inr (st1, rs1, cs1)"
    and rest: "try_fold (stage_mutation fmt key cause rows) (st1, rs1, cs1) ms = Inr (st', rs', cs')"
    by (auto simp: res_simps)
  from Cons.prems(3) have "in_scope key (mu_scope m)" by simp
  from stage_mutation_keeps [OF one Cons.prems(2) this] obtain md ch where
    step: "advances st st1" "bookkeeping st1 = bookkeeping st"
      "pr_observations st1 = pr_observations st"
      "map_of (pr_records st1) = (map_of (pr_records st))(mu_scope m \<mapsto> md)"
      "rs1 = rs @ [md]" "cs1 = cs @ [ch]" "change_log st1 = extend_log st key [ch]"
    by metis
  have "protocol_inv st1" "list_all (\<lambda>m. in_scope key (mu_scope m)) ms"
    using step(1) Cons.prems(3) by (simp_all add: advances_def)
  note ih = Cons.IH [OF rest this]
  from ih obtain more where more: "cs' = cs1 @ more" "length more = length ms"
    "change_log st' = extend_log st1 key more" by blast
  have "cs' = cs @ (ch # more) \<and> length (ch # more) = length (m # ms) \<and>
      change_log st' = extend_log st key (ch # more)"
    by (simp add: more step(6,7))
  moreover have "hm_contains (pr_records st') scope"
    if "scope \<in> mu_scope ` set (m # ms) \<or> hm_contains (pr_records st) scope" for scope
  proof -
    from that have "scope \<in> mu_scope ` set ms \<or> hm_contains (pr_records st1) scope"
      using step(4) by (auto simp: hm_contains_def)
    with ih show ?thesis by blast
  qed
  moreover have "length rs' = length rs + length (m # ms)"
    using ih step(5) by (elim conjE) (simp only: list.size length_append)
  ultimately show ?case
    using advances_trans [OF step(1)] ih step(2,3) by metis
qed

lemma add_observation_keeps:
  assumes "protocol_inv st" "\<not> hm_contains (pr_observations st) k"
    and st': "st' = st\<lparr>pr_observations := AList.update k ob (pr_observations st)\<rparr>"
  shows "advances st st'" "bookkeeping st' = bookkeeping st" "pr_records st' = pr_records st"
proof -
  show "pr_records st' = pr_records st" by (simp add: st')
  have "map_of (pr_observations st) \<subseteq>\<^sub>m map_of (pr_observations st')"
    using assms(2) by (auto simp: st' map_le_def hm_contains_def)
  moreover have "protocol_inv st'" "log_extends st st'"
    by (rule protocol_inv_frame [OF assms(1)]; simp add: st')+
  ultimately show "advances st st'"
    by (simp add: advances_def records_advance_frame st')
  show "bookkeeping st' = bookkeeping st"
    by (simp add: bookkeeping_def control_def st' fun_eq_iff)
qed

lemma stage_observation_keeps:
  assumes step: "stage_observation key cause (st, cs) r = Inr (st', cs')" and inv: "protocol_inv st"
  shows "advances st st' \<and> bookkeeping st' = bookkeeping st \<and> pr_records st' = pr_records st \<and>
         (\<exists>more. cs' = cs @ more \<and> change_log st' = extend_log st key more)"
proof -
  from step obtain scope rev sc where
    res: "resolve_observation st (oq_target r) = Inr (scope, rev, sc)"
    by (auto simp: stage_observation_def res_simps)
  let ?k = "\<lparr>vk_causation_id = cause, vk_scope = scope, vk_kind = oq_kind r\<rparr>"
  show ?thesis
  proof (cases "hm_contains (pr_observations st) ?k")
    case True
    with step res inv show ?thesis
      by (simp add: stage_observation_def advances_refl)
  next
    case False
    from step res False obtain st1 cs1 ob where
      mid: "st1 = st \<and> cs1 = cs \<or>
            (\<exists>pc ch. append_change key pc st = Inr (st1, ch) \<and> cs1 = cs @ [ch])"
      and fin: "st' = st1\<lparr>pr_observations := AList.update ?k ob (pr_observations st1)\<rparr>" "cs' = cs1"
      by (cases sc) (auto simp: stage_observation_def res_simps Let_def; blast)+
    have keep: "advances st st1" "bookkeeping st1 = bookkeeping st" "pr_records st1 = pr_records st"
      "pr_observations st1 = pr_observations st"
      using mid append_change_keeps [OF _ inv] advances_refl [OF inv] by auto
    have log: "\<exists>more. cs' = cs @ more \<and> change_log st1 = extend_log st key more"
      using mid append_change_log [OF _ inv] fin(2) by auto
    have "protocol_inv st1" using keep(1) by (simp add: advances_def)
    from add_observation_keeps [OF this _ fin(1)] False keep(4)
    have "advances st1 st'" "bookkeeping st' = bookkeeping st1" "pr_records st' = pr_records st1"
      by simp_all
    moreover have "change_log st' = change_log st1" by (rule change_log_frame) (simp add: fin(1))
    ultimately show ?thesis
      using keep advances_trans [OF keep(1)] log by metis
  qed
qed

lemma stage_observations_keep:
  assumes "try_fold (stage_observation key cause) (st, cs) rs = Inr (st', cs')" "protocol_inv st"
  shows "advances st st' \<and> bookkeeping st' = bookkeeping st \<and> pr_records st' = pr_records st \<and>
         (\<exists>more. cs' = cs @ more \<and> change_log st' = extend_log st key more)"
  using assms
proof (induction rs arbitrary: st cs)
  case Nil
  then show ?case by (simp add: advances_refl fun_eq_iff)
next
  case (Cons r rs)
  from Cons.prems(1) obtain st1 cs1 where
    one: "stage_observation key cause (st, cs) r = Inr (st1, cs1)"
    and rest: "try_fold (stage_observation key cause) (st1, cs1) rs = Inr (st', cs')"
    by (auto simp: res_simps)
  note step = stage_observation_keeps [OF one Cons.prems(2)]
  then have "protocol_inv st1" by (simp add: advances_def)
  from Cons.IH [OF rest this] obtain more where
    ih: "advances st1 st'" "bookkeeping st' = bookkeeping st1" "pr_records st' = pr_records st1"
      "cs' = cs1 @ more" "change_log st' = extend_log st1 key more"
    by blast
  from step obtain more1 where "cs1 = cs @ more1" "change_log st1 = extend_log st key more1" by blast
  with ih(4,5) have "\<exists>more. cs' = cs @ more \<and> change_log st' = extend_log st key more"
    by (intro exI [of _ "more1 @ more"]) simp
  moreover from step have "advances st st1" "bookkeeping st1 = bookkeeping st"
    "pr_records st1 = pr_records st" by blast+
  ultimately show ?case
    using advances_trans [OF _ ih(1)] ih(2,3) by metis
qed

section \<open>A committed input\<close>

text \<open>The state with the partition opened and the gap-free declaration of the source recorded.\<close>

definition opened :: "trusted_input \<Rightarrow> epoch \<Rightarrow> protocol_state \<Rightarrow> protocol_state \<Rightarrow> bool" where
  "opened i ep st st1 \<longleftrightarrow>
     (\<exists>st0. ensure_partition (from_input (ti_cursor i)) ep st = Inr st0 \<and>
            st1 = st0\<lparr>pr_gap_free_capabilities :=
                    or_insert (source_capability_key_new (ti_cursor i)) (ti_gap_free i)
                      (pr_gap_free_capabilities st0)\<rparr>)"

lemma opened_keeps:
  assumes "opened i ep st st1" "protocol_inv st"
  shows "advances st st1" "change_log st1 = change_log st"
    "\<exists>pn. map_of (pr_partitions st1) (from_input (ti_cursor i)) = Some pn \<and> pn_change_epoch pn = ep"
proof -
  from assms(1) obtain st0 where st0: "ensure_partition (from_input (ti_cursor i)) ep st = Inr st0"
    and st1: "st1 = st0\<lparr>pr_gap_free_capabilities :=
                    or_insert (source_capability_key_new (ti_cursor i)) (ti_gap_free i)
                      (pr_gap_free_capabilities st0)\<rparr>"
    unfolding opened_def by blast
  note ens = ensure_partition_ok [OF st0 assms(2)]
  have obs: "pr_observations st0 = pr_observations st" and log: "change_log st0 = change_log st"
    using st0 by (auto simp: ensure_partition_def change_log_def partition_state_new_def fun_eq_iff
        split: option.splits if_splits)
  have "advances st st0"
    using ens obs by (simp add: advances_def records_advance_frame)
  moreover have "advances st0 st1"
    by (rule advances_frame [OF ens(1)]) (simp_all add: st1)
  ultimately show "advances st st1" by (rule advances_trans)
  show "change_log st1 = change_log st"
    using log change_log_frame [of st1 st0] by (simp add: st1)
  show "\<exists>pn. map_of (pr_partitions st1) (from_input (ti_cursor i)) = Some pn \<and> pn_change_epoch pn = ep"
    using ens(4) by (simp add: st1)
qed

lemma note_input_frame:
  "pr_partitions (note_input i cp st) = pr_partitions st"
  "pr_generations (note_input i cp st) = pr_generations st"
  "pr_records (note_input i cp st) = pr_records st"
  "pr_observations (note_input i cp st) = pr_observations st"
  by (simp_all add: note_input_def persist_input_identity_def Let_def)

lemma bookkeeping_note_input:
  "bookkeeping st = bookkeeping st' \<Longrightarrow> bookkeeping (note_input i cp st) = bookkeeping (note_input i cp st')"
  by (simp add: bookkeeping_def note_input_def persist_input_identity_def Let_def control_def fun_eq_iff)

lemma clear_pending_retry_keeps:
  assumes clr: "clear_pending_retry key st = Inr st'" and inv: "protocol_inv st"
  shows "advances st st'" "change_log st' = change_log st" "pr_records st' = pr_records st"
proof -
  from clr obtain pn where pn: "map_of (pr_partitions st) key = Some pn"
    and st': "st' = st\<lparr>pr_partitions := AList.update key (pn\<lparr>pn_pending_retry_failure_id := None\<rparr>)
                        (pr_partitions st)\<rparr>"
    by (auto simp: clear_pending_retry_def split: option.splits)
  have "change_log_ok key (pn\<lparr>pn_pending_retry_failure_id := None\<rparr>)"
    "generation_ok st key (pn\<lparr>pn_pending_retry_failure_id := None\<rparr>)"
    using protocol_inv_partition [OF inv pn] by (simp_all add: change_log_ok_def generation_ok_def)
  from update_partition_inv [OF inv pn this _ _ _ st'] show "advances st st'"
    by (simp add: advances_def records_advance_frame st')
  show "change_log st' = change_log st"
    using change_log_eqI [OF pn] by (simp add: st' change_log_update fun_upd_idem_iff)
  show "pr_records st' = pr_records st" by (simp add: st')
qed

lemma batch_sound_in_scope:
  assumes "batch_sound b"
  shows "list_all (\<lambda>m. in_scope (from_input (ti_cursor (pb_input b))) (mu_scope m)) (pb_mutations b)"
  using assms
  by (auto simp: batch_sound_def Let_def in_scope_def mutation_ok_def from_input_def
      partition_key_new_def list_all_iff)

lemma stage_commit_steps:
  assumes "stage_commit fmt b be = Inr (st', rows', r)"
  obtains st1 st2 st3 st4 st5 st6 touched rows records changes changes4 ch cp n u where
    "opened (pb_input b) (pb_change_epoch b) (pj_protocol be) st1"
    "register_ownership (from_input (ti_cursor (pb_input b))) b st1 = Inr st2"
    "touched_rows fmt (pb_mutations b) = Inr touched"
    "try_fold (stage_mutation fmt (from_input (ti_cursor (pb_input b)))
        (ti_causation_id (pb_input b)) (select_rows touched (pj_rows be))) (st2, [], [])
       (pb_mutations b) = Inr (st3, records, changes)"
    "apply_read_model_write_plan fmt (map mu_mutation (pb_mutations b))
       (select_rows touched (pj_rows be)) = Inr rows"
    "try_each (check_row_left fmt rows) (pb_mutations b) = Inr u"
    "try_fold (stage_observation (from_input (ti_cursor (pb_input b))) (ti_causation_id (pb_input b)))
       (st3, changes) (pb_observations b) = Inr (st4, changes4)"
    "changes4 \<noteq> [] \<and> st5 = st4 \<and> cr_changes r = changes4 \<or>
     changes4 = [] \<and> cr_changes r = [ch] \<and>
     append_change (from_input (ti_cursor (pb_input b)))
       (checkpoint_change (ti_causation_id (pb_input b))) st4 = Inr (st5, ch)"
    "checkpoint_new (ti_cursor (pb_input b)) (ch_cursor (last (cr_changes r)))
       (ti_gap_free (pb_input b)) = Inr cp"
    "clear_pending_retry (from_input (ti_cursor (pb_input b)))
       (note_input (pb_input b) cp st5) = Inr st6"
    "retain_change_suffix (from_input (ti_cursor (pb_input b))) (pj_retention be) st6 = Inr (st', n)"
    "rows' = merge_rows touched rows (pj_rows be)"
    "r = \<lparr>cr_outcome = Applied, cr_checkpoint = Some cp, cr_records = records,
           cr_changes = cr_changes r\<rparr>"
proof -
  let ?i = "pb_input b"
  let ?key = "from_input (ti_cursor ?i)"
  from assms obtain st0 st2 touched st3 records changes rows st4 changes4 st5 changes5 ch cp st6 n u where
    st0: "ensure_partition ?key (pb_change_epoch b) (pj_protocol be) = Inr st0"
    and own: "register_ownership ?key b
       (st0\<lparr>pr_gap_free_capabilities := or_insert (source_capability_key_new (ti_cursor ?i))
          (ti_gap_free ?i) (pr_gap_free_capabilities st0)\<rparr>) = Inr st2"
    and tch: "touched_rows fmt (pb_mutations b) = Inr touched"
    and mut: "try_fold (stage_mutation fmt ?key (ti_causation_id ?i) (select_rows touched (pj_rows be)))
       (st2, [], []) (pb_mutations b) = Inr (st3, records, changes)"
    and app: "apply_read_model_write_plan fmt (map mu_mutation (pb_mutations b))
       (select_rows touched (pj_rows be)) = Inr rows"
    and chk: "try_each (check_row_left fmt rows) (pb_mutations b) = Inr u"
    and obs: "try_fold (stage_observation ?key (ti_causation_id ?i)) (st3, changes) (pb_observations b)
       = Inr (st4, changes4)"
    and fin: "(if changes4 = []
        then rbind (append_change ?key (checkpoint_change (ti_causation_id ?i)) st4)
               (\<lambda>(st, change). Inr (st, [change]))
        else Inr (st4, changes4)) = Inr (st5, changes5)"
    and lst: "last_change changes5 = Inr ch"
    and cp: "checkpoint_new (ti_cursor ?i) (ch_cursor ch) (ti_gap_free ?i) = Inr cp"
    and clr: "clear_pending_retry ?key (note_input ?i cp st5) = Inr st6"
    and ret: "retain_change_suffix ?key (pj_retention be) st6 = Inr (st', n)"
    and res: "rows' = merge_rows touched rows (pj_rows be)"
      "r = \<lparr>cr_outcome = Applied, cr_checkpoint = Some cp, cr_records = records, cr_changes = changes5\<rparr>"
    apply (simp only: stage_commit_def Let_def rbind_Inr_iff map_err_Inr_iff split_paired_Ex prod.case)
    apply (elim exE conjE)
    apply (drule Inr_inject, elim Pair_inject, hypsubst)
    apply (rule that)
    apply (assumption | rule refl)+
    done
  from lst have "ch = last (cr_changes r)"
    by (simp add: last_change_def res(2) split: if_splits)
  moreover from fin obtain ch' where "changes4 \<noteq> [] \<and> st5 = st4 \<and> cr_changes r = changes4 \<or>
      changes4 = [] \<and> cr_changes r = [ch'] \<and>
      append_change ?key (checkpoint_change (ti_causation_id ?i)) st4 = Inr (st5, ch')"
    by (cases "changes4 = []") (auto simp: res_simps res(2))
  ultimately show thesis
    by (intro that [OF _ own tch mut app chk obs _ _ clr ret]) (use st0 cp res in \<open>auto simp: opened_def\<close>)
qed
lemma clear_pending_retry_control:
  assumes "clear_pending_retry key st = Inr st'"
  obtains g s r where "control st key = Some (g, s, r)"
    "control st' = (control st)(key \<mapsto> (g, s, None))"
    "snd (bookkeeping st') = snd (bookkeeping st)"
proof -
  from assms obtain pn where pn: "map_of (pr_partitions st) key = Some pn"
    and st': "st' = st\<lparr>pr_partitions := AList.update key (pn\<lparr>pn_pending_retry_failure_id := None\<rparr>)
                        (pr_partitions st)\<rparr>"
    by (auto simp: clear_pending_retry_def split: option.splits)
  then show thesis
    by (intro that [of "pn_active_generation pn" "pn_stopped_failure_id pn" "pn_pending_retry_failure_id pn"])
      (auto simp: control_def bookkeeping_def fun_eq_iff)
qed

lemma bookkeeping_split: "bookkeeping st = (control st, snd (bookkeeping st))"
  by (simp add: bookkeeping_def)

lemma bookkeeping_eqI:
  "control st' = control st \<Longrightarrow> snd (bookkeeping st') = snd (bookkeeping st) \<Longrightarrow>
   bookkeeping st' = bookkeeping st"
  by (metis bookkeeping_split)

lemma bookkeeping_clear:
  assumes "bookkeeping a = bookkeeping b" "clear_pending_retry key a = Inr a'"
  shows "\<exists>b'. clear_pending_retry key b = Inr b' \<and> bookkeeping a' = bookkeeping b'"
proof -
  from assms(1) have ctl: "control a = control b" "snd (bookkeeping a) = snd (bookkeeping b)"
    by (simp_all add: bookkeeping_def)
  from clear_pending_retry_control [OF assms(2)] obtain g s r where
    a: "control a key = Some (g, s, r)" "control a' = (control a)(key \<mapsto> (g, s, None))"
      "snd (bookkeeping a') = snd (bookkeeping a)" by metis
  with ctl have "control b key = Some (g, s, r)" by simp
  then obtain b' where b': "clear_pending_retry key b = Inr b'"
    by (auto simp: control_cases clear_pending_retry_def)
  from clear_pending_retry_control [OF this] obtain g' s' r' where
    "control b key = Some (g', s', r')" "control b' = (control b)(key \<mapsto> (g', s', None))"
    "snd (bookkeeping b') = snd (bookkeeping b)" by metis
  with a ctl b' show ?thesis
    by (intro exI [of _ b'] conjI bookkeeping_eqI) auto
qed

lemma register_ownership_keeps:
  assumes "register_ownership key b st = Inr st'" "protocol_inv st"
  shows "advances st st'" "bookkeeping st' = bookkeeping st" "change_log st' = change_log st"
proof -
  from register_ownership_ok [OF assms(1)] obtain ows where st': "st' = st\<lparr>pr_ownership := ows\<rparr>" by blast
  show "advances st st'" by (rule advances_frame [OF assms(2)]) (simp_all add: st')
  show "bookkeeping st' = bookkeeping st"
    by (simp add: bookkeeping_def control_def st' fun_eq_iff)
  show "change_log st' = change_log st" by (rule change_log_frame) (simp add: st')
qed

definition retained :: "nat \<Rightarrow> 'a list \<Rightarrow> 'a list" where
  "retained n xs = drop (length xs - n) xs"

lemma length_retained: "length (retained n xs) \<le> n"
  by (simp add: retained_def)

text \<open>What a staged commit has done to the protocol state.\<close>

lemma stage_commit_ok:
  assumes commit: "stage_commit fmt b be = Inr (st', rows', r)"
    and inv: "protocol_inv (pj_protocol be)" and sound: "batch_sound b"
  obtains st1 st2 cp where "advances (pj_protocol be) st'"
    "opened (pb_input b) (pb_change_epoch b) (pj_protocol be) st1"
    "clear_pending_retry (from_input (ti_cursor (pb_input b))) (note_input (pb_input b) cp st1) = Inr st2"
    "bookkeeping st' = bookkeeping st2" "cr_outcome r = Applied" "cr_checkpoint r = Some cp"
    "cr_changes r \<noteq> []"
    "change_log st' = (change_log (pj_protocol be))(from_input (ti_cursor (pb_input b)) :=
       retained (pj_retention be)
         (change_log (pj_protocol be) (from_input (ti_cursor (pb_input b))) @ cr_changes r))"
proof -
  let ?i = "pb_input b" and ?st = "pj_protocol be"
  let ?key = "from_input (ti_cursor ?i)"
  from commit show thesis
  proof (rule stage_commit_steps, goal_cases)
    case (1 st1 st2 st3 st4 st5 st6 touched rows records changes changes4 ch cp n u)
    note op = opened_keeps [OF 1(1) inv]
    have inv1: "protocol_inv st1" using op(1) by (simp add: advances_def)
    note own = register_ownership_keeps [OF 1(2) inv1]
    have inv2: "protocol_inv st2" using own(1) by (simp add: advances_def)
    note mut = stage_mutations_keep [OF 1(4) inv2 batch_sound_in_scope [OF sound]]
    then obtain more where more: "changes = more" "change_log st3 = extend_log st2 ?key more" by auto
    have inv3: "protocol_inv st3" using mut by (simp add: advances_def)
    note obs = stage_observations_keep [OF 1(7) inv3]
    then obtain more' where more': "changes4 = changes @ more'" "change_log st4 = extend_log st3 ?key more'"
      by blast
    have inv4: "protocol_inv st4" using obs by (simp add: advances_def)
    have fin: "advances st4 st5" "bookkeeping st5 = bookkeeping st4" "cr_changes r \<noteq> []"
      "\<exists>more. cr_changes r = changes4 @ more \<and> change_log st5 = extend_log st4 ?key more"
      using 1(8) append_change_keeps [OF _ inv4] advances_refl [OF inv4] by (auto simp: fun_eq_iff)
    then obtain more'' where more'': "cr_changes r = changes4 @ more''"
      "change_log st5 = extend_log st4 ?key more''" by blast
    have log5: "change_log st5 = extend_log ?st ?key (cr_changes r)"
      by (simp add: more more' more'' own(3) op(2))
    have inv5: "protocol_inv st5" using fin(1) by (simp add: advances_def)
    have note5: "advances st5 (note_input ?i cp st5)"
      by (rule advances_frame [OF inv5]) (simp_all add: note_input_frame)
    then have inv5': "protocol_inv (note_input ?i cp st5)" by (simp add: advances_def)
    note clr = clear_pending_retry_keeps [OF 1(10) inv5']
    have inv6: "protocol_inv st6" using clr(1) by (simp add: advances_def)
    note ret = retain_change_suffix_keeps [OF 1(11) inv6]
    have adv: "advances ?st st'"
      using advances_trans op(1) own(1) mut obs fin(1) note5 clr(1) ret(1) by metis
    have "bookkeeping st5 = bookkeeping st1"
      using own(2) mut obs fin(2) by metis
    from bookkeeping_clear [OF bookkeeping_note_input [OF this] 1(10)] ret(2) obtain st2' where
      clr': "clear_pending_retry ?key (note_input ?i cp st1) = Inr st2'" "bookkeeping st' = bookkeeping st2'"
      by metis
    have "change_log st6 = extend_log ?st ?key (cr_changes r)"
      using clr(2) log5 change_log_frame [of "note_input ?i cp st5" st5] by (simp add: note_input_frame)
    with retain_change_suffix_log [OF 1(11) inv6] have "change_log st' = (change_log ?st)(?key :=
       retained (pj_retention be) (change_log ?st ?key @ cr_changes r))"
      by (simp add: retained_def)
    moreover have "cr_outcome r = Applied" "cr_checkpoint r = Some cp"
      by (subst 1(13), simp)+
    ultimately show thesis
      using that adv 1(1) clr' fin(3) by blast
  qed
qed

text \<open>A commit either leaves the store alone or applies a new input.\<close>

lemma admit_new_input:
  assumes "admit_input now b be = Inr NewInput"
  shows "validate_projection_batch now b = Inr ()"
    "validate_partition (pj_protocol be) (from_input (ti_cursor (pb_input b))) (pb_input b)
       (pb_change_epoch b) = Inr ()"
    "classify_input (pj_protocol be) (pb_input b) = Inr NewInput"
    "validate_pending_retry (pj_protocol be) (from_input (ti_cursor (pb_input b))) (pb_input b) = Inr ()"
    "receipt_key (input_inbox_receipt now (pb_input b)) \<notin> pj_inbox be"
proof -
  from assms obtain d where d: "classify_input (pj_protocol be) (pb_input b) = Inr d"
    and "validate_projection_batch now b = Inr ()"
      "validate_partition (pj_protocol be) (from_input (ti_cursor (pb_input b))) (pb_input b)
       (pb_change_epoch b) = Inr ()"
    by (auto simp: admit_input_def Let_def res_simps)
  with assms show "validate_projection_batch now b = Inr ()"
    "validate_partition (pj_protocol be) (from_input (ti_cursor (pb_input b))) (pb_input b)
       (pb_change_epoch b) = Inr ()"
    "classify_input (pj_protocol be) (pb_input b) = Inr NewInput"
    "validate_pending_retry (pj_protocol be) (from_input (ti_cursor (pb_input b))) (pb_input b) = Inr ()"
    "receipt_key (input_inbox_receipt now (pb_input b)) \<notin> pj_inbox be"
    by (cases d; auto simp: admit_input_def Let_def res_simps split: if_splits)+
qed

lemma commit_projection_cases:
  assumes "commit_projection fmt now b be = (be', res)"
  obtains
    (unchanged) "be' = be" "\<And>r. res = Inr r \<Longrightarrow> cr_outcome r \<noteq> Applied"
  | (applied) st r rows where
      "admit_input now b be = Inr NewInput"
      "stage_commit fmt b be = Inr (st, rows, r)" "res = Inr r"
      "be' = be\<lparr>pj_rows := rows, pj_protocol := st,
               pj_inbox := insert (receipt_key (input_inbox_receipt now (pb_input b))) (pj_inbox be)\<rparr>"
proof (cases "admit_input now b be = Inr NewInput")
  case True
  show thesis
  proof (cases "stage_commit fmt b be")
    case (Inl e)
    with assms True show thesis by (intro unchanged) (auto simp: commit_projection_def)
  next
    case (Inr x)
    obtain st rows r where x: "x = (st, rows, r)" by (cases x)
    show thesis
      by (rule applied [OF True, of st rows r]) (use assms True Inr x in \<open>auto simp: commit_projection_def\<close>)
  qed
next
  case False
  with assms show thesis
    by (intro unchanged)
      (auto simp: commit_projection_def not_applied_def split: sum.splits input_disposition.splits)
qed

section \<open>Failures, repair and compaction\<close>

lemma persist_input_identity_frame:
  "pr_partitions (persist_input_identity i st) = pr_partitions st"
  "pr_generations (persist_input_identity i st) = pr_generations st"
  "pr_records (persist_input_identity i st) = pr_records st"
  "pr_observations (persist_input_identity i st) = pr_observations st"
  by (simp_all add: persist_input_identity_def)

lemma stop_partition_keeps:
  assumes stp: "stop_partition key f st = Inr st'" and inv: "protocol_inv st"
  obtains g s r where "advances st st'" "change_log st' = change_log st"
    "control st key = Some (g, s, r)" "control st' = (control st)(key \<mapsto> (g, Some f, None))"
    "snd (bookkeeping st') = snd (bookkeeping st)"
proof -
  from stp obtain pn where pn: "map_of (pr_partitions st) key = Some pn"
    and st': "st' = st\<lparr>pr_partitions := AList.update key (pn\<lparr>pn_stopped_failure_id := Some f,
                 pn_pending_retry_failure_id := None\<rparr>) (pr_partitions st)\<rparr>"
    by (auto simp: stop_partition_def split: option.splits)
  have "change_log_ok key (pn\<lparr>pn_stopped_failure_id := Some f, pn_pending_retry_failure_id := None\<rparr>)"
    "generation_ok st key (pn\<lparr>pn_stopped_failure_id := Some f, pn_pending_retry_failure_id := None\<rparr>)"
    using protocol_inv_partition [OF inv pn] by (simp_all add: change_log_ok_def generation_ok_def)
  from update_partition_inv [OF inv pn this _ _ _ st'] have "advances st st'"
    by (simp add: advances_def records_advance_frame st')
  moreover have "change_log st' = change_log st"
    using change_log_eqI [OF pn] by (simp add: st' change_log_update fun_upd_idem_iff)
  ultimately show thesis
    using pn by (intro that [of "pn_active_generation pn" "pn_stopped_failure_id pn"
          "pn_pending_retry_failure_id pn"]) (auto simp: st' control_def bookkeeping_def fun_eq_iff)
qed

text \<open>What a staged failure has done.\<close>

lemma stage_failure_ok:
  assumes stage: "stage_failure b n st = Inr (st', failure)" and inv: "protocol_inv st"
  obtains st1 g s r ch where "advances st st'"
    "opened (fb_input b) (fb_change_epoch b) st st1"
    "control st1 (from_input (ti_cursor (fb_input b))) = Some (g, s, r)"
    "control st' = (control st1)(from_input (ti_cursor (fb_input b)) \<mapsto> (g, Some (fb_failure_id b), None))"
    "snd (bookkeeping st') = snd (bookkeeping (persist_input_identity (fb_input b) st1
       \<lparr>pr_failure_inputs := AList.update (fb_failure_id b) (fence_from_input (fb_input b)) (pr_failure_inputs st1),
        pr_failures := AList.update (fb_failure_id b) failure (pr_failures st1)\<rparr>))"
    "failure = failure_of b (ch_cursor ch)" "ch_kind ch = FailureChange"
    "change_log st' = (change_log st)(from_input (ti_cursor (fb_input b)) :=
       retained n (change_log st (from_input (ti_cursor (fb_input b))) @ [ch]))"
proof -
  let ?i = "fb_input b" and ?f = "fb_failure_id b"
  let ?key = "from_input (ti_cursor ?i)"
  let ?pc = "\<lparr>pc_kind = FailureChange, pc_causation_id = ti_causation_id ?i,
                pc_observation_kind = None, pc_scope = None, pc_revision = None,
                pc_failure_id = Some ?f\<rparr>"
  from stage obtain st0 st2 ch st3 k where
    st0: "ensure_partition ?key (fb_change_epoch b) st = Inr st0"
    and app: "append_change ?key ?pc (st0\<lparr>pr_gap_free_capabilities :=
                    or_insert (source_capability_key_new (ti_cursor ?i)) (ti_gap_free ?i)
                      (pr_gap_free_capabilities st0)\<rparr>) = Inr (st2, ch)"
    and stp: "stop_partition ?key ?f st2 = Inr st3"
    and ret: "retain_change_suffix ?key n (persist_input_identity ?i st3
         \<lparr>pr_failure_inputs := AList.update ?f (fence_from_input ?i) (pr_failure_inputs st3),
          pr_failures := AList.update ?f failure (pr_failures st3)\<rparr>) = Inr (st', k)"
    and fail: "failure = failure_of b (ch_cursor ch)"
    by (auto simp: stage_failure_def Let_def res_simps persist_input_identity_def)
  let ?st1 = "st0\<lparr>pr_gap_free_capabilities :=
                    or_insert (source_capability_key_new (ti_cursor ?i)) (ti_gap_free ?i)
                      (pr_gap_free_capabilities st0)\<rparr>"
  let ?st4 = "persist_input_identity ?i st3
         \<lparr>pr_failure_inputs := AList.update ?f (fence_from_input ?i) (pr_failure_inputs st3),
          pr_failures := AList.update ?f failure (pr_failures st3)\<rparr>"
  have op: "opened ?i (fb_change_epoch b) st ?st1" using st0 by (auto simp: opened_def)
  note opk = opened_keeps [OF op inv]
  have inv1: "protocol_inv ?st1" using opk(1) by (simp add: advances_def)
  note appk = append_change_keeps [OF app inv1]
  have inv2: "protocol_inv st2" using appk(1) by (simp add: advances_def)
  from stop_partition_keeps [OF stp inv2] obtain g s r where
    stpk: "advances st2 st3" "change_log st3 = change_log st2" "control st2 ?key = Some (g, s, r)"
      "control st3 = (control st2)(?key \<mapsto> (g, Some ?f, None))"
      "snd (bookkeeping st3) = snd (bookkeeping st2)" by metis
  have inv3: "protocol_inv st3" using stpk(1) by (simp add: advances_def)
  have adv4: "advances st3 ?st4"
    by (rule advances_frame [OF inv3]) (simp_all add: persist_input_identity_frame)
  then have inv4: "protocol_inv ?st4" by (simp add: advances_def)
  note retk = retain_change_suffix_keeps [OF ret inv4]
  show thesis
  proof (rule that [OF _ op])
    show "advances st st'"
      using advances_trans opk(1) appk(1) stpk(1) adv4 retk(1) by metis
    have ctl: "control st2 = control ?st1" and rest: "snd (bookkeeping st3) = snd (bookkeeping ?st1)"
      using appk(2) stpk(5) by (simp_all add: bookkeeping_def)
    show "control ?st1 ?key = Some (g, s, r)" using stpk(3) ctl by simp
    have "control st' = control ?st4" "snd (bookkeeping st') = snd (bookkeeping ?st4)"
      using retk(2) by (simp_all add: bookkeeping_def)
    moreover have "control ?st4 = control st3"
      by (simp add: control_def persist_input_identity_frame fun_eq_iff)
    ultimately show "control st' = (control ?st1)(?key \<mapsto> (g, Some ?f, None))"
      and "snd (bookkeeping st') = snd (bookkeeping (persist_input_identity ?i ?st1
       \<lparr>pr_failure_inputs := AList.update ?f (fence_from_input ?i) (pr_failure_inputs ?st1),
        pr_failures := AList.update ?f failure (pr_failures ?st1)\<rparr>))"
      using stpk(4) ctl rest by (simp_all add: bookkeeping_def persist_input_identity_def)
    have "change_log ?st4 = extend_log st ?key [ch]"
      using change_log_frame [of ?st4 st3] stpk(2) appk(9) opk(2)
      by (simp add: persist_input_identity_frame)
    then show "change_log st' = (change_log st)(?key := retained n (change_log st ?key @ [ch]))"
      using retain_change_suffix_log [OF ret inv4] by (simp add: retained_def)
  qed (use fail appk(6) in simp_all)
qed

lemma check_repair_ok:
  assumes "check_repair st t p f = Inr (pn, g)"
  obtains failure fence where "map_of (pr_partitions st) (partition_key_new t p) = Some pn"
    "pn_stopped_failure_id pn = Some f" "map_of (pr_failures st) f = Some failure"
    "map_of (pr_failure_inputs st) f = Some fence"
    "ic_topology (pf_input failure) = t" "ic_partition (pf_input failure) = p"
    "pf_generation failure = pn_active_generation pn" "ff_cursor fence = pf_input failure"
    "g = pn_active_generation pn + 1" "g \<le> MAX_PROJECTION_POSITION"
    "\<not> hm_contains (pr_generations st) \<lparr>gk_partition = partition_key_new t p, gk_generation = g\<rparr>"
proof -
  let ?key = "partition_key_new t p"
  from assms obtain pn' where pn: "map_of (pr_partitions st) ?key = Some pn'"
    by (cases "map_of (pr_partitions st) ?key") (simp_all add: check_repair_def Let_def)
  from assms pn obtain f' where "pn_stopped_failure_id pn' = Some f'"
    by (cases "pn_stopped_failure_id pn'") (simp_all add: check_repair_def Let_def)
  with assms pn have stopped: "pn_stopped_failure_id pn' = Some f"
    by (cases "f' = f") (simp_all add: check_repair_def Let_def)
  from assms pn stopped obtain failure where failure: "map_of (pr_failures st) f = Some failure"
    by (cases "map_of (pr_failures st) f") (simp_all add: check_repair_def Let_def)
  from assms pn stopped failure obtain fence where fence: "map_of (pr_failure_inputs st) f = Some fence"
    by (cases "map_of (pr_failure_inputs st) f") (simp_all add: check_repair_def Let_def split: if_splits)
  from assms have "pn' = pn \<and> ic_topology (pf_input failure) = t \<and> ic_partition (pf_input failure) = p \<and>
      pf_generation failure = pn_active_generation pn \<and> ff_cursor fence = pf_input failure \<and>
      g = pn_active_generation pn + 1 \<and> pn_active_generation pn < MAX_PROJECTION_POSITION \<and>
      \<not> hm_contains (pr_generations st) \<lparr>gk_partition = ?key, gk_generation = g\<rparr>"
    by (simp add: check_repair_def Let_def pn stopped failure fence split: if_splits)
      (simp add: res_simps split: if_splits, blast)
  then show thesis
    using that pn stopped failure fence by auto
qed

lemma repair_projection_cases:
  assumes "repair_projection t p f be = (be', res)"
  obtains (refused) e where "check_repair (pj_protocol be) t p f = Inl e" "be' = be" "res = Inl e"
  | (repaired) pn g where "check_repair (pj_protocol be) t p f = Inr (pn, g)" "res = Inr g"
      "be' = be\<lparr>pj_protocol := (pj_protocol be)\<lparr>
         pr_inputs := copy_inputs (partition_key_new t p) (pn_active_generation pn) g
                        (pr_inputs (pj_protocol be)),
         pr_generations := AList.update \<lparr>gk_partition = partition_key_new t p, gk_generation = g\<rparr>
                             (lineage_retry_of (pn_active_generation pn) f)
                             (pr_generations (pj_protocol be)),
         pr_partitions := AList.update (partition_key_new t p)
                            (pn\<lparr>pn_active_generation := g, pn_stopped_failure_id := None,
                                pn_pending_retry_failure_id := Some f\<rparr>)
                            (pr_partitions (pj_protocol be))\<rparr>\<rparr>"
proof (cases "check_repair (pj_protocol be) t p f")
  case (Inl e)
  with assms [symmetric] show thesis by (intro refused) (simp_all add: repair_projection_def Let_def)
next
  case (Inr x)
  obtain pn g where x: "x = (pn, g)" by (cases x)
  show thesis
    by (rule repaired [OF Inr [unfolded x]]) (use assms [symmetric] Inr x in \<open>simp_all add: repair_projection_def Let_def\<close>)
qed

lemma repair_state_keeps:
  assumes inv: "protocol_inv st" and pn: "map_of (pr_partitions st) key = Some pn"
    and st': "st' = st\<lparr>pr_inputs := ins,
         pr_generations := AList.update \<lparr>gk_partition = key, gk_generation = g\<rparr> l (pr_generations st),
         pr_partitions := AList.update key (pn\<lparr>pn_active_generation := g, pn_stopped_failure_id := None,
             pn_pending_retry_failure_id := r\<rparr>) (pr_partitions st)\<rparr>"
    and "0 < g"
  shows "advances st st'" "change_log st' = change_log st"
proof -
  let ?pn' = "pn\<lparr>pn_active_generation := g, pn_stopped_failure_id := None,
                 pn_pending_retry_failure_id := r\<rparr>"
  have ext: "log_extends st st'"
    by (rule log_extendsI) (use pn in \<open>auto simp: st'\<close>)
  have gen: "hm_contains (pr_generations st') k"
    if "hm_contains (pr_generations st) k \<or> k = \<lparr>gk_partition = key, gk_generation = g\<rparr>" for k
    using that by (auto simp: st' hm_contains_def)
  have "hm_all (generation_ok st') (pr_partitions st)"
    using inv unfolding protocol_inv_def
    by (elim conjE, elim hm_all_mono) (rule generation_ok_mono, assumption, simp add: gen)
  moreover have "generation_ok st' key ?pn'"
    using \<open>0 < g\<close> by (simp add: generation_ok_def gen)
  ultimately have "hm_all (generation_ok st') (pr_partitions st')"
    by (simp add: st' hm_all_update)
  moreover have "change_log_ok key ?pn'"
    using protocol_inv_partition(1) [OF inv pn] by (simp add: change_log_ok_def)
  with inv have "hm_all change_log_ok (pr_partitions st')"
    by (simp add: st' protocol_inv_def hm_all_update)
  ultimately have "protocol_inv st'"
    using protocol_inv_step [OF inv ext] by (simp add: st')
  with ext show "advances st st'"
    by (simp add: advances_def records_advance_frame st')
  have "change_log st' key = change_log st key"
    by (simp add: change_log_def pn st')
  then show "change_log st' = change_log st"
    by (auto simp: change_log_def st' fun_eq_iff)
qed

lemma compact_projection_changes_cases:
  assumes "compact_projection_changes c be = (be', res)"
  obtains (refused) e where "be' = be" "res = Inl e"
  | (compacted) st n where "be' = be\<lparr>pj_protocol := st\<rparr>" "res = Inr n"
      "compact_changes_through (partition_key_new (cc_topology c) (cc_partition c)) (cc_position c)
         (pj_protocol be) = Inr (st, n)"
  using assms
  by (auto simp: compact_projection_changes_def Let_def split: option.splits if_splits sum.splits)

lemma map_le_update:
  "map_of m k = None \<or> map_of m k = Some v \<Longrightarrow> map_of m \<subseteq>\<^sub>m map_of (AList.update k v m)"
  by (auto simp: map_le_def)

lemma map_le_or_insert: "map_of m \<subseteq>\<^sub>m map_of (or_insert k v m)"
  by (auto simp: or_insert_def map_le_def split: option.splits)

section \<open>Registration and the same-transaction projection\<close>

lemma register_declaration_frame:
  assumes "register_declaration rows t st d = Inr st'"
  shows "\<exists>models owners. st' = st\<lparr>pr_registered_models := models, pr_table_owners := owners\<rparr> \<and>
           map_of (pr_registered_models st) \<subseteq>\<^sub>m map_of models \<and>
           map_of (pr_table_owners st) \<subseteq>\<^sub>m map_of owners"
proof -
  let ?k = "\<lparr>rg_topology = t, rg_model = ow_model d\<rparr>"
  from assms have "st' = st\<lparr>pr_registered_models := AList.update ?k (ow_table d) (pr_registered_models st),
        pr_table_owners := AList.update (ow_table d) ?k (pr_table_owners st)\<rparr>"
    and "map_of (pr_registered_models st) ?k = None \<or> map_of (pr_registered_models st) ?k = Some (ow_table d)"
    and "map_of (pr_table_owners st) (ow_table d) = None \<or> map_of (pr_table_owners st) (ow_table d) = Some ?k"
    by (auto simp: register_declaration_def Let_def res_simps split: option.splits if_splits)
  then show ?thesis
    by (intro exI conjI) (assumption | rule map_le_update)+
qed

lemma register_declarations_frame:
  assumes "try_fold (register_declaration rows t) st ds = Inr st'"
  shows "\<exists>models owners. st' = st\<lparr>pr_registered_models := models, pr_table_owners := owners\<rparr> \<and>
           map_of (pr_registered_models st) \<subseteq>\<^sub>m map_of models \<and>
           map_of (pr_table_owners st) \<subseteq>\<^sub>m map_of owners"
  using assms
proof (induction ds arbitrary: st)
  case Nil
  then show ?case
    by (intro exI [of _ "pr_registered_models st"] exI [of _ "pr_table_owners st"]) simp
next
  case (Cons d ds)
  from Cons.prems obtain mid where mid: "register_declaration rows t st d = Inr mid"
    and rest: "try_fold (register_declaration rows t) mid ds = Inr st'"
    by (auto simp: res_simps)
  from register_declaration_frame [OF mid] obtain m o' where
    m: "mid = st\<lparr>pr_registered_models := m, pr_table_owners := o'\<rparr>"
      "map_of (pr_registered_models st) \<subseteq>\<^sub>m map_of m" "map_of (pr_table_owners st) \<subseteq>\<^sub>m map_of o'" by blast
  from Cons.IH [OF rest] obtain m2 o2 where
    r: "st' = mid\<lparr>pr_registered_models := m2, pr_table_owners := o2\<rparr>"
    "map_of (pr_registered_models mid) \<subseteq>\<^sub>m map_of m2" "map_of (pr_table_owners mid) \<subseteq>\<^sub>m map_of o2"
    by blast
  show ?case
    by (intro exI [of _ m2] exI [of _ o2] conjI map_le_trans [OF m(2)] map_le_trans [OF m(3)])
      (use r in \<open>simp_all add: m(1)\<close>)
qed

lemma register_projection_models_cases:
  assumes "register_projection_models t ow be = (be', res)"
  obtains (refused) e where "be' = be" "res = Inl e"
  | (registered) models owners where "res = Inr ()"
      "be' = be\<lparr>pj_protocol := (pj_protocol be)
         \<lparr>pr_registered_topologies := insert t (pr_registered_topologies (pj_protocol be)),
          pr_registered_models := models, pr_table_owners := owners\<rparr>,
         pj_causal_tables := pj_causal_tables be \<union> set (map ow_table ow)\<rparr>"
      "map_of (pr_registered_models (pj_protocol be)) \<subseteq>\<^sub>m map_of models"
      "map_of (pr_table_owners (pj_protocol be)) \<subseteq>\<^sub>m map_of owners"
proof (cases "stage_registration t ow be")
  case (Inl e)
  with assms [symmetric] show thesis by (intro refused) (simp_all add: register_projection_models_def)
next
  case (Inr st)
  let ?st0 = "(pj_protocol be)\<lparr>pr_registered_topologies :=
                   insert t (pr_registered_topologies (pj_protocol be))\<rparr>"
  from Inr have st: "try_fold (register_declaration (pj_rows be) t) ?st0 ow = Inr st"
    by (simp add: stage_registration_def res_simps split: if_splits)
  from register_declarations_frame [OF st] obtain m o' where
    "st = ?st0\<lparr>pr_registered_models := m, pr_table_owners := o'\<rparr>"
    "map_of (pr_registered_models ?st0) \<subseteq>\<^sub>m map_of m"
    "map_of (pr_table_owners ?st0) \<subseteq>\<^sub>m map_of o'" by blast
  with assms [symmetric] Inr show thesis
    by (intro registered) (simp_all add: register_projection_models_def)
qed

lemma register_same_transaction_ownership_keeps:
  assumes "register_same_transaction_ownership key b st = Inr st'" "protocol_inv st"
  shows "advances st st'" "bookkeeping st' = bookkeeping st" "change_log st' = change_log st"
    "pr_records st' = pr_records st" "pr_observations st' = pr_observations st"
proof -
  from assms(1) obtain d where "bind_ownership key st d = Inr st'"
    by (cases "db_ownership b"; cases "db_mutations b")
      (auto simp: register_same_transaction_ownership_def res_simps split: if_splits)
  from bind_ownership_ok [OF this] obtain ows where st': "st' = st\<lparr>pr_ownership := ows\<rparr>" by blast
  show "advances st st'" by (rule advances_frame [OF assms(2)]) (simp_all add: st')
  show "bookkeeping st' = bookkeeping st"
    by (simp add: bookkeeping_def control_def st' fun_eq_iff)
  show "change_log st' = change_log st" by (rule change_log_frame) (simp add: st')
  show "pr_records st' = pr_records st" "pr_observations st' = pr_observations st"
    by (simp_all add: st')
qed

lemma direct_revision_ok:
  assumes "direct_revision st scope ex = Inr r"
  shows "rr_scope r = scope"
    "0 < rr_incarnation r \<and> rr_incarnation r \<le> MAX_PROJECTION_POSITION \<and>
     0 < rr_revision r \<and> rr_revision r \<le> MAX_PROJECTION_POSITION"
    "case map_of (pr_records st) scope of
       None \<Rightarrow> \<not> ex \<and> rr_incarnation r = 1 \<and> rr_revision r = 1
     | Some md \<Rightarrow> ex \<and> \<not> md_tombstone md \<and> rr_incarnation r = rr_incarnation (md_revision md) \<and>
         rr_revision r = Suc (rr_revision (md_revision md))"
  using assms
  by (cases "map_of (pr_records st) scope"; auto simp: direct_revision_def res_simps split: if_splits)+

lemma ensure_partition_keeps:
  assumes "ensure_partition key ep st = Inr st0" "protocol_inv st"
  shows "advances st st0" "change_log st0 = change_log st" "pr_records st0 = pr_records st"
    "pr_observations st0 = pr_observations st"
proof -
  note ens = ensure_partition_ok [OF assms]
  show obs: "pr_observations st0 = pr_observations st" and "change_log st0 = change_log st"
    using assms(1) by (auto simp: ensure_partition_def change_log_def partition_state_new_def fun_eq_iff
        split: option.splits if_splits)
  show "advances st st0" "pr_records st0 = pr_records st"
    using ens obs by (simp_all add: advances_def records_advance_frame)
qed

lemma stage_same_transaction_projection_steps:
  assumes stage: "stage_same_transaction_projection fmt b n st rows = Inr (st', rows', ev)"
  obtains st0 st1 m ms revision st2 ch k where
    "validate_direct_batch b = Inr ()"
    "ensure_partition (partition_key_new (db_topology b) (db_partition b)) (db_change_epoch b) st = Inr st0"
    "\<And>g s r. control st0 (partition_key_new (db_topology b) (db_partition b)) = Some (g, s, r) \<Longrightarrow>
       s = None \<and> r = None"
    "register_same_transaction_ownership (partition_key_new (db_topology b) (db_partition b)) b st0 = Inr st1"
    "db_mutations b = m # ms"
    "direct_revision st1 (dm_scope m) (hm_contains rows (lock_key fmt (dm_mutation m))) = Inr revision"
    "append_change (partition_key_new (db_topology b) (db_partition b))
       (record_change RecordUpsert (db_causation_id b) (dm_scope m) revision) st1 = Inr (st2, ch)"
    "ensure_live_record_identity_available st2
       \<lparr>md_revision = revision, md_tombstone = False, md_change = ch_cursor ch\<rparr> = Inr ()"
    "apply_read_model_write_plan fmt [dm_mutation m] rows = Inr rows'"
    "hm_contains rows' (lock_key fmt (dm_mutation m))"
    "\<not> hm_contains (pr_observations st2)
        \<lparr>vk_causation_id = db_causation_id b, vk_scope = dm_scope m, vk_kind = RecordObservation\<rparr>"
    "retain_change_suffix (partition_key_new (db_topology b) (db_partition b)) n
       (st2\<lparr>pr_records := AList.update (dm_scope m)
              \<lparr>md_revision = revision, md_tombstone = False, md_change = ch_cursor ch\<rparr> (pr_records st2),
            pr_observations := AList.update
              \<lparr>vk_causation_id = db_causation_id b, vk_scope = dm_scope m, vk_kind = RecordObservation\<rparr>
              \<lparr>po_causation_id = db_causation_id b, po_kind = RecordObservation,
               po_revision = Some revision, po_scope = dm_scope m, po_change = ch_cursor ch\<rparr>
              (pr_observations st2)\<rparr>) = Inr (st', k)"
    "ev = \<lparr>se_records = [\<lparr>md_revision = revision, md_tombstone = False, md_change = ch_cursor ch\<rparr>],
           se_changes = [ch],
           se_observations = [\<lparr>po_causation_id = db_causation_id b, po_kind = RecordObservation,
               po_revision = Some revision, po_scope = dm_scope m, po_change = ch_cursor ch\<rparr>]\<rparr>"
proof -
  let ?key = "partition_key_new (db_topology b) (db_partition b)"
  from stage obtain st0 st1 where
    v: "validate_direct_batch b = Inr ()"
    and st0: "ensure_partition ?key (db_change_epoch b) st = Inr st0"
    and free: "(case map_of (pr_partitions st0) ?key of
               None \<Rightarrow> Inr ()
             | Some pn \<Rightarrow>
                 (case pn_stopped_failure_id pn of
                    Some f \<Rightarrow> Inl (Fails (PartitionStopped f))
                  | None \<Rightarrow> if pn_pending_retry_failure_id pn \<noteq> None
                            then Inl (Fails IncomparableInput) else Inr ())) = Inr ()"
    and st1: "register_same_transaction_ownership ?key b st0 = Inr st1"
    by (auto simp: stage_same_transaction_projection_def Let_def res_simps)
  have ctl: "s = None \<and> r = None" if "control st0 ?key = Some (g, s, r)" for g s r
    using that free by (auto simp: control_cases split: option.splits if_splits)
  from st1 obtain m ms where m: "db_mutations b = m # ms"
    by (cases "db_mutations b")
      (auto simp: register_same_transaction_ownership_def res_simps split: list.splits)
  from v obtain u where req: "require_registered_topology st (db_topology b) = Inr u"
    using stage by (auto simp: stage_same_transaction_projection_def Let_def res_simps)
  note rest = stage [unfolded stage_same_transaction_projection_def Let_def v req st0 free st1 m]
  from rest show thesis
    apply (simp only: v req st0 free st1 m map_err.simps rbind.simps list.case rbind_Inr_iff
        map_err_Inr_iff split_paired_Ex prod.case)
    apply (elim exE conjE)
    subgoal premises prems for revision st2 ch u' rows''
    proof -
      have row: "hm_contains rows'' (lock_key fmt (dm_mutation m))"
        using prems(5) by (rule contrapos_pp) simp
      have fresh: "\<not> hm_contains (pr_observations st2)
          \<lparr>vk_causation_id = db_causation_id b, vk_scope = dm_scope m, vk_kind = RecordObservation\<rparr>"
        using prems(5) by (rule contrapos_pn) (simp add: row)
      from prems(5) row fresh obtain k where
        ret: "retain_change_suffix (partition_key_new (db_topology b) (db_partition b)) n
           (st2\<lparr>pr_records := AList.update (dm_scope m)
                  \<lparr>md_revision = revision, md_tombstone = False, md_change = ch_cursor ch\<rparr> (pr_records st2),
                pr_observations := AList.update
                  \<lparr>vk_causation_id = db_causation_id b, vk_scope = dm_scope m, vk_kind = RecordObservation\<rparr>
                  \<lparr>po_causation_id = db_causation_id b, po_kind = RecordObservation,
                   po_revision = Some revision, po_scope = dm_scope m, po_change = ch_cursor ch\<rparr>
                  (pr_observations st2)\<rparr>) = Inr (st', k)"
        and "rows'' = rows'"
        and ev: "ev = \<lparr>se_records = [\<lparr>md_revision = revision, md_tombstone = False, md_change = ch_cursor ch\<rparr>],
           se_changes = [ch],
           se_observations = [\<lparr>po_causation_id = db_causation_id b, po_kind = RecordObservation,
               po_revision = Some revision, po_scope = dm_scope m, po_change = ch_cursor ch\<rparr>]\<rparr>"
        by (auto simp: res_simps)
      moreover have "ensure_live_record_identity_available st2
         \<lparr>md_revision = revision, md_tombstone = False, md_change = ch_cursor ch\<rparr> = Inr ()"
        using prems(3) by simp
      ultimately show thesis
        using that [OF v st0 _ st1 m prems(1,2)] ctl prems(4) row fresh by blast
    qed
    done
qed
lemma stage_same_transaction_projection_ok:
  assumes stage: "stage_same_transaction_projection fmt b n st rows = Inr (st', rows', ev)"
    and inv: "protocol_inv st"
  obtains st0 md ch where "advances st st'"
    "ensure_partition (partition_key_new (db_topology b) (db_partition b)) (db_change_epoch b) st = Inr st0"
    "bookkeeping st' = bookkeeping st0" "se_records ev = [md]" "se_changes ev = [ch]"
    "map_of (pr_records st') (rr_scope (md_revision md)) = Some md"
    "change_log st' = (change_log st)(partition_key_new (db_topology b) (db_partition b) :=
       retained n (change_log st (partition_key_new (db_topology b) (db_partition b)) @ [ch]))"
  using stage
proof (rule stage_same_transaction_projection_steps, goal_cases)
  case (1 st0 st1 m ms r st2 ch k)
  let ?key = "partition_key_new (db_topology b) (db_partition b)"
  let ?md = "\<lparr>md_revision = r, md_tombstone = False, md_change = ch_cursor ch\<rparr>"
  let ?st3 = "st2\<lparr>pr_records := AList.update (dm_scope m) ?md (pr_records st2)\<rparr>"
  note ens = ensure_partition_keeps [OF 1(3) inv]
  have inv0: "protocol_inv st0" using ens(1) by (simp add: advances_def)
  note own = register_same_transaction_ownership_keeps [OF 1(5) inv0]
  have inv1: "protocol_inv st1" using own(1) by (simp add: advances_def)
  note app = append_change_keeps [OF 1(8) inv1] and appo = append_change_ok [OF 1(8) inv1]
  from 1(2) have "in_scope ?key (dm_scope m)"
    by (rule validate_direct_batch_ok) (use 1(6) in \<open>simp add: in_scope_def partition_key_new_def\<close>)
  with direct_revision_ok [OF 1(7)] appo(3-5) have rec: "record_ok st2 (dm_scope m) ?md"
    by (simp add: record_ok_def in_scope_def)
  have newer: "case map_of (pr_records st2) (dm_scope m) of None \<Rightarrow> True
      | Some old \<Rightarrow> revision_pair old < revision_pair ?md"
    using direct_revision_ok(3) [OF 1(7)] app(3)
    by (simp add: revision_pair_def split: option.splits)
  note ins = insert_record_keeps [OF appo(1) rec 1(9) newer refl]
  have inv3: "protocol_inv ?st3" using ins(1) by (simp add: advances_def)
  have nob: "\<not> hm_contains (pr_observations ?st3)
        \<lparr>vk_causation_id = db_causation_id b, vk_scope = dm_scope m, vk_kind = RecordObservation\<rparr>"
    using 1(12) by simp
  note obs = add_observation_keeps [OF inv3 nob refl]
  note ret' = 1(13)
  let ?st4 = "st2\<lparr>pr_records := AList.update (dm_scope m) ?md (pr_records st2),
            pr_observations := AList.update
              \<lparr>vk_causation_id = db_causation_id b, vk_scope = dm_scope m, vk_kind = RecordObservation\<rparr>
              \<lparr>po_causation_id = db_causation_id b, po_kind = RecordObservation,
               po_revision = Some r, po_scope = dm_scope m, po_change = ch_cursor ch\<rparr>
              (pr_observations st2)\<rparr>"
  have obs4: "advances ?st3 ?st4" "bookkeeping ?st4 = bookkeeping ?st3"
    using obs [where ob = "\<lparr>po_causation_id = db_causation_id b, po_kind = RecordObservation,
               po_revision = Some r, po_scope = dm_scope m, po_change = ch_cursor ch\<rparr>"] by simp_all
  have inv4: "protocol_inv ?st4" using obs4(1) by (simp add: advances_def)
  note ret = retain_change_suffix_keeps [OF ret' inv4]
  have "change_log ?st4 = extend_log st ?key [ch]"
    using change_log_frame [of ?st4 st2] app(9) own(3) ens(2) by simp
  then have log: "change_log st' = (change_log st)(?key := retained n (change_log st ?key @ [ch]))"
    using retain_change_suffix_log [OF ret' inv4] by (simp add: retained_def)
  have adv: "advances st st'"
    by (rule advances_trans [OF ens(1) advances_trans [OF own(1) advances_trans [OF app(1)
          advances_trans [OF ins(1) advances_trans [OF obs4(1) ret(1)]]]]])
  have book: "bookkeeping st' = bookkeeping st0"
    by (simp only: own(2) app(2) ins(2) obs4(2) ret(2))
  have "map_of (pr_records st') (rr_scope (md_revision ?md)) = Some ?md"
    using ret(3) direct_revision_ok(1) [OF 1(7)] by simp
  then show ?case
    by (intro that [of st0 ?md ch, OF adv 1(3) book _ _ _ log]) (simp_all add: 1(14))
qed

section \<open>Reachable stores\<close>

text \<open>
  One transaction on the store; \<open>elsewhere\<close> stands for every other transaction of the repository,
  which may write rows and inbox receipts but never the protocol state.
\<close>

inductive projection_step ::
  "table_fmt \<Rightarrow> (byte list \<Rightarrow> byte list) \<Rightarrow> 'z projection_backend_scheme
     \<Rightarrow> 'z projection_backend_scheme \<Rightarrow> bool" for fmt sha where
  register: "register_projection_models t ow be = (be', res) \<Longrightarrow> projection_step fmt sha be be'"
| commit: "commit_projection fmt now b be = (be', res) \<Longrightarrow> projection_step fmt sha be be'"
| failure: "record_projection_failure sha now fb be = (be', res) \<Longrightarrow> projection_step fmt sha be be'"
| repair: "repair_projection t p f be = (be', res) \<Longrightarrow> projection_step fmt sha be be'"
| compact: "compact_projection_changes c be = (be', res) \<Longrightarrow> projection_step fmt sha be be'"
| direct: "stage_same_transaction_projection fmt db (pj_retention be) (pj_protocol be) (pj_rows be)
             = Inr (st, rows, ev) \<Longrightarrow>
           projection_step fmt sha be (be\<lparr>pj_rows := rows, pj_protocol := st\<rparr>)"
| elsewhere: "pj_inbox be \<subseteq> inbox \<Longrightarrow>
           projection_step fmt sha be (be\<lparr>pj_rows := rows, pj_inbox := inbox\<rparr>)"

abbreviation projection_steps where
  "projection_steps fmt sha \<equiv> (projection_step fmt sha)\<^sup>*\<^sup>*"

text \<open>Everything a later store still knows of an earlier one.\<close>

definition history_kept :: "'z projection_backend_scheme \<Rightarrow> 'z projection_backend_scheme \<Rightarrow> bool" where
  "history_kept be be' \<longleftrightarrow>
     (let st = pj_protocol be; st' = pj_protocol be' in
      advances st st' \<and> pj_inbox be \<subseteq> pj_inbox be' \<and>
      map_of (pr_applied_receipts st) \<subseteq>\<^sub>m map_of (pr_applied_receipts st') \<and>
      map_of (pr_input_identities st) \<subseteq>\<^sub>m map_of (pr_input_identities st') \<and>
      map_of (pr_messages st) \<subseteq>\<^sub>m map_of (pr_messages st') \<and>
      map_of (pr_gap_free_capabilities st) \<subseteq>\<^sub>m map_of (pr_gap_free_capabilities st') \<and>
      map_of (pr_failures st) \<subseteq>\<^sub>m map_of (pr_failures st') \<and>
      map_of (pr_generations st) \<subseteq>\<^sub>m map_of (pr_generations st') \<and>
      pr_registered_topologies st \<subseteq> pr_registered_topologies st' \<and>
      map_of (pr_registered_models st) \<subseteq>\<^sub>m map_of (pr_registered_models st') \<and>
      map_of (pr_table_owners st) \<subseteq>\<^sub>m map_of (pr_table_owners st'))"

lemma history_kept_refl: "protocol_inv (pj_protocol be) \<Longrightarrow> history_kept be be"
  by (simp add: history_kept_def advances_refl)

lemma history_kept_trans: "history_kept a b \<Longrightarrow> history_kept b c \<Longrightarrow> history_kept a c"
  unfolding history_kept_def Let_def
  by (elim conjE, intro conjI) (assumption | rule advances_trans map_le_trans subset_trans)+

section \<open>Failures and generations\<close>

text \<open>
  Generations and receipts never run ahead of the active generation, a failure carries its own
  identifier and input fence, and a stopped or repaired partition points at a failure of its own.
\<close>

definition fence_of :: "projection_failure \<Rightarrow> failed_input_fence" where
  "fence_of fl =
     \<lparr>ff_cursor = pf_input fl, ff_fingerprint = pf_input_fingerprint fl,
      ff_message_id = pf_message_id fl, ff_causation_id = pf_causation_id fl,
      ff_generation = pf_generation fl, ff_gap_free = pf_gap_free fl\<rparr>"

definition failed_in :: "protocol_state \<Rightarrow> partition_key \<Rightarrow> nat \<Rightarrow> string \<Rightarrow> bool" where
  "failed_in st key g f \<longleftrightarrow>
     (case map_of (pr_failures st) f of
        None \<Rightarrow> False
      | Some fl \<Rightarrow> from_input (pf_input fl) = key \<and> pf_generation fl = g)"

definition generation_reached :: "protocol_state \<Rightarrow> partition_key \<Rightarrow> nat \<Rightarrow> bool" where
  "generation_reached st key g \<longleftrightarrow>
     (case control st key of None \<Rightarrow> False | Some (active, _, _) \<Rightarrow> g \<le> active)"

definition lineage_ok :: "protocol_state \<Rightarrow> generation_key \<Rightarrow> generation_lineage \<Rightarrow> bool" where
  "lineage_ok st gk l \<longleftrightarrow>
     generation_reached st (gk_partition gk) (gk_generation gk) \<and>
     (case gl_retry_of_failure_id l of
        None \<Rightarrow> True
      | Some f \<Rightarrow> failed_in st (gk_partition gk) (gk_generation gk - 1) f \<and> 0 < gk_generation gk)"

definition receipt_ok :: "protocol_state \<Rightarrow> cursor_receipt_key \<Rightarrow> applied_receipt \<Rightarrow> bool" where
  "receipt_ok st rk _ \<longleftrightarrow> generation_reached st (rk_partition rk) (rk_generation rk)"

definition input_ok :: "protocol_state \<Rightarrow> input_key \<Rightarrow> stored_input \<Rightarrow> bool" where
  "input_ok st ik _ \<longleftrightarrow> generation_reached st (ik_partition ik) (ik_generation ik)"

definition failure_ok :: "protocol_state \<Rightarrow> string \<Rightarrow> projection_failure \<Rightarrow> bool" where
  "failure_ok st f fl \<longleftrightarrow> pf_failure_id fl = f \<and> map_of (pr_failure_inputs st) f = Some (fence_of fl)"

definition control_ok :: "protocol_state \<Rightarrow> partition_key \<Rightarrow> bool" where
  "control_ok st key \<longleftrightarrow>
     (case control st key of
        None \<Rightarrow> True
      | Some (g, s, r) \<Rightarrow>
          (case s of None \<Rightarrow> True | Some f \<Rightarrow> r = None \<and> failed_in st key g f) \<and>
          (case r of None \<Rightarrow> True | Some f \<Rightarrow> 0 < g \<and> failed_in st key (g - 1) f))"

definition lineage_inv :: "protocol_state \<Rightarrow> bool" where
  "lineage_inv st \<longleftrightarrow>
     hm_all (lineage_ok st) (pr_generations st) \<and> hm_all (receipt_ok st) (pr_applied_receipts st) \<and>
     hm_wf (pr_inputs st) \<and> hm_all (input_ok st) (pr_inputs st) \<and>
     hm_all (failure_ok st) (pr_failures st) \<and> (\<forall>key. control_ok st key)"

definition store_inv :: "'z projection_backend_scheme \<Rightarrow> bool" where
  "store_inv be \<longleftrightarrow> protocol_inv (pj_protocol be) \<and> lineage_inv (pj_protocol be)"

lemma bookkeeping_fields:
  assumes "bookkeeping st = bookkeeping st'"
  shows "control st = control st'" "pr_generations st = pr_generations st'"
    "pr_inputs st = pr_inputs st'" "pr_input_identities st = pr_input_identities st'"
    "pr_messages st = pr_messages st'" "pr_applied_receipts st = pr_applied_receipts st'"
    "pr_registered_topologies st = pr_registered_topologies st'"
    "pr_registered_models st = pr_registered_models st'" "pr_table_owners st = pr_table_owners st'"
    "pr_gap_free_capabilities st = pr_gap_free_capabilities st'"
    "pr_failures st = pr_failures st'" "pr_failure_inputs st = pr_failure_inputs st'"
  using assms by (simp_all add: bookkeeping_def)

lemma lineage_inv_cong:
  assumes "control st = control st'" "pr_generations st = pr_generations st'"
    "pr_inputs st = pr_inputs st'" "pr_applied_receipts st = pr_applied_receipts st'"
    "pr_failures st = pr_failures st'" "pr_failure_inputs st = pr_failure_inputs st'"
  shows "lineage_inv st = lineage_inv st'"
proof -
  have f: "failed_in st = failed_in st'" and g: "generation_reached st = generation_reached st'"
    by (simp_all add: failed_in_def generation_reached_def assms fun_eq_iff)
  have "lineage_ok st = lineage_ok st'" "receipt_ok st = receipt_ok st'" "input_ok st = input_ok st'"
    "failure_ok st = failure_ok st'" "control_ok st = control_ok st'"
    unfolding lineage_ok_def [abs_def] receipt_ok_def [abs_def] input_ok_def [abs_def]
      failure_ok_def [abs_def] control_ok_def [abs_def] f g assms by (rule refl)+
  then show ?thesis by (simp only: lineage_inv_def assms)
qed

lemma lineage_inv_bookkeeping:
  "bookkeeping st = bookkeeping st' \<Longrightarrow> lineage_inv st = lineage_inv st'"
  by (rule lineage_inv_cong) (simp_all add: bookkeeping_def)

lemma generation_reached_mono:
  assumes "generation_reached st key g"
    and "\<And>a s r. control st key = Some (a, s, r) \<Longrightarrow> \<exists>a' s' r'. control st' key = Some (a', s', r') \<and> a \<le> a'"
  shows "generation_reached st' key g"
  using assms unfolding generation_reached_def
  by (cases "control st key") (force split: prod.splits)+

lemma failed_in_mono:
  "failed_in st key g f \<Longrightarrow> map_of (pr_failures st) \<subseteq>\<^sub>m map_of (pr_failures st') \<Longrightarrow> failed_in st' key g f"
  by (auto simp: failed_in_def map_le_def dom_def split: option.splits)

text \<open>
  The shape of every transaction: new entries are correct by themselves, and one partition may
  change its control word.
\<close>

lemma lineage_inv_step:
  assumes inv: "lineage_inv st"
    and reached: "\<And>key g. generation_reached st key g \<Longrightarrow> generation_reached st' key g"
    and fails: "map_of (pr_failures st) \<subseteq>\<^sub>m map_of (pr_failures st')"
    and gens: "pr_generations st' = pr_generations st \<or>
      (\<exists>k l. pr_generations st' = AList.update k l (pr_generations st) \<and> lineage_ok st' k l)"
    and recs: "pr_applied_receipts st' = pr_applied_receipts st \<or>
      (\<exists>k v. pr_applied_receipts st' = AList.update k v (pr_applied_receipts st) \<and> receipt_ok st' k v)"
    and inps: "pr_inputs st' = pr_inputs st \<or>
      hm_wf (pr_inputs st') \<and> hm_all (input_ok st') (pr_inputs st')"
    and flrs: "hm_all (failure_ok st') (pr_failures st')"
    and ctl: "\<And>key'. key' \<noteq> key \<Longrightarrow> control st' key' = control st key'" "control_ok st' key"
  shows "lineage_inv st'"
proof -
  have l: "lineage_ok st' k v" if "lineage_ok st k v" for k v
    using that reached failed_in_mono [OF _ fails] unfolding lineage_ok_def
    by (auto split: option.splits)
  have r: "receipt_ok st' k v" if "receipt_ok st k v" for k v
    using that reached unfolding receipt_ok_def by blast
  have "hm_all (lineage_ok st') (pr_generations st)" "hm_all (receipt_ok st') (pr_applied_receipts st)"
    using inv hm_all_mono l r unfolding lineage_inv_def by blast+
  then have "hm_all (lineage_ok st') (pr_generations st')" "hm_all (receipt_ok st') (pr_applied_receipts st')"
    using gens recs hm_all_update by metis+
  moreover have i: "input_ok st' k v" if "input_ok st k v" for k v
    using that reached unfolding input_ok_def by blast
  have "hm_wf (pr_inputs st') \<and> hm_all (input_ok st') (pr_inputs st')"
    using inps inv hm_all_mono [OF _ i] unfolding lineage_inv_def by auto
  moreover have "control_ok st' k" for k
  proof (cases "k = key")
    case False
    have "control_ok st k" using inv by (simp add: lineage_inv_def)
    with ctl(1) [OF False] show ?thesis
      unfolding control_ok_def by (auto split: option.splits intro: failed_in_mono [OF _ fails])
  qed (use ctl(2) in simp)
  ultimately show ?thesis
    using flrs by (simp add: lineage_inv_def)
qed

lemma lineage_invD:
  assumes "lineage_inv st"
  shows "map_of (pr_generations st) gk = Some l \<Longrightarrow> lineage_ok st gk l"
    "map_of (pr_applied_receipts st) rk = Some v \<Longrightarrow> receipt_ok st rk v"
    "map_of (pr_failures st) f = Some fl \<Longrightarrow> failure_ok st f fl"
    "control_ok st key" "map_of (pr_inputs st) ik = Some sn \<Longrightarrow> input_ok st ik sn"
  using assms hm_all_lookup [of "input_ok st" "pr_inputs st" ik sn] hm_all_lookup [of "lineage_ok st" "pr_generations st" gk l]
    hm_all_lookup [of "receipt_ok st" "pr_applied_receipts st" rk v]
    hm_all_lookup [of "failure_ok st" "pr_failures st" f fl]
  by (simp_all add: lineage_inv_def)

lemma ensure_partition_lineage:
  assumes ens: "ensure_partition key ep st = Inr st0" and inv: "lineage_inv st"
  shows "lineage_inv st0" "map_of (pr_generations st) \<subseteq>\<^sub>m map_of (pr_generations st0)"
    "control st0 = (if control st key = None then (control st)(key \<mapsto> (generation_initial, None, None))
                    else control st)"
proof -
  have "lineage_inv st0 \<and> map_of (pr_generations st) \<subseteq>\<^sub>m map_of (pr_generations st0) \<and>
    control st0 = (if control st key = None then (control st)(key \<mapsto> (generation_initial, None, None))
                    else control st)"
  proof (cases "map_of (pr_partitions st) key")
    case None
    let ?g = "\<lparr>gk_partition = key, gk_generation = generation_initial\<rparr>"
    from None ens have st0: "st0 = st\<lparr>
        pr_partitions := AList.update key (partition_state_new ep) (pr_partitions st),
        pr_generations := AList.update ?g lineage_initial (pr_generations st)\<rparr>"
      by (simp add: ensure_partition_def)
    have fresh: "control st key = None" by (simp add: control_def None)
    have ctl: "control st0 = (control st)(key \<mapsto> (generation_initial, None, None))"
      by (auto simp: control_def st0 partition_state_new_def fun_eq_iff)
    have reached: "generation_reached st0 k g" if "generation_reached st k g" for k g
      by (rule generation_reached_mono [OF that]) (use fresh in \<open>auto simp: ctl\<close>)
    have here: "generation_reached st0 key generation_initial"
      by (simp add: generation_reached_def ctl)
    have fo: "failure_ok st0 = failure_ok st"
      by (simp add: failure_ok_def st0 fun_eq_iff)
    have "lineage_inv st0"
    proof (rule lineage_inv_step [OF inv reached, where key = key])
      show "pr_generations st0 = pr_generations st \<or>
        (\<exists>k l. pr_generations st0 = AList.update k l (pr_generations st) \<and> lineage_ok st0 k l)"
        by (intro disjI2 exI [of _ ?g] exI [of _ lineage_initial])
          (use here in \<open>simp add: st0 lineage_ok_def lineage_initial_def\<close>)
      show "hm_all (failure_ok st0) (pr_failures st0)"
        using inv by (simp add: fo lineage_inv_def) (simp add: st0)
    qed (simp_all add: ctl control_ok_def, simp_all add: st0)
    moreover have "map_of (pr_generations st) ?g = None"
    proof (rule ccontr)
      assume "map_of (pr_generations st) ?g \<noteq> None"
      then obtain l where "map_of (pr_generations st) ?g = Some l" by blast
      from lineage_invD(1) [OF inv this] have "lineage_ok st ?g l" .
      then show False by (simp add: lineage_ok_def generation_reached_def fresh)
    qed
    then have "map_of (pr_generations st) \<subseteq>\<^sub>m map_of (pr_generations st0)"
      using map_le_update [of "pr_generations st" ?g lineage_initial] by (simp add: st0)
    ultimately show ?thesis
      using ctl fresh by simp
  next
    case (Some pn)
    with ens inv show ?thesis
      by (simp add: ensure_partition_def control_def split: if_splits)
  qed
  then show "lineage_inv st0" "map_of (pr_generations st) \<subseteq>\<^sub>m map_of (pr_generations st0)"
    "control st0 = (if control st key = None then (control st)(key \<mapsto> (generation_initial, None, None))
                    else control st)"
    by blast+
qed

lemma ensure_partition_frame:
  assumes "ensure_partition key ep st = Inr st0"
  shows "pr_inputs st0 = pr_inputs st" "pr_input_identities st0 = pr_input_identities st"
    "pr_messages st0 = pr_messages st" "pr_applied_receipts st0 = pr_applied_receipts st"
    "pr_registered_topologies st0 = pr_registered_topologies st"
    "pr_registered_models st0 = pr_registered_models st" "pr_table_owners st0 = pr_table_owners st"
    "pr_gap_free_capabilities st0 = pr_gap_free_capabilities st"
    "pr_failures st0 = pr_failures st" "pr_failure_inputs st0 = pr_failure_inputs st"
  using assms by (auto simp: ensure_partition_def split: option.splits if_splits)

lemma opened_lineage:
  assumes op: "opened i ep st st1" and inv: "lineage_inv st"
  shows "lineage_inv st1" "map_of (pr_generations st) \<subseteq>\<^sub>m map_of (pr_generations st1)"
    "control st1 = (if control st (from_input (ti_cursor i)) = None
       then (control st)(from_input (ti_cursor i) \<mapsto> (generation_initial, None, None)) else control st)"
    "pr_gap_free_capabilities st1 =
       or_insert (source_capability_key_new (ti_cursor i)) (ti_gap_free i) (pr_gap_free_capabilities st)"
    "pr_inputs st1 = pr_inputs st" "pr_input_identities st1 = pr_input_identities st"
    "pr_messages st1 = pr_messages st" "pr_applied_receipts st1 = pr_applied_receipts st"
    "pr_registered_topologies st1 = pr_registered_topologies st"
    "pr_registered_models st1 = pr_registered_models st" "pr_table_owners st1 = pr_table_owners st"
    "pr_failures st1 = pr_failures st" "pr_failure_inputs st1 = pr_failure_inputs st"
proof -
  from op obtain st0 where st0: "ensure_partition (from_input (ti_cursor i)) ep st = Inr st0"
    and st1: "st1 = st0\<lparr>pr_gap_free_capabilities :=
                    or_insert (source_capability_key_new (ti_cursor i)) (ti_gap_free i)
                      (pr_gap_free_capabilities st0)\<rparr>"
    unfolding opened_def by blast
  note ens = ensure_partition_lineage [OF st0 inv] and frame = ensure_partition_frame [OF st0]
  have ctl: "control st1 = control st0" by (simp add: control_def st1 fun_eq_iff)
  have "lineage_inv st1 = lineage_inv st0"
    by (rule lineage_inv_cong) (simp_all add: ctl, simp_all add: st1)
  with ens(1) show "lineage_inv st1" by simp
  show "control st1 = (if control st (from_input (ti_cursor i)) = None
       then (control st)(from_input (ti_cursor i) \<mapsto> (generation_initial, None, None)) else control st)"
    by (simp only: ctl ens(3))
qed (use op in \<open>auto simp: opened_def ensure_partition_frame
       dest: ensure_partition_lineage(2) [OF _ inv]\<close>)

lemma validated_control:
  assumes "validate_partition st key i ep = Inr ()"
  shows "control st key = None \<and> ti_generation i = generation_initial \<or>
         (\<exists>r. control st key = Some (ti_generation i, None, r))"
  using assms
  by (auto simp: validate_partition_def res_simps control_def split: option.splits if_splits)

end
