(* ===== verification/Projection_History.thy ===== *)
theory Projection_History
  imports Projection_Safety
begin

text \<open>
  What the projection store remembers: every transaction keeps the generation and failure
  bookkeeping consistent and only ever adds to receipts, identities, failures and registrations.
\<close>

section \<open>Committing and failing an input\<close>

lemma bookkeeping_rest:
  assumes "snd (bookkeeping st) = snd (bookkeeping st')"
  shows "pr_generations st = pr_generations st'"
    "pr_inputs st = pr_inputs st'" "pr_input_identities st = pr_input_identities st'"
    "pr_messages st = pr_messages st'" "pr_applied_receipts st = pr_applied_receipts st'"
    "pr_registered_topologies st = pr_registered_topologies st'"
    "pr_registered_models st = pr_registered_models st'" "pr_table_owners st = pr_table_owners st'"
    "pr_gap_free_capabilities st = pr_gap_free_capabilities st'"
    "pr_failures st = pr_failures st'" "pr_failure_inputs st = pr_failure_inputs st'"
  using assms by (simp_all add: bookkeeping_def)

lemma classify_new_fresh:
  "classify_input st i = Inr NewInput \<Longrightarrow>
   map_of (pr_applied_receipts st) (cursor_receipt_key_new (ti_cursor i) (ti_generation i)) = None"
  by (cases "map_of (pr_applied_receipts st) (cursor_receipt_key_new (ti_cursor i) (ti_generation i))")
    (auto simp: classify_input_def Let_def res_simps split: if_splits)

definition receipt_of :: "trusted_input \<Rightarrow> checkpoint \<Rightarrow> applied_receipt" where
  "receipt_of i cp =
     \<lparr>ar_fingerprint = ti_fingerprint i, ar_message_id = ti_message_id i,
      ar_causation_id = ti_causation_id i, ar_gap_free = ti_gap_free i, ar_checkpoint = cp\<rparr>"

lemma note_input_fields:
  "pr_applied_receipts (note_input i cp st) =
     AList.update (cursor_receipt_key_new (ti_cursor i) (ti_generation i)) (receipt_of i cp)
       (pr_applied_receipts st)"
  "pr_input_identities (note_input i cp st) = pr_input_identities (persist_input_identity i st)"
  "pr_messages (note_input i cp st) = pr_messages (persist_input_identity i st)"
  "pr_gap_free_capabilities (note_input i cp st) = pr_gap_free_capabilities st"
  "pr_inputs (note_input i cp st) =
     AList.update (input_key_new (ti_cursor i) (ti_generation i))
       \<lparr>sn_cursor = ti_cursor i, sn_fingerprint = ti_fingerprint i, sn_message_id = ti_message_id i,
        sn_causation_id = ti_causation_id i, sn_checkpoint = cp, sn_gap_free = ti_gap_free i\<rparr>
       (pr_inputs st)"
  "pr_failures (note_input i cp st) = pr_failures st"
  "pr_failure_inputs (note_input i cp st) = pr_failure_inputs st"
  "pr_registered_topologies (note_input i cp st) = pr_registered_topologies st"
  "pr_registered_models (note_input i cp st) = pr_registered_models st"
  "pr_table_owners (note_input i cp st) = pr_table_owners st"
  by (simp_all add: note_input_def persist_input_identity_def receipt_of_def Let_def)

lemma persist_input_identity_le:
  "map_of (pr_input_identities st) \<subseteq>\<^sub>m map_of (pr_input_identities (persist_input_identity i st))"
  "map_of (pr_messages st) \<subseteq>\<^sub>m map_of (pr_messages (persist_input_identity i st))"
  by (simp_all add: persist_input_identity_def map_le_or_insert)

text \<open>The history of the protocol state alone.\<close>

definition protocol_grows :: "protocol_state \<Rightarrow> protocol_state \<Rightarrow> bool" where
  "protocol_grows st st' \<longleftrightarrow>
     map_of (pr_applied_receipts st) \<subseteq>\<^sub>m map_of (pr_applied_receipts st') \<and>
     map_of (pr_input_identities st) \<subseteq>\<^sub>m map_of (pr_input_identities st') \<and>
     map_of (pr_messages st) \<subseteq>\<^sub>m map_of (pr_messages st') \<and>
     map_of (pr_gap_free_capabilities st) \<subseteq>\<^sub>m map_of (pr_gap_free_capabilities st') \<and>
     map_of (pr_failures st) \<subseteq>\<^sub>m map_of (pr_failures st') \<and>
     map_of (pr_generations st) \<subseteq>\<^sub>m map_of (pr_generations st') \<and>
     pr_registered_topologies st \<subseteq> pr_registered_topologies st' \<and>
     map_of (pr_registered_models st) \<subseteq>\<^sub>m map_of (pr_registered_models st') \<and>
     map_of (pr_table_owners st) \<subseteq>\<^sub>m map_of (pr_table_owners st')"

lemma history_kept_iff:
  "history_kept be be' \<longleftrightarrow>
     advances (pj_protocol be) (pj_protocol be') \<and> pj_inbox be \<subseteq> pj_inbox be' \<and>
     protocol_grows (pj_protocol be) (pj_protocol be')"
  by (simp add: history_kept_def protocol_grows_def Let_def)

lemma protocol_grows_refl: "protocol_grows st st"
  by (simp add: protocol_grows_def)

lemma protocol_grows_bookkeeping:
  assumes "bookkeeping st' = bookkeeping st2" "protocol_grows st st2"
  shows "protocol_grows st st'"
  using assms(2) bookkeeping_fields [OF assms(1)] by (simp add: protocol_grows_def)

lemma committed_keeps:
  assumes op: "opened i ep st st1" and inv: "lineage_inv st"
    and clr: "clear_pending_retry (from_input (ti_cursor i)) (note_input i cp st1) = Inr st2"
    and val: "validate_partition st (from_input (ti_cursor i)) i ep = Inr ()"
    and new: "classify_input st i = Inr NewInput"
  shows "lineage_inv st2" "protocol_grows st st2"
    "control st2 = (control st)(from_input (ti_cursor i) \<mapsto> (ti_generation i, None, None))"
    "map_of (pr_applied_receipts st2) (cursor_receipt_key_new (ti_cursor i) (ti_generation i))
       = Some (receipt_of i cp)"
proof -
  let ?key = "from_input (ti_cursor i)" and ?rk = "cursor_receipt_key_new (ti_cursor i) (ti_generation i)"
  note opl = opened_lineage [OF op inv]
  have ctl_note: "control (note_input i cp st1) = control st1"
    by (simp add: control_def note_input_frame fun_eq_iff)
  from clear_pending_retry_control [OF clr] obtain g s r where
    c: "control st1 ?key = Some (g, s, r)" "control st2 = (control st1)(?key \<mapsto> (g, s, None))"
      "snd (bookkeeping st2) = snd (bookkeeping (note_input i cp st1))"
    by (metis ctl_note)
  have gs: "g = ti_generation i" "s = None"
    using validated_control [OF val] c(1) opl(3) by (auto split: if_splits)
  show ctl: "control st2 = (control st)(?key \<mapsto> (ti_generation i, None, None))"
    using c(2) gs opl(3) by auto
  note f = bookkeeping_rest [OF c(3), unfolded note_input_fields note_input_frame]
  have reached: "generation_reached st2 k n" if "generation_reached st1 k n" for k n
    by (rule generation_reached_mono [OF that]) (use c in \<open>auto split: if_splits\<close>)
  have fo: "failure_ok st2 = failure_ok st1" by (simp add: failure_ok_def f fun_eq_iff)
  show "lineage_inv st2"
  proof (rule lineage_inv_step [OF opl(1) reached, where key = ?key])
    show "pr_applied_receipts st2 = pr_applied_receipts st1 \<or>
      (\<exists>k v. pr_applied_receipts st2 = AList.update k v (pr_applied_receipts st1) \<and> receipt_ok st2 k v)"
      by (intro disjI2 exI [of _ ?rk] exI [of _ "receipt_of i cp"])
        (simp add: f receipt_ok_def generation_reached_def c(2) gs cursor_receipt_key_new_def)
    show "hm_all (failure_ok st2) (pr_failures st2)"
      using opl(1) by (simp add: fo f lineage_inv_def)
    have "hm_all (input_ok st2) (pr_inputs st1)"
      by (rule hm_all_mono [of "input_ok st1"])
        (use opl(1) reached in \<open>simp_all add: lineage_inv_def input_ok_def\<close>)
    moreover have "input_ok st2 (input_key_new (ti_cursor i) (ti_generation i)) v" for v
      by (simp add: input_ok_def generation_reached_def c(2) gs input_key_new_def)
    ultimately have "hm_all (input_ok st2) (pr_inputs st2)"
      by (simp add: f hm_all_update)
    moreover have "hm_wf (pr_inputs st2)" using opl(1) by (simp add: f lineage_inv_def)
    ultimately show "pr_inputs st2 = pr_inputs st1 \<or>
        hm_wf (pr_inputs st2) \<and> hm_all (input_ok st2) (pr_inputs st2)" by blast
  qed (simp_all add: f c(2) gs control_ok_def)
  show "map_of (pr_applied_receipts st2) ?rk = Some (receipt_of i cp)"
    by (simp add: f)
  have "map_of (pr_applied_receipts st) \<subseteq>\<^sub>m map_of (pr_applied_receipts st2)"
    unfolding f opl by (rule map_le_update) (simp add: classify_new_fresh [OF new])
  moreover have "map_of (pr_input_identities st) \<subseteq>\<^sub>m map_of (pr_input_identities st2)"
    "map_of (pr_messages st) \<subseteq>\<^sub>m map_of (pr_messages st2)"
    using persist_input_identity_le [of st1 i] by (simp_all add: f opl)
  ultimately show "protocol_grows st st2"
    using opl(2) by (simp add: protocol_grows_def f opl map_le_or_insert)
qed

lemma hm_all_mono_keys:
  "hm_all P m \<Longrightarrow> (\<And>k v. P k v \<Longrightarrow> k \<in> fst ` set m \<Longrightarrow> Q k v) \<Longrightarrow> hm_all Q m"
  by (force simp: hm_all_def list_all_iff)

lemma admit_failure_ok:
  assumes "admit_failure now b be = Inr u"
  shows "validate_partition (pj_protocol be) (from_input (ti_cursor (fb_input b))) (fb_input b)
       (fb_change_epoch b) = Inr ()"
    "classify_input (pj_protocol be) (fb_input b) = Inr NewInput"
    "validate_pending_retry (pj_protocol be) (from_input (ti_cursor (fb_input b))) (fb_input b) = Inr ()"
    "\<not> hm_contains (pr_failures (pj_protocol be)) (fb_failure_id b)"
    "receipt_key (input_inbox_receipt now (fb_input b)) \<notin> pj_inbox be"
proof -
  from assms obtain d where d: "classify_input (pj_protocol be) (fb_input b) = Inr d"
    and "validate_partition (pj_protocol be) (from_input (ti_cursor (fb_input b))) (fb_input b)
       (fb_change_epoch b) = Inr ()"
    and "\<not> hm_contains (pr_failures (pj_protocol be)) (fb_failure_id b)"
    by (auto simp: admit_failure_def Let_def res_simps split: if_splits)
  with assms show "validate_partition (pj_protocol be) (from_input (ti_cursor (fb_input b))) (fb_input b)
       (fb_change_epoch b) = Inr ()"
    "classify_input (pj_protocol be) (fb_input b) = Inr NewInput"
    "validate_pending_retry (pj_protocol be) (from_input (ti_cursor (fb_input b))) (fb_input b) = Inr ()"
    "\<not> hm_contains (pr_failures (pj_protocol be)) (fb_failure_id b)"
    "receipt_key (input_inbox_receipt now (fb_input b)) \<notin> pj_inbox be"
    by (cases d; auto simp: admit_failure_def Let_def res_simps split: if_splits)+
qed

lemma check_failure_new:
  assumes "check_failure sha now b be = Inr None"
  shows "admit_failure now b be = Inr ()"
  using assms
  by (auto simp: check_failure_def Let_def res_simps split: option.splits if_splits)

lemma stage_failure_keeps:
  assumes stage: "stage_failure b n st = Inr (st', failure)"
    and inv: "protocol_inv st" "lineage_inv st"
    and val: "validate_partition st (from_input (ti_cursor (fb_input b))) (fb_input b)
                (fb_change_epoch b) = Inr ()"
    and fresh: "\<not> hm_contains (pr_failures st) (fb_failure_id b)"
  shows "lineage_inv st'" "protocol_grows st st'"
    "control st' = (control st)(from_input (ti_cursor (fb_input b))
       \<mapsto> (ti_generation (fb_input b), Some (fb_failure_id b), None))"
    "map_of (pr_failures st') (fb_failure_id b) = Some failure"
proof -
  let ?i = "fb_input b" and ?f = "fb_failure_id b"
  let ?key = "from_input (ti_cursor ?i)"
  from stage inv(1) obtain st1 g s r and ch :: projection_change where op: "opened ?i (fb_change_epoch b) st st1"
    and c: "control st1 ?key = Some (g, s, r)" "control st' = (control st1)(?key \<mapsto> (g, Some ?f, None))"
    and rest: "snd (bookkeeping st') = snd (bookkeeping (persist_input_identity ?i st1
       \<lparr>pr_failure_inputs := AList.update ?f (fence_from_input ?i) (pr_failure_inputs st1),
        pr_failures := AList.update ?f failure (pr_failures st1)\<rparr>))"
    and fl: "failure = failure_of b (ch_cursor ch)"
    by (rule stage_failure_ok)
  note opl = opened_lineage [OF op inv(2)]
  note f = bookkeeping_rest [OF rest]
  have f': "pr_failures st' = AList.update ?f failure (pr_failures st)"
    "pr_failure_inputs st' = AList.update ?f (fence_from_input ?i) (pr_failure_inputs st)"
    "pr_generations st' = pr_generations st1" "pr_applied_receipts st' = pr_applied_receipts st"
    "pr_inputs st' = pr_inputs st"
    by (simp_all add: f opl persist_input_identity_def)
  have gs: "g = ti_generation ?i" "s = None"
    using validated_control [OF val] c(1) opl(3) by (auto split: if_splits)
  show "control st' = (control st)(?key \<mapsto> (ti_generation ?i, Some ?f, None))"
    using c(2) gs opl(3) by auto
  show new: "map_of (pr_failures st') ?f = Some failure" by (simp add: f')
  have fails: "map_of (pr_failures st) \<subseteq>\<^sub>m map_of (pr_failures st')"
    unfolding f' using fresh by (intro map_le_update) (simp add: hm_contains_def)
  have reached: "generation_reached st' k n" if "generation_reached st1 k n" for k n
    by (rule generation_reached_mono [OF that]) (use c in \<open>auto split: if_splits\<close>)
  have own: "failure_ok st' ?f failure"
    by (simp add: failure_ok_def f' fl failure_of_def fence_of_def fence_from_input_def Let_def)
  have "hm_all (failure_ok st') (pr_failures st)"
  proof (rule hm_all_mono_keys)
    show "hm_all (failure_ok st) (pr_failures st)" using inv(2) by (simp add: lineage_inv_def)
    show "failure_ok st' k v" if "failure_ok st k v" "k \<in> fst ` set (pr_failures st)" for k v
    proof -
      from that(2) fresh have "k \<noteq> ?f" by (metis hm_contains_iff)
      with that(1) show ?thesis by (simp add: failure_ok_def f')
    qed
  qed
  then have flrs: "hm_all (failure_ok st') (pr_failures st')"
    using own by (simp add: f' hm_all_update)
  show "lineage_inv st'"
  proof (rule lineage_inv_step [OF opl(1) reached, where key = ?key])
    show "control_ok st' ?key"
      using new by (simp add: control_ok_def c(2) gs failed_in_def fl failure_of_def Let_def)
  qed (use fails flrs in \<open>simp_all add: f' opl c(2)\<close>)
  have "map_of (pr_input_identities st) \<subseteq>\<^sub>m map_of (pr_input_identities st')"
    "map_of (pr_messages st) \<subseteq>\<^sub>m map_of (pr_messages st')"
    using persist_input_identity_le [of st1 ?i] by (simp_all add: f opl)
  then show "protocol_grows st st'"
    using fails opl(2) by (simp add: protocol_grows_def f opl map_le_or_insert persist_input_identity_def)
qed
lemma map_of_foldl_update:
  "map_of (foldl (\<lambda>m (k, v). AList.update (h k) v m) m kvs) k' =
     (case map_of (rev (map (\<lambda>(k, v). (h k, v)) kvs)) k' of None \<Rightarrow> map_of m k' | Some v \<Rightarrow> Some v)"
proof (induction kvs arbitrary: m)
  case (Cons kv kvs)
  obtain k v where "kv = (k, v)" by (cases kv)
  then show ?case by (simp add: Cons.IH map_add_def split: option.splits)
qed simp

lemma copy_inputs_ok:
  assumes "hm_wf m" "hm_all P m" "\<And>k v. ik_partition k = key \<Longrightarrow> P (k\<lparr>ik_generation := g'\<rparr>) v"
  shows "hm_wf (copy_inputs key g g' m)" "hm_all P (copy_inputs key g g' m)"
proof -
  have "hm_wf (foldl (\<lambda>m (k, v). AList.update (k\<lparr>ik_generation := g'\<rparr>) v m) m0 kvs) \<and>
      hm_all P (foldl (\<lambda>m (k, v). AList.update (k\<lparr>ik_generation := g'\<rparr>) v m) m0 kvs)"
    if "hm_wf m0" "hm_all P m0" "list_all (\<lambda>(k, v). ik_partition k = key) kvs" for m0 kvs
    using that
  proof (induction kvs arbitrary: m0)
    case (Cons kv kvs)
    obtain k v where "kv = (k, v)" by (cases kv)
    with Cons.prems have "hm_wf (AList.update (k\<lparr>ik_generation := g'\<rparr>) v m0)"
      "hm_all P (AList.update (k\<lparr>ik_generation := g'\<rparr>) v m0)"
      using assms(3) by (simp_all add: hm_all_update)
    with Cons.IH Cons.prems(3) \<open>kv = (k, v)\<close> show ?case by simp
  qed simp
  from this [OF assms(1,2), of "filter (\<lambda>(k, _). ik_partition k = key \<and> ik_generation k = g) m"]
  show "hm_wf (copy_inputs key g g' m)" "hm_all P (copy_inputs key g g' m)"
    by (auto simp: copy_inputs_def list_all_iff)
qed

lemma repair_keeps:
  assumes chk: "check_repair st t p f = Inr (pn, g)" and inv: "lineage_inv st"
    and st': "st' = st\<lparr>
         pr_inputs := copy_inputs (partition_key_new t p) (pn_active_generation pn) g (pr_inputs st),
         pr_generations := AList.update \<lparr>gk_partition = partition_key_new t p, gk_generation = g\<rparr>
                             (lineage_retry_of (pn_active_generation pn) f) (pr_generations st),
         pr_partitions := AList.update (partition_key_new t p)
                            (pn\<lparr>pn_active_generation := g, pn_stopped_failure_id := None,
                                pn_pending_retry_failure_id := Some f\<rparr>) (pr_partitions st)\<rparr>"
  shows "lineage_inv st'" "protocol_grows st st'"
    "control st' = (control st)(partition_key_new t p \<mapsto> (g, None, Some f))"
proof -
  let ?key = "partition_key_new t p" and ?gk = "\<lparr>gk_partition = partition_key_new t p, gk_generation = g\<rparr>"
  from chk obtain failure fence where pn: "map_of (pr_partitions st) ?key = Some pn"
    and fl: "map_of (pr_failures st) f = Some failure" "ic_topology (pf_input failure) = t"
      "ic_partition (pf_input failure) = p" "pf_generation failure = pn_active_generation pn"
    and g: "g = pn_active_generation pn + 1" and fresh: "\<not> hm_contains (pr_generations st) ?gk"
    by (rule check_repair_ok)
  show ctl: "control st' = (control st)(?key \<mapsto> (g, None, Some f))"
    by (auto simp: control_def st' fun_eq_iff)
  have reached: "generation_reached st' k n" if "generation_reached st k n" for k n
    by (rule generation_reached_mono [OF that]) (use pn g in \<open>auto simp: ctl control_cases\<close>)
  have failed: "failed_in st' ?key (g - 1) f"
    using fl g by (simp add: failed_in_def st' from_input_def)
  have fo: "failure_ok st' = failure_ok st" by (simp add: failure_ok_def st' fun_eq_iff)
  show "lineage_inv st'"
  proof (rule lineage_inv_step [OF inv reached, where key = ?key])
    have "lineage_ok st' ?gk (lineage_retry_of (pn_active_generation pn) f)"
      using failed g by (simp add: lineage_ok_def generation_reached_def ctl lineage_retry_of_def)
    then show "pr_generations st' = pr_generations st \<or>
        (\<exists>k l. pr_generations st' = AList.update k l (pr_generations st) \<and> lineage_ok st' k l)"
      by (intro disjI2 exI [of _ ?gk] exI conjI) (simp add: st', assumption)
    show "hm_all (failure_ok st') (pr_failures st')"
      using inv by (simp add: fo lineage_inv_def) (simp add: st')
    show "control_ok st' ?key"
      using failed g by (simp add: control_ok_def ctl)
    have "hm_all (input_ok st') (pr_inputs st)"
      by (rule hm_all_mono [of "input_ok st"])
        (use inv reached in \<open>simp_all add: lineage_inv_def input_ok_def\<close>)
    moreover have "input_ok st' (k\<lparr>ik_generation := g\<rparr>) v" if "ik_partition k = ?key" for k v
      using that by (simp add: input_ok_def generation_reached_def ctl)
    ultimately have "hm_wf (pr_inputs st')" "hm_all (input_ok st') (pr_inputs st')"
      using copy_inputs_ok [of "pr_inputs st" "input_ok st'" ?key g "pn_active_generation pn"] inv
      by (simp_all add: lineage_inv_def) (simp_all add: st')
    then show "pr_inputs st' = pr_inputs st \<or>
        hm_wf (pr_inputs st') \<and> hm_all (input_ok st') (pr_inputs st')" by blast
  qed (simp_all add: ctl, simp_all add: st')
  have "map_of (pr_generations st) \<subseteq>\<^sub>m map_of (pr_generations st')"
    using map_le_update [of "pr_generations st" ?gk "lineage_retry_of (pn_active_generation pn) f"] fresh
    by (simp add: st' hm_contains_def)
  then show "protocol_grows st st'"
    by (simp add: protocol_grows_def) (simp add: st')
qed

section \<open>Every transaction\<close>

lemma commit_projection_keeps:
  assumes commit: "commit_projection fmt now b be = (be', res)" and inv: "store_inv be"
  shows "store_inv be'" "history_kept be be'"
proof -
  have pinv: "protocol_inv (pj_protocol be)" and linv: "lineage_inv (pj_protocol be)"
    using inv by (simp_all add: store_inv_def)
  from commit have "store_inv be' \<and> history_kept be be'"
  proof (cases rule: commit_projection_cases)
    case unchanged
    then show ?thesis using inv pinv by (simp add: history_kept_refl)
  next
    case (applied st r rows)
    note adm = admit_new_input [OF applied(1)]
    from applied(2) pinv validate_projection_batch_ok [OF adm(1)] obtain st1 st2 cp where
      s: "advances (pj_protocol be) st"
        "opened (pb_input b) (pb_change_epoch b) (pj_protocol be) st1"
        "clear_pending_retry (from_input (ti_cursor (pb_input b))) (note_input (pb_input b) cp st1) = Inr st2"
        "bookkeeping st = bookkeeping st2"
      by (rule stage_commit_ok)
    note keep = committed_keeps [OF s(2) linv s(3) adm(2,3)]
    have "protocol_inv st" using s(1) by (simp add: advances_def)
    moreover have "lineage_inv st" using keep(1) lineage_inv_bookkeeping [OF s(4)] by simp
    moreover have "protocol_grows (pj_protocol be) st"
      by (rule protocol_grows_bookkeeping [OF s(4) keep(2)])
    ultimately show ?thesis
      using s(1) by (auto simp: applied(4) store_inv_def history_kept_iff)
  qed
  then show "store_inv be'" "history_kept be be'" by simp_all
qed

lemma record_projection_failure_cases:
  assumes "record_projection_failure sha now b be = (be', res)"
  obtains (unchanged) "be' = be"
  | (recorded) st failure where "check_failure sha now b be = Inr None"
      "stage_failure b (pj_retention be) (pj_protocol be) = Inr (st, failure)" "res = Inr failure"
      "be' = be\<lparr>pj_protocol := st,
         pj_inbox := insert (receipt_key (input_inbox_receipt now (fb_input b))) (pj_inbox be)\<rparr>"
proof (cases "check_failure sha now b be = Inr None")
  case True
  show thesis
  proof (cases "stage_failure b (pj_retention be) (pj_protocol be)")
    case (Inl e)
    with assms [symmetric] True show thesis
      by (intro unchanged) (simp add: record_projection_failure_def)
  next
    case (Inr x)
    obtain st failure where x: "x = (st, failure)" by (cases x)
    show thesis
      by (rule recorded [OF True Inr [unfolded x]])
        (use assms [symmetric] True Inr x in \<open>simp_all add: record_projection_failure_def\<close>)
  qed
next
  case False
  with assms [symmetric] show thesis
    by (intro unchanged) (auto simp: record_projection_failure_def split: sum.splits option.splits)
qed

lemma record_projection_failure_keeps:
  assumes fail: "record_projection_failure sha now b be = (be', res)" and inv: "store_inv be"
  shows "store_inv be'" "history_kept be be'"
proof -
  have pinv: "protocol_inv (pj_protocol be)" and linv: "lineage_inv (pj_protocol be)"
    using inv by (simp_all add: store_inv_def)
  from fail have "store_inv be' \<and> history_kept be be'"
  proof (cases rule: record_projection_failure_cases)
    case unchanged
    then show ?thesis using inv pinv by (simp add: history_kept_refl)
  next
    case (recorded st failure)
    note chk = admit_failure_ok [OF check_failure_new [OF recorded(1)]]
    note keep = stage_failure_keeps [OF recorded(2) pinv linv chk(1,4)]
    from recorded(2) pinv have adv: "advances (pj_protocol be) st" by (rule stage_failure_ok)
    then have "protocol_inv st" by (simp add: advances_def)
    with keep(1,2) adv show ?thesis
      by (auto simp: recorded(4) store_inv_def history_kept_iff)
  qed
  then show "store_inv be'" "history_kept be be'" by simp_all
qed

lemma repair_projection_keeps:
  assumes rep: "repair_projection t p f be = (be', res)" and inv: "store_inv be"
  shows "store_inv be'" "history_kept be be'"
proof -
  have pinv: "protocol_inv (pj_protocol be)" and linv: "lineage_inv (pj_protocol be)"
    using inv by (simp_all add: store_inv_def)
  from rep have "store_inv be' \<and> history_kept be be'"
  proof (cases rule: repair_projection_cases)
    case refused
    then show ?thesis using inv pinv by (simp add: history_kept_refl)
  next
    case (repaired pn g)
    note keep = repair_keeps [OF repaired(1) linv refl]
    from repaired(1) have pn: "map_of (pr_partitions (pj_protocol be)) (partition_key_new t p) = Some pn"
      and g: "0 < g" by (rule check_repair_ok, simp)+
    note adv = repair_state_keeps(1) [OF pinv pn refl g]
    then have "protocol_inv (pj_protocol be')" by (simp add: repaired(3) advances_def)
    with keep(1,2) adv show ?thesis
      by (simp add: repaired(3) store_inv_def history_kept_iff)
  qed
  then show "store_inv be'" "history_kept be be'" by simp_all
qed

lemma register_projection_models_keeps:
  assumes reg: "register_projection_models t ow be = (be', res)" and inv: "store_inv be"
  shows "store_inv be'" "history_kept be be'"
proof -
  have pinv: "protocol_inv (pj_protocol be)" and linv: "lineage_inv (pj_protocol be)"
    using inv by (simp_all add: store_inv_def)
  from reg have "store_inv be' \<and> history_kept be be'"
  proof (cases rule: register_projection_models_cases)
    case refused
    then show ?thesis using inv pinv by (simp add: history_kept_refl)
  next
    case (registered models owners)
    let ?st' = "pj_protocol be'"
    have st': "?st' = (pj_protocol be)
         \<lparr>pr_registered_topologies := insert t (pr_registered_topologies (pj_protocol be)),
          pr_registered_models := models, pr_table_owners := owners\<rparr>"
      by (simp add: registered(2))
    have adv: "advances (pj_protocol be) ?st'"
      by (rule advances_frame [OF pinv]) (simp_all add: st')
    then have "protocol_inv ?st'" by (simp add: advances_def)
    moreover have "lineage_inv ?st' = lineage_inv (pj_protocol be)"
      by (rule lineage_inv_cong) (simp_all add: st' control_def fun_eq_iff)
    with linv have "lineage_inv ?st'" by simp
    moreover have "protocol_grows (pj_protocol be) ?st'"
      using registered(3,4) by (simp add: protocol_grows_def st' subset_insertI)
    ultimately show ?thesis
      using adv by (simp add: store_inv_def history_kept_iff) (simp add: registered(2))
  qed
  then show "store_inv be'" "history_kept be be'" by simp_all
qed

lemma compact_projection_changes_keeps:
  assumes cmp: "compact_projection_changes c be = (be', res)" and inv: "store_inv be"
  shows "store_inv be'" "history_kept be be'"
proof -
  have pinv: "protocol_inv (pj_protocol be)" and linv: "lineage_inv (pj_protocol be)"
    using inv by (simp_all add: store_inv_def)
  from cmp have "store_inv be' \<and> history_kept be be'"
  proof (cases rule: compact_projection_changes_cases)
    case refused
    then show ?thesis using inv pinv by (simp add: history_kept_refl)
  next
    case (compacted st n)
    note keep = compact_changes_keeps [OF compacted(3) pinv]
    have "protocol_inv st" using keep(1) by (simp add: advances_def)
    with keep(1) linv lineage_inv_bookkeeping [OF keep(2)]
      protocol_grows_bookkeeping [OF keep(2) protocol_grows_refl] show ?thesis
      by (simp add: compacted(1) store_inv_def history_kept_iff)
  qed
  then show "store_inv be'" "history_kept be be'" by simp_all
qed

lemma direct_projection_keeps:
  assumes dir: "stage_same_transaction_projection fmt b n (pj_protocol be) rows = Inr (st, rows', ev)"
    and inv: "store_inv be"
  shows "protocol_inv st" "lineage_inv st" "advances (pj_protocol be) st"
    "protocol_grows (pj_protocol be) st"
proof -
  have pinv: "protocol_inv (pj_protocol be)" and linv: "lineage_inv (pj_protocol be)"
    using inv by (simp_all add: store_inv_def)
  from dir pinv obtain st0 where adv: "advances (pj_protocol be) st"
    and ens: "ensure_partition (partition_key_new (db_topology b) (db_partition b)) (db_change_epoch b)
                (pj_protocol be) = Inr st0"
    and book: "bookkeeping st = bookkeeping st0"
    by (rule stage_same_transaction_projection_ok)
  note l = ensure_partition_lineage [OF ens linv] and f = ensure_partition_frame [OF ens]
  show "advances (pj_protocol be) st" by (rule adv)
  then show "protocol_inv st" by (simp add: advances_def)
  show "lineage_inv st" using l(1) lineage_inv_bookkeeping [OF book] by simp
  have "protocol_grows (pj_protocol be) st0"
    using l(2) by (simp add: protocol_grows_def f)
  then show "protocol_grows (pj_protocol be) st" by (rule protocol_grows_bookkeeping [OF book])
qed

lemma projection_step_keeps:
  assumes "projection_step fmt sha be be'" "store_inv be"
  shows "store_inv be' \<and> history_kept be be'"
  using assms
proof (cases rule: projection_step.cases)
  case (direct db st rows ev)
  note keep = direct_projection_keeps [OF direct(2) assms(2)]
  show ?thesis
    using keep by (simp add: direct(1) store_inv_def history_kept_iff)
next
  case (elsewhere inbox rows)
  with assms(2) show ?thesis
    by (auto simp: store_inv_def history_kept_iff advances_refl protocol_grows_refl)
next
  case (register t ow res)
  from register_projection_models_keeps [OF this assms(2)] show ?thesis by simp
next
  case (commit now b res)
  from commit_projection_keeps [OF this assms(2)] show ?thesis by simp
next
  case (failure now fb res)
  from record_projection_failure_keeps [OF this assms(2)] show ?thesis by simp
next
  case (repair t p f res)
  from repair_projection_keeps [OF this assms(2)] show ?thesis by simp
next
  case (compact c res)
  from compact_projection_changes_keeps [OF this assms(2)] show ?thesis by simp
qed

lemma projection_steps_keep:
  assumes "projection_steps fmt sha be be'" "store_inv be"
  shows "store_inv be' \<and> history_kept be be'"
  using assms
proof (induction rule: rtranclp_induct)
  case base
  then show ?case by (simp add: history_kept_refl store_inv_def)
next
  case (step y z)
  from step.IH [OF step.prems] have y: "store_inv y" "history_kept be y" by simp_all
  from projection_step_keeps [OF step.hyps(2) y(1)] show ?case
    using history_kept_trans [OF y(2)] by blast
qed

end
