(* ===== verification/Projection_Properties.thy ===== *)
theory Projection_Properties
  imports Projection_History
begin

text \<open>
  The guarantees of the projection store: an input is applied at most once, a stopped partition
  admits nothing but the repaired input and can always be repaired, the change log reads back
  without gaps and stays within its retention, and no transaction panics.
\<close>

section \<open>No transaction runs into an \<^verbatim>\<open>expect\<close>\<close>

lemma try_fold_Inl:
  assumes "try_fold f s xs = Inl e"
  obtains ys x zs s' where "xs = ys @ x # zs" "try_fold f s ys = Inr s'" "f s' x = Inl e"
  using assms
proof (induction xs arbitrary: s thesis)
  case (Cons x xs)
  show thesis
  proof (cases "f s x")
    case (Inl d)
    with Cons.prems show thesis by (intro Cons.prems(1) [of "[]" x xs s]) simp_all
  next
    case (Inr s1)
    with Cons.prems(2) have "try_fold f s1 xs = Inl e" by simp
    from Cons.IH [OF _ this] obtain ys y zs s' where
      "xs = ys @ y # zs" "try_fold f s1 ys = Inr s'" "f s' y = Inl e" by metis
    with Inr show thesis by (intro Cons.prems(1) [of "x # ys" y zs s']) simp_all
  qed
qed simp

lemma append_change_total_key:
  "map_of (pr_partitions st) key \<noteq> None \<Longrightarrow> append_change key pc st \<noteq> Inl Panics"
  using append_change_no_panic by auto

lemma advances_has_key:
  "advances st st' \<Longrightarrow> map_of (pr_partitions st) key \<noteq> None \<Longrightarrow> map_of (pr_partitions st') key \<noteq> None"
  using advances_key by fastforce

lemma stage_mutations_no_panic:
  assumes "protocol_inv st" "map_of (pr_partitions st) key \<noteq> None"
    "list_all (\<lambda>m. in_scope key (mu_scope m)) ms"
  shows "try_fold (stage_mutation fmt key cause rows) (st, rs, cs) ms \<noteq> Inl Panics"
proof
  assume "try_fold (stage_mutation fmt key cause rows) (st, rs, cs) ms = Inl Panics"
  then obtain ys m zs s' where ms: "ms = ys @ m # zs"
    and ok: "try_fold (stage_mutation fmt key cause rows) (st, rs, cs) ys = Inr s'"
    and bad: "stage_mutation fmt key cause rows s' m = Inl Panics"
    by (rule try_fold_Inl)
  obtain st1 rs1 cs1 where s': "s' = (st1, rs1, cs1)" by (cases s')
  have "list_all (\<lambda>m. in_scope key (mu_scope m)) ys" using assms(3) ms by simp
  from stage_mutations_keep [OF ok [unfolded s'] assms(1) this] have "advances st st1" by blast
  from advances_has_key [OF this assms(2)] have "append_change key pc st1 \<noteq> Inl Panics" for pc
    by (rule append_change_total_key)
  with bad show False
    by (auto simp: stage_mutation_def s' res_simps Let_def)
qed

lemma stage_observations_no_panic:
  assumes "protocol_inv st" "map_of (pr_partitions st) key \<noteq> None"
    and staged: "\<And>r scope. r \<in> set rs \<Longrightarrow> oq_target r = StagedRecord scope \<Longrightarrow>
      hm_contains (pr_records st) scope"
  shows "try_fold (stage_observation key cause) (st, cs) rs \<noteq> Inl Panics"
proof
  assume "try_fold (stage_observation key cause) (st, cs) rs = Inl Panics"
  then obtain ys r zs s' where rs: "rs = ys @ r # zs"
    and ok: "try_fold (stage_observation key cause) (st, cs) ys = Inr s'"
    and bad: "stage_observation key cause s' r = Inl Panics"
    by (rule try_fold_Inl)
  obtain st1 cs1 where s': "s' = (st1, cs1)" by (cases s')
  from stage_observations_keep [OF ok [unfolded s'] assms(1)] have adv: "advances st st1"
    and rec: "pr_records st1 = pr_records st" by blast+
  have app: "append_change key pc st1 \<noteq> Inl Panics" for pc
    by (rule append_change_total_key [OF advances_has_key [OF adv assms(2)]])
  have res: "resolve_observation st1 (oq_target r) \<noteq> Inl Panics"
    using staged [of r] rs rec
    by (cases "oq_target r")
      (auto simp: resolve_observation_def hm_contains_def Let_def split: option.splits)
  from bad app res show False
    by (auto simp: stage_observation_def s' res_simps Let_def split: option.splits if_splits)
qed

lemma rbind_neq_Inl: "r \<noteq> Inl e \<Longrightarrow> (\<And>x. r = Inr x \<Longrightarrow> f x \<noteq> Inl e) \<Longrightarrow> rbind r f \<noteq> Inl e"
  by (cases r) auto

lemma case_prod_neqI: "(\<And>a b. x = (a, b) \<Longrightarrow> g a b \<noteq> y) \<Longrightarrow> (case x of (a, b) \<Rightarrow> g a b) \<noteq> y"
  by (cases x) auto

lemma map_err_Fails_neq: "map_err Fails r \<noteq> Inl Panics"
  by (cases r) simp_all

lemma map_err_Fails_of_neq: "map_err (\<lambda>e. Fails (h e)) r \<noteq> Inl Panics"
  by (cases r) simp_all

definition live_at :: "partition_key \<Rightarrow> protocol_state \<Rightarrow> bool" where
  "live_at key st \<longleftrightarrow> protocol_inv st \<and> map_of (pr_partitions st) key \<noteq> None"

lemma live_at_advances: "live_at key st \<Longrightarrow> advances st st' \<Longrightarrow> live_at key st'"
  using advances_has_key [of st st' key] unfolding live_at_def by (metis advances_def)

lemma live_after_ownership:
  fixes i :: trusted_input
  assumes inv: "protocol_inv st"
    and "map_err Fails (ensure_partition (from_input (ti_cursor i)) ep st) = Inr st0"
    and "map_err Fails (register_ownership (from_input (ti_cursor i)) b
       (st0\<lparr>pr_gap_free_capabilities := or_insert (source_capability_key_new (ti_cursor i))
          (ti_gap_free i) (pr_gap_free_capabilities st0)\<rparr>)) = Inr st2"
  shows "live_at (from_input (ti_cursor i)) st2"
proof -
  let ?st1 = "st0\<lparr>pr_gap_free_capabilities := or_insert (source_capability_key_new (ti_cursor i))
          (ti_gap_free i) (pr_gap_free_capabilities st0)\<rparr>"
  have op: "opened i ep st ?st1" using assms(2) by (auto simp: opened_def res_simps)
  have "live_at (from_input (ti_cursor i)) ?st1"
    using opened_keeps [OF op inv] by (auto simp: live_at_def advances_def)
  moreover have "register_ownership (from_input (ti_cursor i)) b ?st1 = Inr st2"
    using assms(3) by (simp add: res_simps)
  ultimately show ?thesis
    using register_ownership_keeps(1) live_at_advances unfolding live_at_def by blast
qed

lemma live_after_mutations:
  assumes "live_at key st" "list_all (\<lambda>m. in_scope key (mu_scope m)) ms"
    "try_fold (stage_mutation fmt key cause rows) (st, [], []) ms = Inr (st', rs, cs)"
  shows "live_at key st'" "\<And>scope. scope \<in> mu_scope ` set ms \<Longrightarrow> hm_contains (pr_records st') scope"
  using stage_mutations_keep [OF assms(3) _ assms(2)] live_at_advances [OF assms(1)] assms(1)
  unfolding live_at_def by blast+

lemma live_after_observations:
  assumes "live_at key st" "try_fold (stage_observation key cause) (st, cs) rs = Inr (st', cs')"
  shows "live_at key st'"
  using stage_observations_keep [OF assms(2)] live_at_advances [OF assms(1)] assms(1)
  unfolding live_at_def by blast

lemma staged_target_mutated:
  assumes "batch_sound b" "r \<in> set (pb_observations b)" "oq_target r = StagedRecord scope"
  shows "scope \<in> mu_scope ` set (pb_mutations b)"
  using assms by (fastforce simp: batch_sound_def Let_def list_all_iff observation_ok_def)

lemma stage_checkpoint_live:
  assumes "live_at key st"
  shows "(if cs = [] then rbind (append_change key pc st) (\<lambda>(st, change). Inr (st, [change]))
          else Inr (st, cs)) \<noteq> Inl Panics"
    and "(if cs = [] then rbind (append_change key pc st) (\<lambda>(st, change). Inr (st, [change]))
          else Inr (st, cs)) = Inr (st', cs') \<Longrightarrow> live_at key st' \<and> cs' \<noteq> []"
proof -
  have app: "append_change key pc st \<noteq> Inl Panics"
    using assms append_change_total_key unfolding live_at_def by blast
  then show "(if cs = [] then rbind (append_change key pc st) (\<lambda>(st, change). Inr (st, [change]))
          else Inr (st, cs)) \<noteq> Inl Panics"
    by (auto simp: res_simps)
  assume "(if cs = [] then rbind (append_change key pc st) (\<lambda>(st, change). Inr (st, [change]))
          else Inr (st, cs)) = Inr (st', cs')"
  then consider "st' = st" "cs' \<noteq> []" | ch where "append_change key pc st = Inr (st', ch)" "cs' = [ch]"
    by (auto simp: res_simps split: if_splits)
  then show "live_at key st' \<and> cs' \<noteq> []"
  proof cases
    case (2 ch)
    with append_change_keeps(1) [OF 2(1)] live_at_advances [OF assms, of st'] assms show ?thesis
      by (simp add: live_at_def)
  qed (use assms in simp)
qed

lemma clear_pending_retry_live:
  "live_at key st \<Longrightarrow> clear_pending_retry key (note_input i cp st) \<noteq> Inl Panics"
  by (auto simp: live_at_def clear_pending_retry_def note_input_frame)

lemma stage_commit_no_panic:
  assumes inv: "protocol_inv (pj_protocol be)" and sound: "batch_sound b"
  shows "stage_commit fmt b be \<noteq> Inl Panics"
  unfolding stage_commit_def Let_def
proof (intro rbind_neq_Inl case_prod_neqI map_err_Fails_neq map_err_Fails_of_neq, goal_cases)
  case (1 x xa xb)
  from live_after_ownership [OF inv 1(1,2)] show ?case
    unfolding live_at_def by (intro stage_mutations_no_panic batch_sound_in_scope [OF sound]) blast+
next
  case (2 x xa xb xc st ba records changes xd xe)
  note live = live_after_mutations [OF live_after_ownership [OF inv 2(1,2)]
      batch_sound_in_scope [OF sound] 2(4) [unfolded 2(5,6)]]
  show ?case
    by (rule stage_observations_no_panic)
      (use live staged_target_mutated [OF sound] in \<open>auto simp: live_at_def\<close>)
next
  case (3 x xa xb xc st ba records changes xd xe xf sta changesa)
  from live_after_observations [OF live_after_mutations(1) [OF live_after_ownership [OF inv 3(1,2)]
      batch_sound_in_scope [OF sound] 3(4) [unfolded 3(5,6)]] 3(9) [unfolded 3(10)]]
  show ?case by (rule stage_checkpoint_live(1))
next
  case (4 x xa xb xc st ba records changes xd xe xf sta changesa xg stb changesb)
  note live = live_after_observations [OF live_after_mutations(1) [OF live_after_ownership [OF inv 4(1,2)]
      batch_sound_in_scope [OF sound] 4(4) [unfolded 4(5,6)]] 4(9) [unfolded 4(10)]]
  from stage_checkpoint_live(2) [OF live 4(11) [unfolded 4(12)]] show ?case
    by (simp add: last_change_def)
next
  case (5 x xa xb xc st ba records changes xd xe xf sta changesa xg stb changesb xh xi)
  note live = live_after_observations [OF live_after_mutations(1) [OF live_after_ownership [OF inv 5(1,2)]
      batch_sound_in_scope [OF sound] 5(4) [unfolded 5(5,6)]] 5(9) [unfolded 5(10)]]
  from stage_checkpoint_live(2) [OF live 5(11) [unfolded 5(12)]] show ?case
    by (intro clear_pending_retry_live) blast
qed simp_all

lemma stage_failure_no_panic:
  assumes inv: "protocol_inv st"
  shows "stage_failure b n st \<noteq> Inl Panics"
  unfolding stage_failure_def Let_def
proof (intro rbind_neq_Inl case_prod_neqI map_err_Fails_neq, goal_cases)
  case (1 st0)
  let ?i = "fb_input b"
  let ?st1 = "st0\<lparr>pr_gap_free_capabilities := or_insert (source_capability_key_new (ti_cursor ?i))
          (ti_gap_free ?i) (pr_gap_free_capabilities st0)\<rparr>"
  have "opened ?i (fb_change_epoch b) st ?st1" using 1 by (auto simp: opened_def res_simps)
  from opened_keeps(3) [OF this inv] show ?case by (intro append_change_total_key) blast
next
  case (2 st0 x st2 ch)
  let ?i = "fb_input b"
  let ?st1 = "st0\<lparr>pr_gap_free_capabilities := or_insert (source_capability_key_new (ti_cursor ?i))
          (ti_gap_free ?i) (pr_gap_free_capabilities st0)\<rparr>"
  have op: "opened ?i (fb_change_epoch b) st ?st1" using 2(1) by (auto simp: opened_def res_simps)
  note k = opened_keeps [OF op inv]
  have "protocol_inv ?st1" using k(1) by (simp add: advances_def)
  from append_change_keeps(1) [OF 2(2) [unfolded 2(3)] this] have "advances ?st1 st2" .
  moreover from k(3) have "map_of (pr_partitions ?st1) (from_input (ti_cursor ?i)) \<noteq> None" by blast
  ultimately have "map_of (pr_partitions st2) (from_input (ti_cursor ?i)) \<noteq> None"
    by (rule advances_has_key)
  then show ?case by (simp add: stop_partition_def split: option.splits)
qed simp_all

lemma if_neqI: "(c \<Longrightarrow> a \<noteq> y) \<Longrightarrow> (\<not> c \<Longrightarrow> b \<noteq> y) \<Longrightarrow> (if c then a else b) \<noteq> y"
  by simp

lemma direct_ownership_no_panic:
  assumes "db_ownership b = [own]" "db_mutations b = [m]"
  shows "register_same_transaction_ownership key b st \<noteq> Inl Panics"
  unfolding register_same_transaction_ownership_def assms list.case
  by (intro rbind_neq_Inl map_err_Fails_neq)

lemma direct_projection_no_panic:
  assumes inv: "protocol_inv st"
  shows "stage_same_transaction_projection fmt b n st rows \<noteq> Inl Panics"
proof (cases "validate_direct_batch b")
  case (Inl e)
  then show ?thesis by (simp add: stage_same_transaction_projection_def Let_def)
next
  case (Inr u)
  then obtain own row scope where parts: "db_ownership b = [own]"
    "db_mutations b = [\<lparr>dm_scope = scope, dm_mutation = UpsertRow row\<rparr>]"
    by (rule validate_direct_batch_ok)
  let ?key = "partition_key_new (db_topology b) (db_partition b)"
  have app: "append_change ?key pc st1 \<noteq> Inl Panics"
    if "map_err Fails (ensure_partition ?key (db_change_epoch b) st) = Inr st0"
      "register_same_transaction_ownership ?key b st0 = Inr st1" for pc st0 st1
  proof -
    from that(1) have e': "ensure_partition ?key (db_change_epoch b) st = Inr st0"
      by (simp add: res_simps)
    note e = ensure_partition_ok [OF e' inv]
    from register_same_transaction_ownership_keeps(1) [OF that(2) e(1)] have "advances st0 st1" .
    moreover from e(4) have "map_of (pr_partitions st0) ?key \<noteq> None" by blast
    ultimately have "map_of (pr_partitions st1) ?key \<noteq> None" by (rule advances_has_key)
    then show ?thesis by (rule append_change_total_key)
  qed
  show ?thesis
    unfolding stage_same_transaction_projection_def Let_def parts list.case
  proof (intro rbind_neq_Inl case_prod_neqI map_err_Fails_neq map_err_Fails_of_neq if_neqI
      direct_ownership_no_panic [OF parts], goal_cases)
    case 1
    then show ?case by (simp split: option.splits)
  next
    case (2 x xa xb xc xd xe)
    then show ?case by (intro app)
  qed simp_all
qed

section \<open>Applied at most once\<close>

lemma classify_known_receipt:
  assumes "map_of (pr_applied_receipts st) (cursor_receipt_key_new (ti_cursor i) (ti_generation i)) = Some rc"
    and "classify_input st i = Inr d"
  shows "d = DuplicateOf (ar_checkpoint rc)"
  using assms by (auto simp: classify_input_def Let_def res_simps split: if_splits)

lemma commit_known_receipt:
  assumes "map_of (pr_applied_receipts (pj_protocol be))
      (cursor_receipt_key_new (ti_cursor (pb_input b)) (ti_generation (pb_input b))) = Some rc"
  shows "fst (commit_projection fmt now b be) = be"
    "snd (commit_projection fmt now b be) = Inr r \<Longrightarrow> r = not_applied DuplicateInput (Some (ar_checkpoint rc))"
proof -
  have adm: "d = DuplicateOf (ar_checkpoint rc)" if "admit_input now b be = Inr d" for d
  proof -
    from that obtain d' where d': "classify_input (pj_protocol be) (pb_input b) = Inr d'"
      by (auto simp: admit_input_def Let_def res_simps)
    from classify_known_receipt [OF assms d'] that d' show ?thesis
      by (simp add: admit_input_def Let_def res_simps)
  qed
  show "fst (commit_projection fmt now b be) = be"
    "snd (commit_projection fmt now b be) = Inr r \<Longrightarrow> r = not_applied DuplicateInput (Some (ar_checkpoint rc))"
    using adm by (cases "admit_input now b be"; force simp: commit_projection_def)+
qed

lemma commit_applied_facts:
  assumes commit: "commit_projection fmt now b be = (be', Inr r)" and app: "cr_outcome r = Applied"
    and inv: "store_inv be"
  obtains cp where "cr_checkpoint r = Some cp"
    "map_of (pr_applied_receipts (pj_protocol be'))
       (cursor_receipt_key_new (ti_cursor (pb_input b)) (ti_generation (pb_input b)))
       = Some (receipt_of (pb_input b) cp)"
    "control (pj_protocol be') = (control (pj_protocol be))
       (from_input (ti_cursor (pb_input b)) \<mapsto> (ti_generation (pb_input b), None, None))"
    "cr_changes r \<noteq> []"
    "change_log (pj_protocol be') = (change_log (pj_protocol be))(from_input (ti_cursor (pb_input b)) :=
       retained (pj_retention be)
         (change_log (pj_protocol be) (from_input (ti_cursor (pb_input b))) @ cr_changes r))"
    "admit_input now b be = Inr NewInput" "store_inv be'"
  using commit
proof (cases rule: commit_projection_cases)
  case unchanged
  with app show thesis by simp
next
  case (applied st r' rows)
  have r': "r' = r" using applied(3) by simp
  note adm = admit_new_input [OF applied(1)]
  have pinv: "protocol_inv (pj_protocol be)" and linv: "lineage_inv (pj_protocol be)"
    using inv by (simp_all add: store_inv_def)
  from applied(2) [unfolded r'] pinv validate_projection_batch_ok [OF adm(1)] obtain st1 st2 cp where
    s: "opened (pb_input b) (pb_change_epoch b) (pj_protocol be) st1"
      "clear_pending_retry (from_input (ti_cursor (pb_input b))) (note_input (pb_input b) cp st1) = Inr st2"
      "bookkeeping st = bookkeeping st2" "cr_checkpoint r = Some cp" "cr_changes r \<noteq> []"
      "change_log st = (change_log (pj_protocol be))(from_input (ti_cursor (pb_input b)) :=
       retained (pj_retention be)
         (change_log (pj_protocol be) (from_input (ti_cursor (pb_input b))) @ cr_changes r))"
    by (rule stage_commit_ok)
  note keep = committed_keeps [OF s(1) linv s(2) adm(2,3)] and f = bookkeeping_fields [OF s(3)]
  show thesis
    using commit_projection_keeps(1) [OF commit inv] keep f s applied(1)
    by (intro that) (simp_all add: applied(4))
qed

section \<open>Repair and retry\<close>

lemma check_repair_total:
  assumes inv: "store_inv be" and ctl: "control (pj_protocol be) (partition_key_new t p) = Some (g, Some f, r)"
    and lt: "g < MAX_PROJECTION_POSITION"
  shows "\<exists>pn. check_repair (pj_protocol be) t p f = Inr (pn, Suc g) \<and> pn_active_generation pn = g"
proof -
  let ?st = "pj_protocol be" and ?key = "partition_key_new t p"
  have linv: "lineage_inv ?st" using inv by (simp add: store_inv_def)
  from ctl obtain pn where pn: "map_of (pr_partitions ?st) ?key = Some pn"
    "pn_active_generation pn = g" "pn_stopped_failure_id pn = Some f"
    by (auto simp: control_cases)
  from lineage_invD(4) [OF linv, of ?key] ctl have "failed_in ?st ?key g f"
    by (simp add: control_ok_def)
  then obtain fl where fl: "map_of (pr_failures ?st) f = Some fl" "from_input (pf_input fl) = ?key"
    "pf_generation fl = g"
    by (auto simp: failed_in_def split: option.splits)
  have scope: "ic_topology (pf_input fl) = t" "ic_partition (pf_input fl) = p"
    using fl(2) by (simp_all add: from_input_def partition_key_new_def)
  from lineage_invD(3) [OF linv fl(1)] have fence: "map_of (pr_failure_inputs ?st) f = Some (fence_of fl)"
    by (simp add: failure_ok_def)
  have new: "\<not> hm_contains (pr_generations ?st) \<lparr>gk_partition = ?key, gk_generation = Suc g\<rparr>"
    using lineage_invD(1) [OF linv, of "\<lparr>gk_partition = ?key, gk_generation = Suc g\<rparr>"] ctl
    by (cases "map_of (pr_generations ?st) \<lparr>gk_partition = ?key, gk_generation = Suc g\<rparr>")
      (auto simp: hm_contains_def lineage_ok_def generation_reached_def)
  have "\<not> (gk_partition gk = ?key \<and> gl_retry_of_failure_id l = Some f)"
    if "lineage_ok ?st gk l" for gk l
  proof
    assume a: "gk_partition gk = ?key \<and> gl_retry_of_failure_id l = Some f"
    with that have "gk_generation gk \<le> g" "0 < gk_generation gk" "failed_in ?st ?key (gk_generation gk - 1) f"
      using ctl by (simp_all add: lineage_ok_def generation_reached_def)
    moreover from this(3) have "gk_generation gk - 1 = g" using fl by (simp add: failed_in_def)
    ultimately show False by simp
  qed
  then have "\<not> list_ex (\<lambda>(gk, l). gk_partition gk = ?key \<and> gl_retry_of_failure_id l = Some f)
      (pr_generations ?st)"
    using linv by (force simp: lineage_inv_def hm_all_def list_all_iff list_ex_iff)
  moreover have "generation_checked_next g = Inr (Suc g)"
    using lt by (simp add: generation_checked_next_ok)
  ultimately have "check_repair ?st t p f = Inr (pn, Suc g)"
    using new by (simp add: check_repair_def Let_def pn fl scope fence fence_of_def)
  with pn(2) show ?thesis by blast
qed

text \<open>An identity that was accepted once and recorded is accepted again.\<close>

lemma identity_recorded:
  assumes "validate_input_identity st i = Inr ()"
    and "pr_input_identities st' = pr_input_identities (persist_input_identity i st)"
    and "pr_messages st' = pr_messages (persist_input_identity i st)"
  shows "validate_input_identity st' (i\<lparr>ti_generation := g\<rparr>) = Inr ()"
    "reject_reused_message st' (ti_cursor i) (ti_fingerprint i) (ti_message_id i)
       (ti_causation_id i) (ti_gap_free i) = Inr ()"
  using assms
  by (auto simp: validate_input_identity_def reject_reused_message_def persist_input_identity_def
      or_insert_def split: option.splits if_splits)

lemma gap_free_recorded:
  assumes "validate_gap_free st c b = Inr ()"
    and "pr_gap_free_capabilities st' = or_insert (source_capability_key_new c) b (pr_gap_free_capabilities st)"
  shows "validate_gap_free st' c b = Inr ()"
  using assms by (auto simp: validate_gap_free_def or_insert_def split: option.splits if_splits)

lemma validate_partition_checks:
  assumes "validate_partition st key i ep = Inr ()"
  shows "require_registered_topology st (ic_topology (ti_cursor i)) = Inr ()"
    "validate_gap_free st (ti_cursor i) (ti_gap_free i) = Inr ()" "validate_input_identity st i = Inr ()"
  using assms
  by (auto simp: validate_partition_def res_simps split: option.splits if_splits)


lemma copy_inputs_lookup:
  assumes wf: "hm_wf m" and k: "ik_partition k = key" "ik_generation k = g"
    and none: "map_of m (k\<lparr>ik_generation := g'\<rparr>) = None"
  shows "map_of (copy_inputs key g g' m) (k\<lparr>ik_generation := g'\<rparr>) = map_of m k"
proof -
  define h where "h = (\<lambda>k :: input_key. k\<lparr>ik_generation := g'\<rparr>)"
  define sel where "sel = filter (\<lambda>(k :: input_key, _ :: stored_input). ik_partition k = key \<and> ik_generation k = g) m"
  define l where "l = rev (map (\<lambda>(k, v). (h k, v)) sel)"
  have inj: "k1 = k2" if "h k1 = h k2" "ik_generation k1 = g" "ik_generation k2 = g" for k1 k2
    using that by (cases k1; cases k2) (simp add: h_def)
  have "distinct (map fst sel)"
    using wf by (simp add: sel_def distinct_map_filter)
  moreover have "inj_on h (set (map fst sel))"
    by (auto simp: inj_on_def sel_def intro: inj)
  ultimately have "distinct (map h (map fst sel))"
    by (simp only: distinct_map [of h "map fst sel"])
  moreover have "map fst l = rev (map h (map fst sel))"
    by (simp add: l_def rev_map split_def)
  ultimately have d: "distinct (map fst l)" by (simp only: distinct_rev)
  have "map_of l (h k) = map_of m k"
  proof (cases "map_of m k")
    case (Some v)
    then have "(k, v) \<in> set sel" using k by (auto simp: sel_def dest: map_of_SomeD)
    then have "(h k, v) \<in> set l" by (force simp: l_def)
    with d Some show ?thesis by simp
  next
    case None
    have "map_of l (h k) = None"
    proof (rule ccontr)
      assume "map_of l (h k) \<noteq> None"
      then obtain v where "(h k, v) \<in> set l" by (auto dest: map_of_SomeD)
      then obtain k' where k': "(k', v) \<in> set m" "h k' = h k" "ik_generation k' = g"
        by (auto simp: l_def sel_def)
      from inj [OF k'(2,3) k(2)] k'(1) None show False
        by (metis map_of_eq_None_iff fst_conv image_eqI)
    qed
    with None show ?thesis by simp
  qed
  then show ?thesis
    using none unfolding copy_inputs_def map_of_foldl_update
    by (simp add: l_def h_def sel_def split: option.splits)
qed

lemma classify_new_inputs:
  assumes "classify_input st i = Inr NewInput"
  shows "case map_of (pr_inputs st) (input_key_new (ti_cursor i) (ti_generation i)) of
      None \<Rightarrow> True
    | Some previous \<Rightarrow> input_compare_position (ti_cursor i) (sn_cursor previous) = Newer \<and>
        (ti_gap_free i \<longrightarrow> ic_position (ti_cursor i) = Suc (ic_position (sn_cursor previous)) \<and>
           ic_position (sn_cursor previous) < MAX_PROJECTION_POSITION)"
  using assms classify_new_fresh [OF assms]
  by (auto simp: classify_input_def Let_def res_simps
      split: option.splits revision_comparison.splits if_splits)

lemma classify_newI:
  assumes "validate_gap_free st (ti_cursor i) (ti_gap_free i) = Inr ()"
    and "validate_input_identity st i = Inr ()"
    and "reject_reused_message st (ti_cursor i) (ti_fingerprint i) (ti_message_id i)
       (ti_causation_id i) (ti_gap_free i) = Inr ()"
    and "map_of (pr_applied_receipts st) (cursor_receipt_key_new (ti_cursor i) (ti_generation i)) = None"
    and "case map_of (pr_inputs st) (input_key_new (ti_cursor i) (ti_generation i)) of
      None \<Rightarrow> True
    | Some previous \<Rightarrow> input_compare_position (ti_cursor i) (sn_cursor previous) = Newer \<and>
        (ti_gap_free i \<longrightarrow> ic_position (ti_cursor i) = Suc (ic_position (sn_cursor previous)) \<and>
           ic_position (sn_cursor previous) < MAX_PROJECTION_POSITION)"
  shows "classify_input st i = Inr NewInput"
  using assms
  by (auto simp: classify_input_def Let_def checked_next_def split: option.splits)

lemma check_failure_existing:
  assumes "check_failure sha now b be = Inr (Some fl)"
  shows "map_of (pr_failures (pj_protocol be)) (fb_failure_id b) = Some fl"
  using assms
  by (auto simp: check_failure_def Let_def res_simps split: option.splits if_splits)

lemma record_projection_failure_new:
  assumes "record_projection_failure sha now b be = (be', Inr failure)"
    and "\<not> hm_contains (pr_failures (pj_protocol be)) (fb_failure_id b)"
  obtains st where "check_failure sha now b be = Inr None"
      "stage_failure b (pj_retention be) (pj_protocol be) = Inr (st, failure)"
      "be' = be\<lparr>pj_protocol := st,
         pj_inbox := insert (receipt_key (input_inbox_receipt now (fb_input b))) (pj_inbox be)\<rparr>"
proof (cases "check_failure sha now b be")
  case (Inl e)
  with assms(1) show thesis by (simp add: record_projection_failure_def)
next
  case (Inr x)
  then have x: "x = None"
    using assms(2) check_failure_existing [of sha now b be] by (cases x) (auto simp: hm_contains_def)
  show thesis
  proof (cases "stage_failure b (pj_retention be) (pj_protocol be)")
    case (Inl e)
    with assms(1) \<open>check_failure sha now b be = Inr x\<close> x show thesis
      by (simp add: record_projection_failure_def)
  next
    case (Inr y)
    obtain st fl where y: "y = (st, fl)" by (cases y)
    with assms(1) \<open>check_failure sha now b be = Inr x\<close> x Inr that [of st] show thesis
      by (simp add: record_projection_failure_def)
  qed
qed

lemma dispositionI:
  assumes "require_registered_topology (pj_protocol be) (ic_topology (ti_cursor i)) = Inr ()"
    and "validate_gap_free (pj_protocol be) (ti_cursor i) (ti_gap_free i) = Inr ()"
    and "validate_input_identity (pj_protocol be) i = Inr ()"
    and "control (pj_protocol be) (from_input (ti_cursor i)) = Some (ti_generation i, None, r)"
    and "hm_contains (pr_generations (pj_protocol be))
       \<lparr>gk_partition = from_input (ti_cursor i), gk_generation = ti_generation i\<rparr>"
    and "classify_input (pj_protocol be) i = Inr NewInput"
    and "validate_pending_retry (pj_protocol be) (from_input (ti_cursor i)) i = Inr ()"
  shows "projection_input_disposition i be = Inr Pending"
  using assms
  by (auto simp: projection_input_disposition_def Let_def control_cases validate_known_input_identity_def)

lemma failed_input_pending_again:
  assumes inv: "store_inv be"
    and fail: "record_projection_failure sha now b be = (be1, Inr failure)"
    and fresh: "\<not> hm_contains (pr_failures (pj_protocol be)) (fb_failure_id b)"
    and lt: "ti_generation (fb_input b) < MAX_PROJECTION_POSITION"
  obtains be2 where
    "repair_projection (ic_topology (ti_cursor (fb_input b))) (ic_partition (ti_cursor (fb_input b)))
       (fb_failure_id b) be1 = (be2, Inr (Suc (ti_generation (fb_input b))))"
    "projection_input_disposition
       ((fb_input b)\<lparr>ti_generation := Suc (ti_generation (fb_input b))\<rparr>) be2 = Inr Pending"
proof -
  let ?i = "fb_input b" and ?st = "pj_protocol be" and ?f = "fb_failure_id b"
  let ?c = "ti_cursor ?i" and ?g = "ti_generation ?i"
  let ?key = "from_input ?c" and ?i' = "?i\<lparr>ti_generation := Suc ?g\<rparr>"
  have key: "?key = partition_key_new (ic_topology ?c) (ic_partition ?c)" by (simp add: from_input_def)
  have pinv: "protocol_inv ?st" and linv: "lineage_inv ?st" using inv by (simp_all add: store_inv_def)
  from fail fresh obtain st where chk: "check_failure sha now b be = Inr None"
    and stg: "stage_failure b (pj_retention be) ?st = Inr (st, failure)"
    and be1: "be1 = be\<lparr>pj_protocol := st, pj_inbox := insert (receipt_key (input_inbox_receipt now ?i)) (pj_inbox be)\<rparr>"
    by (rule record_projection_failure_new)
  note new = admit_failure_ok [OF check_failure_new [OF chk]]
  note keep = stage_failure_keeps [OF stg pinv linv new(1,4)]
  from stg pinv obtain st1 where op: "opened ?i (fb_change_epoch b) ?st st1"
    and rest: "snd (bookkeeping st) = snd (bookkeeping (persist_input_identity ?i st1
       \<lparr>pr_failure_inputs := AList.update ?f (fence_from_input ?i) (pr_failure_inputs st1),
        pr_failures := AList.update ?f failure (pr_failures st1)\<rparr>))"
    by (rule stage_failure_ok)
  note opl = opened_lineage [OF op linv] and fld = bookkeeping_rest [OF rest]
  have inv1: "store_inv be1" by (rule record_projection_failure_keeps(1) [OF fail inv])
  have ctl1: "control (pj_protocol be1) ?key = Some (?g, Some ?f, None)" by (simp add: be1 keep(3))
  from check_repair_total [OF inv1 ctl1 [unfolded key] lt] obtain pn where
    rep: "check_repair st (ic_topology ?c) (ic_partition ?c) ?f = Inr (pn, Suc ?g)"
    and act: "pn_active_generation pn = ?g"
    by (auto simp: be1)
  obtain be2 res where be2: "repair_projection (ic_topology ?c) (ic_partition ?c) ?f be1 = (be2, res)"
    by (cases "repair_projection (ic_topology ?c) (ic_partition ?c) ?f be1") blast
  let ?st2 = "st\<lparr>pr_inputs := copy_inputs ?key ?g (Suc ?g) (pr_inputs st),
      pr_generations := AList.update \<lparr>gk_partition = ?key, gk_generation = Suc ?g\<rparr>
         (lineage_retry_of ?g ?f) (pr_generations st),
      pr_partitions := AList.update ?key (pn\<lparr>pn_active_generation := Suc ?g,
         pn_stopped_failure_id := None, pn_pending_retry_failure_id := Some ?f\<rparr>) (pr_partitions st)\<rparr>"
  from be2 rep act have res: "res = Inr (Suc ?g)" and st2: "pj_protocol be2 = ?st2"
    by (auto simp: repair_projection_def Let_def be1 key)
  have ids: "pr_input_identities ?st2 = pr_input_identities (persist_input_identity ?i ?st)"
    "pr_messages ?st2 = pr_messages (persist_input_identity ?i ?st)"
    "pr_gap_free_capabilities ?st2 =
       or_insert (source_capability_key_new ?c) (ti_gap_free ?i) (pr_gap_free_capabilities ?st)"
    "pr_registered_topologies ?st2 = pr_registered_topologies ?st"
    "pr_inputs st = pr_inputs ?st" "map_of (pr_failure_inputs ?st2) ?f = Some (fence_from_input ?i)"
    by (simp_all add: fld opl persist_input_identity_def)
  note chks = validate_partition_checks [OF new(1)]
  note idr = identity_recorded [OF chks(3) ids(1,2)] and gap = gap_free_recorded [OF chks(2) ids(3)]
  have linv1: "lineage_inv st" using keep(1) .
  have ahead: "\<not> generation_reached st ?key (Suc ?g)"
    by (simp add: generation_reached_def keep(3))
  have rcpt: "map_of (pr_applied_receipts ?st2) (cursor_receipt_key_new ?c (Suc ?g)) = None"
    using lineage_invD(2) [OF linv1, of "cursor_receipt_key_new ?c (Suc ?g)"] ahead
    by (cases "map_of (pr_applied_receipts st) (cursor_receipt_key_new ?c (Suc ?g))")
      (auto simp: receipt_ok_def cursor_receipt_key_new_def)
  have noinput: "map_of (pr_inputs st) (input_key_new ?c (Suc ?g)) = None"
    using lineage_invD(5) [OF linv1, of "input_key_new ?c (Suc ?g)"] ahead
    by (cases "map_of (pr_inputs st) (input_key_new ?c (Suc ?g))") (auto simp: input_ok_def input_key_new_def)
  have "map_of (pr_inputs ?st2) (input_key_new ?c (Suc ?g)) = map_of (pr_inputs ?st) (input_key_new ?c ?g)"
    using copy_inputs_lookup [of "pr_inputs st" "input_key_new ?c ?g" ?key ?g "Suc ?g"] noinput linv1
    by (simp add: input_key_new_def lineage_inv_def ids(5))
  then have cls: "classify_input ?st2 ?i' = Inr NewInput"
    using classify_new_inputs [OF new(2)] gap idr rcpt
    by (intro classify_newI) (simp_all split: option.splits)
  have "projection_input_disposition ?i' be2 = Inr Pending"
  proof (rule dispositionI [where r = "Some ?f"], unfold st2)
    show "require_registered_topology ?st2 (ic_topology (ti_cursor ?i')) = Inr ()"
      using chks(1) ids(4) by (simp add: require_registered_topology_def)
    show "validate_pending_retry ?st2 (from_input (ti_cursor ?i')) ?i' = Inr ()"
      using ids(6) by (simp add: validate_pending_retry_def fence_from_input_def matches_retry_def)
  qed (use gap idr(1) cls in \<open>simp_all add: control_def hm_contains_def\<close>)
  with be2 res that show thesis by blast
qed

section \<open>Reading the change log\<close>

lemma take_upt_min: "take n [i..<j] = [i..<min (i + n) j]"
  by (cases "i + n \<le> j") (simp_all add: min_def)

lemma log_positions:
  assumes "change_log_ok key pn" "pn_compacted_through pn \<le> a"
  shows "map (\<lambda>ch. cc_position (ch_cursor ch))
           (map snd (take n (filter (\<lambda>(p, _). a < p) (pn_changes pn))))
         = [Suc a..<Suc (min (pn_change_head pn) (a + n))]"
proof -
  have keys: "map fst (pn_changes pn) = [Suc (pn_compacted_through pn)..<Suc (pn_change_head pn)]"
    and curs: "map (\<lambda>(p, ch). ch_cursor ch) (pn_changes pn) =
       map (\<lambda>p. \<lparr>cc_topology = pk_topology key, cc_partition = pk_partition key,
                 cc_epoch = pn_change_epoch pn, cc_position = p\<rparr>)
         [Suc (pn_compacted_through pn)..<Suc (pn_change_head pn)]"
    using assms(1) by (simp_all add: change_log_ok_def)
  have "map (\<lambda>x. cc_position (ch_cursor (snd x))) (pn_changes pn)
      = map cc_position (map (\<lambda>(p, ch). ch_cursor ch) (pn_changes pn))"
    by (simp add: split_def)
  also have "\<dots> = [Suc (pn_compacted_through pn)..<Suc (pn_change_head pn)]"
    unfolding curs by (simp add: o_def del: upt_Suc)
  finally have pos: "map (\<lambda>x. cc_position (ch_cursor (snd x))) (pn_changes pn)
      = [Suc (pn_compacted_through pn)..<Suc (pn_change_head pn)]" .
  have "map (\<lambda>ch. cc_position (ch_cursor ch))
           (map snd (take n (filter (\<lambda>(p, _). a < p) (pn_changes pn))))
      = take n (drop (a - pn_compacted_through pn)
          (map (\<lambda>x. cc_position (ch_cursor (snd x))) (pn_changes pn)))"
    by (simp add: drop_filter_upt [OF keys assms(2)] take_map drop_map)
  also have "\<dots> = [Suc a..<Suc (min (pn_change_head pn) (a + n))]"
    using assms(2) by (simp add: pos take_upt_min del: upt_Suc) (simp add: min.commute del: upt_Suc)
  finally show ?thesis .
qed

definition head_position :: "change_cursor option \<Rightarrow> nat" where
  "head_position c = (case c of None \<Rightarrow> 0 | Some c \<Rightarrow> cc_position c)"


section \<open>A concrete store\<close>

text \<open>One registered topology and two inputs of one source partition, for the witnesses.\<close>

definition demo_topology :: topology_id where
  "demo_topology = \<lparr>pt_version = 1, pt_name = ''todos'', pt_digest = replicate 32 0\<rparr>"

definition demo_partition :: partition where
  "demo_partition = \<lparr>pp_bytes = [1], pp_digest = replicate 32 1\<rparr>"

definition demo_cursor :: "nat \<Rightarrow> input_cursor" where
  "demo_cursor n =
     \<lparr>ic_topology = demo_topology, ic_partition = demo_partition,
      ic_source = \<lparr>ps_name = ''orders'', ps_name_digest = replicate 32 2, ps_partition_bytes = [2],
                   ps_partition_digest = replicate 32 3\<rparr>,
      ic_epoch = ''e1'', ic_position = n\<rparr>"

definition demo_input :: "nat \<Rightarrow> trusted_input" where
  "demo_input n =
     \<lparr>ti_cursor = demo_cursor n, ti_fingerprint = replicate 32 4, ti_message_id = ''m'' @ show_nat n,
      ti_causation_id = ''c'' @ show_nat n, ti_generation = 1, ti_gap_free = False\<rparr>"

definition demo_batch :: "nat \<Rightarrow> projection_batch" where
  "demo_batch n =
     \<lparr>pb_input = demo_input n, pb_change_epoch = ''log'', pb_ownership = [], pb_mutations = [],
      pb_observations = []\<rparr>"

definition demo_store :: projection_backend where
  "demo_store =
     \<lparr>pj_rows = [], pj_causal_tables = {},
      pj_protocol = protocol_empty\<lparr>pr_registered_topologies := {demo_topology}\<rparr>,
      pj_inbox = {}, pj_retention = 2\<rparr>"

lemma store_inv_empty:
  assumes "pj_protocol be = protocol_empty\<lparr>pr_registered_topologies := ts\<rparr>"
  shows "store_inv be"
  by (simp add: store_inv_def assms protocol_inv_def lineage_inv_def control_ok_def control_def
      protocol_empty_def live_ids_def)

lemma store_inv_demo: "store_inv demo_store"
  by (rule store_inv_empty) (simp add: demo_store_def)

definition demo_committed :: projection_backend where
  "demo_committed = fst (commit_projection sample_fmt 0 (demo_batch 1) demo_store)"

lemma demo_commit_applies:
  "case snd (commit_projection sample_fmt 0 (demo_batch 1) demo_store) of
     Inl e \<Rightarrow> False | Inr r \<Rightarrow> cr_outcome r = Applied"
  by code_simp
section \<open>Guarantees\<close>



text \<open>
  C2: A projection input is applied at most once. After an input was applied, and after any
  further transactions, committing any batch for the same cursor and generation changes nothing:
  it is refused, or it is answered as a duplicate with the checkpoint of the first commit.
\<close>

theorem projection_input_applied_once:
  assumes "store_inv be" and "commit_projection fmt now b be = (be1, Inr r)"
    and "cr_outcome r = Applied" and "projection_steps fmt sha be1 be2"
    and "ti_cursor (pb_input b') = ti_cursor (pb_input b)"
    and "ti_generation (pb_input b') = ti_generation (pb_input b)"
  shows "fst (commit_projection fmt now' b' be2) = be2 \<and>
    (case snd (commit_projection fmt now' b' be2) of
       Inl e \<Rightarrow> True
     | Inr r' \<Rightarrow> r' = not_applied DuplicateInput (cr_checkpoint r))"
proof -
  from assms(2,3,1) obtain cp where cp: "cr_checkpoint r = Some cp"
    and rc: "map_of (pr_applied_receipts (pj_protocol be1))
       (cursor_receipt_key_new (ti_cursor (pb_input b)) (ti_generation (pb_input b)))
       = Some (receipt_of (pb_input b) cp)"
    and inv1: "store_inv be1"
    by (rule commit_applied_facts)
  from projection_steps_keep [OF assms(4) inv1]
  have "map_of (pr_applied_receipts (pj_protocol be1)) \<subseteq>\<^sub>m map_of (pr_applied_receipts (pj_protocol be2))"
    by (simp add: history_kept_iff protocol_grows_def)
  with rc have "map_of (pr_applied_receipts (pj_protocol be2))
       (cursor_receipt_key_new (ti_cursor (pb_input b')) (ti_generation (pb_input b')))
       = Some (receipt_of (pb_input b) cp)"
    unfolding assms(5,6) map_le_def by (metis domI)
  from commit_known_receipt [OF this] show ?thesis
    by (auto simp: cp receipt_of_def split: sum.splits)
qed

theorem projection_input_applied_once_witness:
  "fst (commit_projection sample_fmt 9 (demo_batch 1) demo_committed) = demo_committed"
proof -
  obtain r where r: "snd (commit_projection sample_fmt 0 (demo_batch 1) demo_store) = Inr r"
    "cr_outcome r = Applied"
    using demo_commit_applies by (auto split: sum.splits)
  then have "commit_projection sample_fmt 0 (demo_batch 1) demo_store = (demo_committed, Inr r)"
    by (simp add: demo_committed_def prod_eq_iff)
  from projection_input_applied_once [OF store_inv_demo this r(2) rtranclp.rtrancl_refl refl refl]
  show ?thesis by blast
qed

text \<open>
  C10: A stopped partition is closed and a repaired one is open to one input only. A batch is
  applied only if its partition is not stopped and its generation is the active one; and while a
  repair is pending, only if its input is exactly the one whose failure stopped the partition,
  in the generation that follows the failed one.
\<close>

theorem stopped_partition_gate:
  assumes "store_inv be" and "commit_projection fmt now b be = (be', Inr r)"
    and "cr_outcome r = Applied"
  shows "case control (pj_protocol be) (from_input (ti_cursor (pb_input b))) of
      None \<Rightarrow> ti_generation (pb_input b) = 1
    | Some (g, stopped, pending) \<Rightarrow>
        stopped = None \<and> ti_generation (pb_input b) = g \<and>
        (case pending of
           None \<Rightarrow> True
         | Some f \<Rightarrow>
             \<exists>fl. map_of (pr_failures (pj_protocol be)) f = Some fl \<and>
               matches_retry (fence_of fl) (pb_input b) \<and> pf_generation fl + 1 = g)"
proof -
  let ?i = "pb_input b" and ?st = "pj_protocol be"
  let ?key = "from_input (ti_cursor ?i)"
  from assms(2,3,1) have "admit_input now b be = Inr NewInput" by (rule commit_applied_facts)
  note adm = admit_new_input [OF this]
  have linv: "lineage_inv ?st" using assms(1) by (simp add: store_inv_def)
  from validated_control [OF adm(2)] show ?thesis
  proof (elim disjE exE conjE)
    fix p
    assume ctl: "control ?st ?key = Some (ti_generation ?i, None, p)"
    show ?thesis
    proof (cases p)
      case (Some f)
      with lineage_invD(4) [OF linv, of ?key] ctl obtain fl where
        fl: "map_of (pr_failures ?st) f = Some fl" "0 < ti_generation ?i"
          "pf_generation fl = ti_generation ?i - 1"
        by (auto simp: control_ok_def failed_in_def split: option.splits)
      from lineage_invD(3) [OF linv fl(1)] have "map_of (pr_failure_inputs ?st) f = Some (fence_of fl)"
        by (simp add: failure_ok_def)
      with adm(4) ctl Some have "matches_retry (fence_of fl) ?i"
        by (auto simp: validate_pending_retry_def control_cases split: if_splits)
      with fl ctl Some show ?thesis by simp
    qed (simp add: ctl)
  qed (simp add: generation_initial_def)
qed

theorem stopped_partition_gate_witness:
  "control (pj_protocol demo_store) (from_input (demo_cursor 1)) = None \<and>
   ti_generation (pb_input (demo_batch 1)) = 1"
proof -
  obtain r where r: "snd (commit_projection sample_fmt 0 (demo_batch 1) demo_store) = Inr r"
    "cr_outcome r = Applied"
    using demo_commit_applies by (auto split: sum.splits)
  then have "commit_projection sample_fmt 0 (demo_batch 1) demo_store = (demo_committed, Inr r)"
    by (simp add: demo_committed_def prod_eq_iff)
  from stopped_partition_gate [OF store_inv_demo this r(2)] show ?thesis
    by (simp add: demo_batch_def demo_input_def demo_store_def control_def protocol_empty_def)
qed

definition demo_failure :: failure_batch where
  "demo_failure =
     \<lparr>fb_input = demo_input 2, fb_change_epoch = ''log'', fb_failure_id = ''f1'',
      fb_failure_code = ''poison'', fb_failure_bytes = [9], fb_failure_digest = []\<rparr>"

lemma store_inv_demo_committed: "store_inv demo_committed"
  unfolding demo_committed_def
  by (rule commit_projection_keeps(1) [OF surjective_pairing store_inv_demo])

lemma demo_failure_recorded:
  "case snd (record_projection_failure (\<lambda>_. []) 0 demo_failure demo_committed) of
     Inl e \<Rightarrow> False | Inr fl \<Rightarrow> \<not> hm_contains (pr_failures (pj_protocol demo_committed)) ''f1''"
  by code_simp

text \<open>
  C9: A terminal failure never blocks a partition for good. Once a failure is recorded, repairing
  it succeeds and opens the next generation, and in that generation the failed input is pending
  again: neither a duplicate nor stale nor fenced.
\<close>

theorem failed_input_can_be_retried:
  assumes "store_inv be"
    and "record_projection_failure sha now b be = (be1, Inr failure)"
    and "\<not> hm_contains (pr_failures (pj_protocol be)) (fb_failure_id b)"
    and "ti_generation (fb_input b) < MAX_PROJECTION_POSITION"
  shows "\<exists>be2. repair_projection (ic_topology (ti_cursor (fb_input b)))
             (ic_partition (ti_cursor (fb_input b))) (fb_failure_id b) be1
             = (be2, Inr (Suc (ti_generation (fb_input b)))) \<and>
           projection_input_disposition
             ((fb_input b)\<lparr>ti_generation := Suc (ti_generation (fb_input b))\<rparr>) be2 = Inr Pending"
  using failed_input_pending_again [OF assms] by metis

theorem failed_input_can_be_retried_witness:
  "\<exists>be2. repair_projection demo_topology demo_partition ''f1''
       (fst (record_projection_failure (\<lambda>_. []) 0 demo_failure demo_committed)) = (be2, Inr 2) \<and>
     projection_input_disposition ((demo_input 2)\<lparr>ti_generation := 2\<rparr>) be2 = Inr Pending"
proof -
  obtain fl where fl: "snd (record_projection_failure (\<lambda>_. []) 0 demo_failure demo_committed) = Inr fl"
    and fresh: "\<not> hm_contains (pr_failures (pj_protocol demo_committed)) ''f1''"
    using demo_failure_recorded by (auto split: sum.splits)
  from fl obtain be1 where
    rec: "record_projection_failure (\<lambda>_. []) 0 demo_failure demo_committed = (be1, Inr fl)"
    by (metis surjective_pairing)
  have lt: "ti_generation (fb_input demo_failure) < MAX_PROJECTION_POSITION"
    by (simp add: demo_failure_def demo_input_def MAX_PROJECTION_POSITION_def)
  have eqs: "fb_failure_id demo_failure = ''f1''" "fb_input demo_failure = demo_input 2"
    "ti_cursor (demo_input 2) = demo_cursor 2" "Suc (ti_generation (demo_input 2)) = 2"
    "ic_topology (demo_cursor 2) = demo_topology" "ic_partition (demo_cursor 2) = demo_partition"
    by (simp_all add: demo_failure_def demo_input_def demo_cursor_def)
  from fresh have "\<not> hm_contains (pr_failures (pj_protocol demo_committed)) (fb_failure_id demo_failure)"
    by (simp only: eqs not_False_eq_True)
  from failed_input_can_be_retried [OF store_inv_demo_committed rec this lt] show ?thesis
    unfolding eqs by (simp only: rec fst_conv)
qed



text \<open>
  C19: An applied batch publishes its changes at the end of the log of its partition, leaves every
  other log alone, and trims the log to the retention: what remains are the most recent changes.
\<close>

theorem commit_extends_change_log:
  assumes "store_inv be" and "commit_projection fmt now b be = (be', Inr r)"
    and "cr_outcome r = Applied"
  shows "let key = from_input (ti_cursor (pb_input b));
             published = change_log (pj_protocol be) key @ cr_changes r in
    cr_changes r \<noteq> [] \<and>
    change_log (pj_protocol be') key = drop (length published - pj_retention be) published \<and>
    length (change_log (pj_protocol be') key) \<le> pj_retention be \<and>
    (\<forall>key'. key' \<noteq> key \<longrightarrow> change_log (pj_protocol be') key' = change_log (pj_protocol be) key')"
proof -
  from assms(2,3,1) obtain cp where "cr_changes r \<noteq> []"
    and "change_log (pj_protocol be') = (change_log (pj_protocol be))(from_input (ti_cursor (pb_input b)) :=
       retained (pj_retention be)
         (change_log (pj_protocol be) (from_input (ti_cursor (pb_input b))) @ cr_changes r))"
    by (rule commit_applied_facts)
  then show ?thesis
    using length_retained [of "pj_retention be"] by (simp add: Let_def retained_def)
qed

theorem commit_extends_change_log_witness:
  "length (change_log (pj_protocol demo_committed) (from_input (demo_cursor 1))) \<le> 2"
proof -
  obtain r where r: "snd (commit_projection sample_fmt 0 (demo_batch 1) demo_store) = Inr r"
    "cr_outcome r = Applied"
    using demo_commit_applies by (auto split: sum.splits)
  then have "commit_projection sample_fmt 0 (demo_batch 1) demo_store = (demo_committed, Inr r)"
    by (simp add: demo_committed_def prod_eq_iff)
  from commit_extends_change_log [OF store_inv_demo this r(2)]
  show ?thesis
    by (simp add: Let_def demo_batch_def demo_input_def demo_store_def)
qed


end
