(* ===== verification/Projection_Replay.thy ===== *)
theory Projection_Replay
  imports Projection_Safety
begin

text \<open>
  The replay form of same-transaction projection evidence
  (\<^verbatim>\<open>src/src/projection_protocol/store/replay.rs\<close>): the wire structures, their construction from
  evidence, the bounded lowercase hexadecimal decoder, the validating conversions back, and the
  check that the evidence describes one plain record upsert. The derived JSON codec of the wire
  envelope is the pair of arguments \<open>to_value\<close> and \<open>from_value\<close>; SHA-256 is the argument \<open>sha\<close>.
\<close>

section \<open>Wire structures\<close>

record replay_scope =
  rs_topology_version :: nat
  rs_topology_name :: string
  rs_topology_digest :: string
  rs_partition :: string
  rs_partition_digest :: string
  rs_model :: string
  rs_key :: string
  rs_key_digest :: string

record replay_revision =
  rv_scope :: replay_scope
  rv_incarnation :: nat
  rv_revision :: nat

record replay_cursor =
  rc_topology_version :: nat
  rc_topology_name :: string
  rc_topology_digest :: string
  rc_partition :: string
  rc_partition_digest :: string
  rc_epoch :: string
  rc_position :: nat

record replay_record =
  rd_revision :: replay_revision
  rd_tombstone :: bool
  rd_change :: replay_cursor

record replay_change =
  rh_cursor :: replay_cursor
  rh_kind :: string
  rh_causation_id :: string
  rh_observation_kind :: "string option"
  rh_scope :: "replay_scope option"
  rh_revision :: "replay_revision option"
  rh_failure_id :: "string option"

record replay_observation =
  ro_causation_id :: string
  ro_kind :: string
  ro_revision :: "replay_revision option"
  ro_scope :: replay_scope
  ro_change :: replay_cursor

record replay_envelope =
  re_version :: nat
  re_records :: "replay_record list"
  re_changes :: "replay_change list"
  re_observations :: "replay_observation list"

section \<open>Encoding\<close>

text \<open>\<^verbatim>\<open>format!("{byte:02x}")\<close> of every byte.\<close>

definition bytes_hex :: "byte list \<Rightarrow> string" where
  "bytes_hex bs =
     concat (map (\<lambda>b. let s = show_hex (unat b)
                      in if length s < 2 then CHR ''0'' # s else s) bs)"

definition replay_scope_from :: "record_scope \<Rightarrow> replay_scope" where
  "replay_scope_from scope =
     \<lparr>rs_topology_version = pt_version (sc_topology scope),
      rs_topology_name = pt_name (sc_topology scope),
      rs_topology_digest = digest_hex (pt_digest (sc_topology scope)),
      rs_partition = bytes_hex (pp_bytes (sc_partition scope)),
      rs_partition_digest = digest_hex (pp_digest (sc_partition scope)),
      rs_model = sc_model scope,
      rs_key = bytes_hex (sc_key scope),
      rs_key_digest = digest_hex (sc_key_digest scope)\<rparr>"

definition replay_revision_from :: "record_revision \<Rightarrow> replay_revision" where
  "replay_revision_from r =
     \<lparr>rv_scope = replay_scope_from (rr_scope r), rv_incarnation = rr_incarnation r,
      rv_revision = rr_revision r\<rparr>"

definition replay_cursor_from :: "change_cursor \<Rightarrow> replay_cursor" where
  "replay_cursor_from c =
     \<lparr>rc_topology_version = pt_version (cc_topology c),
      rc_topology_name = pt_name (cc_topology c),
      rc_topology_digest = digest_hex (pt_digest (cc_topology c)),
      rc_partition = bytes_hex (pp_bytes (cc_partition c)),
      rc_partition_digest = digest_hex (pp_digest (cc_partition c)),
      rc_epoch = cc_epoch c,
      rc_position = cc_position c\<rparr>"

definition replay_record_from :: "record_metadata \<Rightarrow> replay_record" where
  "replay_record_from md =
     \<lparr>rd_revision = replay_revision_from (md_revision md), rd_tombstone = md_tombstone md,
      rd_change = replay_cursor_from (md_change md)\<rparr>"

definition replay_change_from :: "projection_change \<Rightarrow> replay_change" where
  "replay_change_from ch =
     \<lparr>rh_cursor = replay_cursor_from (ch_cursor ch),
      rh_kind = change_kind_as_storage_str (ch_kind ch),
      rh_causation_id = ch_causation_id ch,
      rh_observation_kind = map_option observation_kind_as_storage_str (ch_observation_kind ch),
      rh_scope = map_option replay_scope_from (ch_scope ch),
      rh_revision = map_option replay_revision_from (ch_revision ch),
      rh_failure_id = ch_failure_id ch\<rparr>"

definition replay_observation_from :: "projection_observation \<Rightarrow> replay_observation" where
  "replay_observation_from ob =
     \<lparr>ro_causation_id = po_causation_id ob,
      ro_kind = observation_kind_as_storage_str (po_kind ob),
      ro_revision = map_option replay_revision_from (po_revision ob),
      ro_scope = replay_scope_from (po_scope ob),
      ro_change = replay_cursor_from (po_change ob)\<rparr>"

definition replay_envelope_from :: "direct_evidence \<Rightarrow> replay_envelope" where
  "replay_envelope_from ev =
     \<lparr>re_version = 1, re_records = map replay_record_from (se_records ev),
      re_changes = map replay_change_from (se_changes ev),
      re_observations = map replay_observation_from (se_observations ev)\<rparr>"

section \<open>Decoding\<close>

definition replay_validation_error :: "string \<Rightarrow> string \<Rightarrow> string" where
  "replay_validation_error field e =
     ''direct projection evidence '' @ field @ '' is invalid: '' @ e"

definition decode_replay_hex_nibble :: "char \<Rightarrow> byte option" where
  "decode_replay_hex_nibble c =
     (let v = (of_char c :: nat)
      in if 48 \<le> v \<and> v \<le> 57 then Some (of_nat (v - 48))
         else if 97 \<le> v \<and> v \<le> 102 then Some (of_nat (v - 97 + 10))
         else None)"

text \<open>The loop over \<^verbatim>\<open>chunks_exact(2)\<close>.\<close>

fun decode_replay_pairs :: "string \<Rightarrow> string \<Rightarrow> string + byte list" where
  "decode_replay_pairs field (a # b # s) =
     (let bad = ''direct projection evidence '' @ field @ '' is not lowercase hexadecimal'' in
      rbind (ok_or bad (decode_replay_hex_nibble a)) (\<lambda>high.
      rbind (ok_or bad (decode_replay_hex_nibble b)) (\<lambda>low.
      rbind (decode_replay_pairs field s) (\<lambda>rest.
      Inr (or (push_bit 4 high) low # rest)))))"
| "decode_replay_pairs field s = Inr []"

definition decode_replay_hex :: "string \<Rightarrow> string \<Rightarrow> nat \<Rightarrow> string + byte list" where
  "decode_replay_hex field v max_bytes =
     (if odd (length v) \<or> min u64_max (max_bytes * 2) < length v
      then Inl (''direct projection evidence '' @ field @ '' is not bounded canonical hexadecimal'')
      else decode_replay_pairs field v)"

definition decode_replay_digest :: "string \<Rightarrow> string \<Rightarrow> string + byte list" where
  "decode_replay_digest field v =
     rbind (decode_replay_hex field v 32) (\<lambda>bs.
     if length bs = 32 then Inr bs
     else Inl
       (''direct projection evidence '' @ field @ '' must contain exactly 32 bytes''))"

definition decode_replay_topology :: "nat \<Rightarrow> string \<Rightarrow> string \<Rightarrow> string + topology_id" where
  "decode_replay_topology version name dig =
     rbind (decode_replay_digest ''topology digest'' dig) (\<lambda>dig.
     map_err (\<lambda>e. replay_validation_error ''topology'' (display_validation_error e))
       (topology_new version name dig))"

definition decode_replay_partition ::
  "(byte list \<Rightarrow> byte list) \<Rightarrow> string \<Rightarrow> string \<Rightarrow> string + partition" where
  "decode_replay_partition sha canonical dig =
     rbind (decode_replay_hex ''partition'' canonical MAX_PROJECTION_PARTITION_BYTES) (\<lambda>bs.
     rbind (map_err (\<lambda>e. replay_validation_error ''partition'' (display_validation_error e))
              (partition_new sha bs)) (\<lambda>p.
     if digest_hex (pp_digest p) \<noteq> dig
     then Inl ''direct projection evidence partition digest does not match its canonical bytes''
     else Inr p))"

definition into_scope :: "(byte list \<Rightarrow> byte list) \<Rightarrow> replay_scope \<Rightarrow> string + record_scope" where
  "into_scope sha s =
     rbind (decode_replay_topology (rs_topology_version s) (rs_topology_name s)
              (rs_topology_digest s)) (\<lambda>topology.
     rbind (decode_replay_partition sha (rs_partition s) (rs_partition_digest s)) (\<lambda>part.
     rbind (decode_replay_hex ''record key'' (rs_key s) MAX_PROJECTION_RECORD_KEY_BYTES) (\<lambda>key.
     rbind (map_err (\<lambda>e. replay_validation_error ''record scope'' (display_validation_error e))
              (record_scope_new sha topology part (rs_model s) key)) (\<lambda>scope.
     if digest_hex (sc_key_digest scope) \<noteq> rs_key_digest s
     then Inl ''direct projection evidence record key digest does not match its canonical bytes''
     else Inr scope))))"

definition into_revision ::
  "(byte list \<Rightarrow> byte list) \<Rightarrow> replay_revision \<Rightarrow> string + record_revision" where
  "into_revision sha r =
     rbind (into_scope sha (rv_scope r)) (\<lambda>scope.
     map_err (\<lambda>e. replay_validation_error ''record revision'' (display_validation_error e))
       (record_revision_new scope (rv_incarnation r) (rv_revision r)))"

definition into_cursor :: "(byte list \<Rightarrow> byte list) \<Rightarrow> replay_cursor \<Rightarrow> string + change_cursor" where
  "into_cursor sha c =
     rbind (decode_replay_topology (rc_topology_version c) (rc_topology_name c)
              (rc_topology_digest c)) (\<lambda>topology.
     rbind (decode_replay_partition sha (rc_partition c) (rc_partition_digest c)) (\<lambda>part.
     rbind (map_err (\<lambda>e. replay_validation_error ''change epoch'' (display_validation_error e))
              (epoch_new (rc_epoch c))) (\<lambda>ep.
     map_err (\<lambda>e. replay_validation_error ''change cursor'' (display_validation_error e))
       (change_cursor_new topology part ep (rc_position c)))))"

definition into_record :: "(byte list \<Rightarrow> byte list) \<Rightarrow> replay_record \<Rightarrow> string + record_metadata" where
  "into_record sha r =
     rbind (into_revision sha (rd_revision r)) (\<lambda>revision.
     rbind (into_cursor sha (rd_change r)) (\<lambda>change.
     Inr \<lparr>md_revision = revision, md_tombstone = rd_tombstone r, md_change = change\<rparr>))"

text \<open>\<^verbatim>\<open>Option<Result<T, E>>::transpose\<close> after \<^verbatim>\<open>map\<close>.\<close>

definition try_option :: "('a \<Rightarrow> 'e + 'b) \<Rightarrow> 'a option \<Rightarrow> 'e + 'b option" where
  "try_option f x = (case x of None \<Rightarrow> Inr None | Some v \<Rightarrow> rbind (f v) (\<lambda>w. Inr (Some w)))"

definition decode_replay_change_kind :: "string \<Rightarrow> string + change_kind" where
  "decode_replay_change_kind v =
     ok_or (''direct projection evidence has unknown change kind `'' @ v @ ''`'')
       (change_kind_from_storage_str v)"

definition decode_replay_observation_kind :: "string \<Rightarrow> string + observation_kind" where
  "decode_replay_observation_kind v =
     ok_or (''direct projection evidence has unknown observation kind `'' @ v @ ''`'')
       (observation_kind_from_storage_str v)"

definition into_change :: "(byte list \<Rightarrow> byte list) \<Rightarrow> replay_change \<Rightarrow> string + projection_change" where
  "into_change sha c =
     rbind (into_cursor sha (rh_cursor c)) (\<lambda>cursor.
     rbind (decode_replay_change_kind (rh_kind c)) (\<lambda>kind.
     rbind (map_err (\<lambda>e. replay_validation_error ''change causation'' (display_projection_error e))
              (bounded_opaque ''projection causation ID'' (rh_causation_id c)
                 MAX_CAUSATION_ID_BYTES)) (\<lambda>cause.
     rbind (try_option decode_replay_observation_kind (rh_observation_kind c)) (\<lambda>okind.
     rbind (try_option (into_scope sha) (rh_scope c)) (\<lambda>scope.
     rbind (try_option (into_revision sha) (rh_revision c)) (\<lambda>revision.
     rbind (try_option (\<lambda>f.
              map_err (\<lambda>e. replay_validation_error ''change failure ID'' (display_projection_error e))
                (bounded_opaque ''projection failure ID'' f MAX_FAILURE_ID_BYTES))
              (rh_failure_id c)) (\<lambda>failure.
     Inr \<lparr>ch_cursor = cursor, ch_kind = kind, ch_causation_id = cause,
          ch_observation_kind = okind, ch_scope = scope, ch_revision = revision,
          ch_failure_id = failure\<rparr>)))))))"

definition into_observation ::
  "(byte list \<Rightarrow> byte list) \<Rightarrow> replay_observation \<Rightarrow> string + projection_observation" where
  "into_observation sha ob =
     rbind (map_err (\<lambda>e. replay_validation_error ''observation causation'' (display_projection_error e))
              (bounded_opaque ''projection causation ID'' (ro_causation_id ob)
                 MAX_CAUSATION_ID_BYTES)) (\<lambda>cause.
     rbind (decode_replay_observation_kind (ro_kind ob)) (\<lambda>kind.
     rbind (try_option (into_revision sha) (ro_revision ob)) (\<lambda>revision.
     rbind (into_scope sha (ro_scope ob)) (\<lambda>scope.
     rbind (into_cursor sha (ro_change ob)) (\<lambda>change.
     Inr \<lparr>po_causation_id = cause, po_kind = kind, po_revision = revision, po_scope = scope,
          po_change = change\<rparr>)))))"

definition validate_same_transaction_replay_evidence :: "direct_evidence \<Rightarrow> string + unit" where
  "validate_same_transaction_replay_evidence ev =
     (case se_records ev of
        [rec] \<Rightarrow>
          (case se_changes ev of
             [change] \<Rightarrow>
               (case se_observations ev of
                  [ob] \<Rightarrow>
                    let scope = rr_scope (md_revision rec) in
                    if md_tombstone rec
                    then Inl ''direct projection evidence cannot replay a tombstone''
                    else if ch_kind change \<noteq> RecordUpsert \<or> ch_observation_kind change \<noteq> None \<or>
                            ch_failure_id change \<noteq> None
                    then Inl ''direct projection evidence change must be a plain record upsert''
                    else if ch_scope change \<noteq> Some scope \<or>
                            ch_revision change \<noteq> Some (md_revision rec)
                    then Inl ''direct projection evidence change does not match the projected record revision''
                    else if cc_topology (ch_cursor change) \<noteq> sc_topology scope \<or>
                            cc_partition (ch_cursor change) \<noteq> sc_partition scope
                    then Inl ''direct projection evidence change cursor does not match its record scope''
                    else if md_change rec \<noteq> ch_cursor change
                    then Inl ''direct projection evidence record and change cursors do not match''
                    else if po_kind ob \<noteq> RecordObservation \<or> po_scope ob \<noteq> scope \<or>
                            po_revision ob \<noteq> Some (md_revision rec)
                    then Inl ''direct projection evidence observation does not match the projected record revision''
                    else if po_change ob \<noteq> ch_cursor change \<or>
                            po_causation_id ob \<noteq> ch_causation_id change
                    then Inl ''direct projection evidence observation does not match its record change''
                    else Inr ()
                | _ \<Rightarrow> Inl ''direct projection evidence must contain exactly one record observation'')
           | _ \<Rightarrow> Inl ''direct projection evidence must contain exactly one record change'')
      | _ \<Rightarrow> Inl ''direct projection evidence must contain exactly one projected record'')"

definition into_evidence ::
  "(byte list \<Rightarrow> byte list) \<Rightarrow> replay_envelope \<Rightarrow> string + direct_evidence" where
  "into_evidence sha e =
     (if re_version e \<noteq> 1
      then Inl (''direct projection evidence version '' @ show_nat (re_version e) @ '' is unsupported'')
      else rbind (try_map (into_record sha) (re_records e)) (\<lambda>records.
           rbind (try_map (into_change sha) (re_changes e)) (\<lambda>changes.
           rbind (try_map (into_observation sha) (re_observations e)) (\<lambda>observations.
           let ev = \<lparr>se_records = records, se_changes = changes, se_observations = observations\<rparr> in
           rbind (validate_same_transaction_replay_evidence ev) (\<lambda>_. Inr ev)))))"

text \<open>The derived codec of the envelope: \<^verbatim>\<open>serde_json::to_value\<close> and \<^verbatim>\<open>serde_json::from_value\<close>.\<close>

record replay_codec =
  rx_to_value :: "replay_envelope \<Rightarrow> json"
  rx_from_value :: "json \<Rightarrow> string + replay_envelope"

definition replay_value :: "replay_codec \<Rightarrow> direct_evidence \<Rightarrow> json" where
  "replay_value rx ev = rx_to_value rx (replay_envelope_from ev)"

definition from_replay_value ::
  "replay_codec \<Rightarrow> (byte list \<Rightarrow> byte list) \<Rightarrow> json \<Rightarrow> string + direct_evidence" where
  "from_replay_value rx sha v =
     rbind (map_err (\<lambda>e. ''direct projection evidence is invalid: '' @ e) (rx_from_value rx v))
       (\<lambda>decoded.
     rbind (into_evidence sha decoded) (\<lambda>ev.
     if rx_to_value rx (replay_envelope_from ev) \<noteq> v
     then Inl ''direct projection evidence contains unknown or non-canonical fields''
     else Inr ev))"

definition validate_replay_value ::
  "replay_codec \<Rightarrow> (byte list \<Rightarrow> byte list) \<Rightarrow> json \<Rightarrow> string + unit" where
  "validate_replay_value rx sha v = rbind (from_replay_value rx sha v) (\<lambda>_. Inr ())"

section \<open>Round trip\<close>

lemma byte_nibbles: "or (push_bit 4 (of_nat (unat b div 16))) (of_nat (unat b mod 16)) = (b :: byte)"
proof -
  have "of_nat (unat b div 16) = drop_bit 4 b"
    by (simp add: drop_bit_eq_div word_arith_nat_div)
  moreover have "of_nat (unat b mod 16) = take_bit 4 b"
    by (simp add: take_bit_eq_mod word_arith_nat_mod)
  moreover have "or (push_bit 4 (drop_bit 4 b)) (take_bit 4 b) = b"
    by (rule bit_word_eqI) (auto simp: bit_simps)
  ultimately show ?thesis by simp
qed

lemma decode_hex_digit: "n < 16 \<Longrightarrow> decode_replay_hex_nibble (hex_digit n) = Some (of_nat n)"
  by (auto simp: decode_replay_hex_nibble_def hex_digit_def Let_def)

lemma byte_div_16: "unat (b :: byte) div 16 < 16"
proof -
  have "unat b < 256" using unsigned_less [of b, where ?'a = nat] by simp
  then show ?thesis by simp
qed

lemma bytes_hex_digest_hex: "bytes_hex bs = digest_hex bs"
proof -
  have "CHR ''0'' = char_of (48 :: nat)" by code_simp
  then have "(let s = show_hex (unat b) in if length s < 2 then CHR ''0'' # s else s)
          = [hex_digit (unat b div 16), hex_digit (unat b mod 16)]" for b :: byte
    using byte_div_16 [of b]
    by (cases "unat b < 16")
      (simp_all add: show_hex.simps [of "unat b"] show_hex.simps [of "unat b div 16"] Let_def
        hex_digit_def)
  then show ?thesis by (simp add: bytes_hex_def digest_hex_def)
qed

lemma length_digest_hex [simp]: "length (digest_hex bs) = 2 * length bs"
  by (induction bs) (simp_all add: digest_hex_def)

lemma decode_replay_pairs_hex: "decode_replay_pairs field (digest_hex bs) = Inr bs"
proof (induction bs)
  case (Cons b bs)
  have "digest_hex (b # bs) = hex_digit (unat b div 16) # hex_digit (unat b mod 16) # digest_hex bs"
    by (simp add: digest_hex_def)
  with Cons show ?case
    by (simp add: Let_def decode_hex_digit byte_div_16 byte_nibbles del: of_nat_mod of_nat_div)
qed (simp add: digest_hex_def)

lemma decode_replay_hex_digest:
  "length bs \<le> m \<Longrightarrow> m * 2 \<le> u64_max \<Longrightarrow> decode_replay_hex field (digest_hex bs) m = Inr bs"
  by (simp add: decode_replay_hex_def decode_replay_pairs_hex)

text \<open>What the validating constructors and private fields guarantee of the values in evidence.\<close>

definition partition_wf :: "(byte list \<Rightarrow> byte list) \<Rightarrow> partition \<Rightarrow> bool" where
  "partition_wf sha p \<longleftrightarrow> partition_new sha (pp_bytes p) = Inr p"

definition scope_wf :: "(byte list \<Rightarrow> byte list) \<Rightarrow> record_scope \<Rightarrow> bool" where
  "scope_wf sha s \<longleftrightarrow> topology_wf (sc_topology s) \<and> partition_wf sha (sc_partition s) \<and>
     record_scope_new sha (sc_topology s) (sc_partition s) (sc_model s) (sc_key s) = Inr s"

definition revision_wf :: "(byte list \<Rightarrow> byte list) \<Rightarrow> record_revision \<Rightarrow> bool" where
  "revision_wf sha r \<longleftrightarrow> scope_wf sha (rr_scope r) \<and>
     record_revision_new (rr_scope r) (rr_incarnation r) (rr_revision r) = Inr r"

definition cursor_wf :: "(byte list \<Rightarrow> byte list) \<Rightarrow> change_cursor \<Rightarrow> bool" where
  "cursor_wf sha c \<longleftrightarrow> topology_wf (cc_topology c) \<and> partition_wf sha (cc_partition c) \<and>
     epoch_new (cc_epoch c) = Inr (cc_epoch c) \<and>
     change_cursor_new (cc_topology c) (cc_partition c) (cc_epoch c) (cc_position c) = Inr c"

definition change_wf :: "(byte list \<Rightarrow> byte list) \<Rightarrow> projection_change \<Rightarrow> bool" where
  "change_wf sha ch \<longleftrightarrow> cursor_wf sha (ch_cursor ch) \<and>
     bounded_opaque ''projection causation ID'' (ch_causation_id ch) MAX_CAUSATION_ID_BYTES
       = Inr (ch_causation_id ch) \<and>
     pred_option (scope_wf sha) (ch_scope ch) \<and> pred_option (revision_wf sha) (ch_revision ch) \<and>
     pred_option (\<lambda>f. bounded_opaque ''projection failure ID'' f MAX_FAILURE_ID_BYTES = Inr f)
       (ch_failure_id ch)"

definition observation_wf :: "(byte list \<Rightarrow> byte list) \<Rightarrow> projection_observation \<Rightarrow> bool" where
  "observation_wf sha ob \<longleftrightarrow>
     bounded_opaque ''projection causation ID'' (po_causation_id ob) MAX_CAUSATION_ID_BYTES
       = Inr (po_causation_id ob) \<and>
     pred_option (revision_wf sha) (po_revision ob) \<and> scope_wf sha (po_scope ob) \<and>
     cursor_wf sha (po_change ob)"

definition evidence_wf :: "(byte list \<Rightarrow> byte list) \<Rightarrow> direct_evidence \<Rightarrow> bool" where
  "evidence_wf sha ev \<longleftrightarrow>
     list_all (\<lambda>md. revision_wf sha (md_revision md) \<and> cursor_wf sha (md_change md)) (se_records ev) \<and>
     list_all (change_wf sha) (se_changes ev) \<and> list_all (observation_wf sha) (se_observations ev) \<and>
     validate_same_transaction_replay_evidence ev = Inr ()"

lemma decode_replay_topology_hex:
  "topology_wf t \<Longrightarrow>
     decode_replay_topology (pt_version t) (pt_name t) (digest_hex (pt_digest t)) = Inr t"
  by (simp add: decode_replay_topology_def decode_replay_digest_def topology_wf_def
      decode_replay_hex_digest u64_max_def topology_new_ok map_err_Inr_iff)

lemma decode_replay_partition_hex:
  assumes "partition_wf sha p"
  shows "decode_replay_partition sha (bytes_hex (pp_bytes p)) (digest_hex (pp_digest p)) = Inr p"
proof -
  from assms have "length (pp_bytes p) \<le> MAX_PROJECTION_PARTITION_BYTES"
    by (simp add: partition_wf_def partition_new_ok)
  then have "decode_replay_hex ''partition'' (digest_hex (pp_bytes p)) MAX_PROJECTION_PARTITION_BYTES
      = Inr (pp_bytes p)"
    by (rule decode_replay_hex_digest) (simp add: MAX_PROJECTION_PARTITION_BYTES_def u64_max_def)
  with assms show ?thesis
    by (simp add: decode_replay_partition_def partition_wf_def bytes_hex_digest_hex)
qed

lemma into_scope_from:
  assumes "scope_wf sha s"
  shows "into_scope sha (replay_scope_from s) = Inr s"
proof -
  from assms have "length (sc_key s) \<le> MAX_PROJECTION_RECORD_KEY_BYTES"
    by (simp add: scope_wf_def record_scope_new_ok)
  then have "decode_replay_hex ''record key'' (digest_hex (sc_key s)) MAX_PROJECTION_RECORD_KEY_BYTES
      = Inr (sc_key s)"
    by (rule decode_replay_hex_digest) (simp add: MAX_PROJECTION_RECORD_KEY_BYTES_def u64_max_def)
  with assms show ?thesis
    by (simp add: into_scope_def replay_scope_from_def scope_wf_def decode_replay_topology_hex
        decode_replay_partition_hex bytes_hex_digest_hex [of "sc_key s"])
qed

lemma into_revision_from: "revision_wf sha r \<Longrightarrow> into_revision sha (replay_revision_from r) = Inr r"
  by (simp add: into_revision_def replay_revision_from_def revision_wf_def into_scope_from)

lemma into_cursor_from: "cursor_wf sha c \<Longrightarrow> into_cursor sha (replay_cursor_from c) = Inr c"
  by (simp add: into_cursor_def replay_cursor_from_def cursor_wf_def decode_replay_topology_hex
      decode_replay_partition_hex)

lemma try_option_round_trip:
  "pred_option (\<lambda>x. f (g x) = Inr x) x \<Longrightarrow> try_option f (map_option g x) = Inr x"
  by (cases x) (simp_all add: try_option_def)

lemma into_change_from:
  assumes "change_wf sha ch"
  shows "into_change sha (replay_change_from ch) = Inr ch"
proof -
  have "try_option decode_replay_observation_kind
      (map_option observation_kind_as_storage_str (ch_observation_kind ch)) = Inr (ch_observation_kind ch)"
    by (rule try_option_round_trip) (simp add: decode_replay_observation_kind_def
        observation_kind_round_trip option.pred_True)
  moreover have "try_option (into_scope sha) (map_option replay_scope_from (ch_scope ch)) = Inr (ch_scope ch)"
    using assms by (auto intro!: try_option_round_trip elim!: option.pred_mono_strong
        simp: change_wf_def into_scope_from)
  moreover have "try_option (into_revision sha) (map_option replay_revision_from (ch_revision ch))
      = Inr (ch_revision ch)"
    using assms by (auto intro!: try_option_round_trip elim!: option.pred_mono_strong
        simp: change_wf_def into_revision_from)
  moreover have "try_option (\<lambda>f.
        map_err (\<lambda>e. replay_validation_error ''change failure ID'' (display_projection_error e))
          (bounded_opaque ''projection failure ID'' f MAX_FAILURE_ID_BYTES)) (ch_failure_id ch)
      = Inr (ch_failure_id ch)"
    using assms by (cases "ch_failure_id ch") (simp_all add: change_wf_def try_option_def)
  ultimately show ?thesis
    using assms by (simp add: into_change_def replay_change_from_def change_wf_def into_cursor_from
        decode_replay_change_kind_def change_kind_round_trip)
qed

lemma into_observation_from:
  assumes "observation_wf sha ob"
  shows "into_observation sha (replay_observation_from ob) = Inr ob"
proof -
  have "try_option (into_revision sha) (map_option replay_revision_from (po_revision ob))
      = Inr (po_revision ob)"
    using assms by (auto intro!: try_option_round_trip elim!: option.pred_mono_strong
        simp: observation_wf_def into_revision_from)
  with assms show ?thesis
    by (simp add: into_observation_def replay_observation_from_def observation_wf_def
        into_cursor_from into_scope_from decode_replay_observation_kind_def
        observation_kind_round_trip)
qed

lemma into_record_from:
  "revision_wf sha (md_revision md) \<Longrightarrow> cursor_wf sha (md_change md) \<Longrightarrow>
     into_record sha (replay_record_from md) = Inr md"
  by (simp add: into_record_def replay_record_from_def into_revision_from into_cursor_from)

lemma try_map_round_trip:
  "list_all (\<lambda>x. f (g x) = Inr x) xs \<Longrightarrow> try_map f (map g xs) = Inr xs"
  by (induction xs) simp_all

lemma into_evidence_from:
  assumes "evidence_wf sha ev"
  shows "into_evidence sha (replay_envelope_from ev) = Inr ev"
proof -
  have "try_map (into_record sha) (map replay_record_from (se_records ev)) = Inr (se_records ev)"
    using assms by (auto intro!: try_map_round_trip elim!: list.pred_mono_strong
        simp: evidence_wf_def into_record_from)
  moreover have "try_map (into_change sha) (map replay_change_from (se_changes ev)) = Inr (se_changes ev)"
    using assms by (auto intro!: try_map_round_trip elim!: list.pred_mono_strong
        simp: evidence_wf_def into_change_from)
  moreover have "try_map (into_observation sha) (map replay_observation_from (se_observations ev))
      = Inr (se_observations ev)"
    using assms by (auto intro!: try_map_round_trip elim!: list.pred_mono_strong
        simp: evidence_wf_def into_observation_from)
  ultimately show ?thesis
    using assms by (cases ev) (simp add: into_evidence_def replay_envelope_from_def evidence_wf_def Let_def)
qed

lemma from_replay_value_round_trip:
  assumes "evidence_wf sha ev"
    and "rx_from_value rx (rx_to_value rx (replay_envelope_from ev)) = Inr (replay_envelope_from ev)"
  shows "from_replay_value rx sha (replay_value rx ev) = Inr ev"
  using assms by (simp add: from_replay_value_def replay_value_def into_evidence_from)

lemma from_replay_value_canonical:
  assumes "from_replay_value rx sha v = Inr ev"
  shows "v = replay_value rx ev \<and> validate_same_transaction_replay_evidence ev = Inr ()"
  using assms by (auto simp: from_replay_value_def replay_value_def into_evidence_def res_simps
      Let_def split: if_splits)

section \<open>Evidence of a same-transaction projection\<close>

lemma append_change_fields:
  assumes "append_change key pc st = Inr (st', ch)" "map_of (pr_partitions st) key = Some pn"
  shows "ch_causation_id ch = pc_causation_id pc \<and> ch_observation_kind ch = pc_observation_kind pc \<and>
     ch_failure_id ch = pc_failure_id pc \<and> cc_epoch (ch_cursor ch) = pn_change_epoch pn \<and>
     0 < cc_position (ch_cursor ch) \<and> cc_position (ch_cursor ch) \<le> MAX_PROJECTION_POSITION"
  using assms by (auto simp: append_change_def Let_def res_simps)

text \<open>The scope of every mutation and the change epoch were built by their constructors.\<close>

definition direct_batch_wf :: "(byte list \<Rightarrow> byte list) \<Rightarrow> direct_batch \<Rightarrow> bool" where
  "direct_batch_wf sha b \<longleftrightarrow>
     list_all (\<lambda>m. scope_wf sha (dm_scope m)) (db_mutations b) \<and>
     epoch_new (db_change_epoch b) = Inr (db_change_epoch b)"

lemma direct_evidence_wf:
  assumes stage: "stage_same_transaction_projection fmt b n st rows = Inr (st', rows', ev)"
    and inv: "protocol_inv st" and wf: "direct_batch_wf sha b"
  shows "evidence_wf sha ev"
  using stage
proof (rule stage_same_transaction_projection_steps, goal_cases)
  case (1 st0 st1 m ms r st2 ch k)
  let ?key = "partition_key_new (db_topology b) (db_partition b)"
  from ensure_partition_ok [OF 1(2) inv] obtain pn where inv0: "protocol_inv st0"
    and pn: "map_of (pr_partitions st0) ?key = Some pn" "pn_change_epoch pn = db_change_epoch b" by blast
  note own = register_same_transaction_ownership_keeps [OF 1(4) inv0]
  have inv1: "protocol_inv st1" using own(1) by (simp add: advances_def)
  have pn1: "map_of (pr_partitions st1) ?key = Some pn"
    using 1(4) pn(1) by (cases "db_ownership b"; cases "db_mutations b")
      (auto simp: register_same_transaction_ownership_def res_simps split: if_splits
        dest!: bind_ownership_ok)
  note app = append_change_keeps(6-8) [OF 1(7) inv1] append_change_ok(4,5) [OF 1(7) inv1]
    append_change_fields [OF 1(7) pn1]
  from 1(1) have sc: "sc_topology (dm_scope m) = db_topology b" "sc_partition (dm_scope m) = db_partition b"
    and cause: "bounded_opaque ''projection causation ID'' (db_causation_id b) MAX_CAUSATION_ID_BYTES
           = Inr (db_causation_id b)"
    by (rule validate_direct_batch_ok, simp add: 1(5))+
  have scope: "scope_wf sha (dm_scope m)" and ep: "epoch_new (db_change_epoch b) = Inr (db_change_epoch b)"
    using wf 1(5) by (simp_all add: direct_batch_wf_def)
  have rev: "revision_wf sha r"
    using direct_revision_ok(1,2) [OF 1(6)] scope by (simp add: revision_wf_def record_revision_new_ok)
  have cur: "cursor_wf sha (ch_cursor ch)"
    using app scope ep sc pn(2)
    by (simp add: cursor_wf_def change_cursor_new_ok scope_wf_def partition_key_new_def)
  show ?case
    using app scope rev cur cause sc direct_revision_ok(1) [OF 1(6)]
    by (simp add: evidence_wf_def 1(13) change_wf_def observation_wf_def record_change_def
        validate_same_transaction_replay_evidence_def partition_key_new_def Let_def)
qed

text \<open>
  C39: A same-transaction projection can always be replayed exactly. The evidence the store
  allocates inside a command's transaction passes the validation of the replay form, and decoding
  the stored value gives back that evidence, so a later replay reports the revision and change of
  the original transaction. The JSON codec of the wire envelope is assumed to be lossless.
\<close>

theorem direct_evidence_replays:
  assumes "stage_same_transaction_projection fmt b n st rows = Inr (st', rows', ev)"
    and "protocol_inv st" and "direct_batch_wf sha b"
    and "rx_from_value rx (rx_to_value rx (replay_envelope_from ev)) = Inr (replay_envelope_from ev)"
  shows "from_replay_value rx sha (replay_value rx ev) = Inr ev \<and>
    validate_replay_value rx sha (replay_value rx ev) = Inr ()"
proof -
  have "from_replay_value rx sha (replay_value rx ev) = Inr ev"
    by (rule from_replay_value_round_trip [OF direct_evidence_wf [OF assms(1-3)] assms(4)])
  then show ?thesis by (simp add: validate_replay_value_def)
qed

definition direct_sha :: "byte list \<Rightarrow> byte list" where
  "direct_sha bs = replicate 32 (of_nat (length bs))"

definition direct_topology :: topology_id where
  "direct_topology = \<lparr>pt_version = 1, pt_name = ''todos'', pt_digest = replicate 32 0\<rparr>"

definition direct_partition :: partition where
  "direct_partition = projr (partition_new direct_sha [1])"

definition direct_scope :: record_scope where
  "direct_scope = projr (record_scope_new direct_sha direct_topology direct_partition ''Todo'' [7])"

definition direct_demo :: direct_batch where
  "direct_demo =
     \<lparr>db_topology = direct_topology, db_partition = direct_partition, db_change_epoch = ''log'',
      db_ownership = [\<lparr>ow_model = ''Todo'', ow_table = ''todos''\<rparr>], db_causation_id = ''cmd-1'',
      db_mutations = [\<lparr>dm_scope = direct_scope, dm_mutation = sample_upsert Any\<rparr>],
      db_observations = [\<lparr>oq_kind = RecordObservation, oq_target = StagedRecord direct_scope\<rparr>]\<rparr>"

definition direct_state :: protocol_state where
  "direct_state =
     (let k = \<lparr>rg_topology = direct_topology, rg_model = ''Todo''\<rparr>
      in protocol_empty\<lparr>pr_registered_topologies := {direct_topology},
           pr_registered_models := [(k, ''todos'')], pr_table_owners := [(''todos'', k)]\<rparr>)"

definition direct_result :: "protocol_state \<times> row_store \<times> direct_evidence" where
  "direct_result = projr (stage_same_transaction_projection sample_fmt direct_demo 4 direct_state [])"

definition constant_codec :: "replay_envelope \<Rightarrow> replay_codec" where
  "constant_codec e = \<lparr>rx_to_value = (\<lambda>_. JNull), rx_from_value = (\<lambda>_. Inr e)\<rparr>"

lemma direct_demo_stages:
  "stage_same_transaction_projection sample_fmt direct_demo 4 direct_state [] =
     Inr (fst direct_result, fst (snd direct_result), snd (snd direct_result))"
proof -
  have "\<not> isl (stage_same_transaction_projection sample_fmt direct_demo 4 direct_state [])"
    by code_simp
  then show ?thesis
    by (simp add: direct_result_def)
qed

lemma direct_demo_wf: "direct_batch_wf direct_sha direct_demo"
  by code_simp

theorem direct_evidence_replays_witness:
  "let ev = snd (snd direct_result); rx = constant_codec (replay_envelope_from ev)
   in from_replay_value rx direct_sha (replay_value rx ev) = Inr ev"
proof -
  have "protocol_inv direct_state"
    by (simp add: direct_state_def Let_def protocol_inv_def protocol_empty_def live_ids_def)
  from direct_evidence_replays [OF direct_demo_stages this direct_demo_wf,
      of "constant_codec (replay_envelope_from (snd (snd direct_result)))"]
  show ?thesis by (simp add: constant_codec_def Let_def)
qed

end
