(* ===== verification/Command_Ledger.thy ===== *)
theory Command_Ledger
  imports Projection_Replay Commit_Batch
begin

text \<open>
  The command ledger (\<^verbatim>\<open>src/src/command_ledger/\<close>): identities, reservations, attempts and their
  fences, completions with their replay envelope, and the durable row with its state machine, as
  shared by every storage adapter. The crates \<^verbatim>\<open>serde_json\<close>, \<^verbatim>\<open>base64\<close>, \<^verbatim>\<open>uuid\<close> and \<^verbatim>\<open>sha2\<close> and the
  derived codecs of the stored structures are the fields of the argument \<open>lc\<close>. Fresh identifiers
  and the clock are arguments. Methods that take \<^verbatim>\<open>&mut self\<close> return the new row.
\<close>

section \<open>States\<close>

datatype ledger_state =
    InProgress
  | RetryableUnknown
  | Succeeded
  | SucceededPendingProjection
  | Atomic
  | Rejected
  | ProjectionFailed
  | LedgerExpired

fun state_as_str :: "ledger_state \<Rightarrow> string" where
  "state_as_str InProgress = ''in_progress''"
| "state_as_str RetryableUnknown = ''retryable_unknown''"
| "state_as_str Succeeded = ''succeeded''"
| "state_as_str SucceededPendingProjection = ''succeeded_pending_projection''"
| "state_as_str Atomic = ''atomic''"
| "state_as_str Rejected = ''rejected''"
| "state_as_str ProjectionFailed = ''projection_failed''"
| "state_as_str LedgerExpired = ''expired''"

datatype ledger_error =
    LInvalid string
  | LCorrupt string
  | AttemptFenced string
  | LStorage repository_error

fun display_ledger_error :: "ledger_error \<Rightarrow> string" where
  "display_ledger_error (LInvalid m) = ''invalid command ledger value: '' @ m"
| "display_ledger_error (LCorrupt m) = ''corrupt command ledger row: '' @ m"
| "display_ledger_error (AttemptFenced c) = ''command attempt for `'' @ c @ ''` was fenced''"
| "display_ledger_error (LStorage e) = ''command ledger storage failed: '' @ display_repository_error e"

definition state_parse :: "string \<Rightarrow> ledger_error + ledger_state" where
  "state_parse v =
     (if v = ''in_progress'' then Inr InProgress
      else if v = ''retryable_unknown'' then Inr RetryableUnknown
      else if v = ''succeeded'' then Inr Succeeded
      else if v = ''succeeded_pending_projection'' then Inr SucceededPendingProjection
      else if v = ''atomic'' then Inr Atomic
      else if v = ''rejected'' then Inr Rejected
      else if v = ''projection_failed'' then Inr ProjectionFailed
      else if v = ''expired'' then Inr LedgerExpired
      else Inl (LCorrupt (''stored command ledger state `'' @ v @ ''` is invalid'')))"

definition is_replayable :: "ledger_state \<Rightarrow> bool" where
  "is_replayable s \<longleftrightarrow>
     s \<in> {Succeeded, SucceededPendingProjection, Atomic, Rejected, ProjectionFailed}"

datatype terminal_state =
    TerminalSucceeded
  | TerminalSucceededPendingProjection
  | TerminalAtomic
  | TerminalRejected

fun ledger_state_from :: "terminal_state \<Rightarrow> ledger_state" where
  "ledger_state_from TerminalSucceeded = Succeeded"
| "ledger_state_from TerminalSucceededPendingProjection = SucceededPendingProjection"
| "ledger_state_from TerminalAtomic = Atomic"
| "ledger_state_from TerminalRejected = Rejected"

section \<open>Projection obligations\<close>

record obligation_field =
  of_field :: string
  of_value :: json

record obligation =
  og_projector :: string
  og_model :: string
  og_key :: "obligation_field list"
  og_partition :: "json option"
  og_scope :: record_scope

fun validate_key_fields ::
    "nat \<Rightarrow> nat \<Rightarrow> string set \<Rightarrow> obligation_field list \<Rightarrow> string + unit" where
  "validate_key_fields oi fi seen [] = Inr ()"
| "validate_key_fields oi fi seen (f # fs) =
     (if blank (of_field f)
      then Inl (''projection obligation '' @ show_nat oi @ '' key field '' @ show_nat fi @
                '' has a blank name'')
      else if of_field f \<in> seen
      then Inl (''projection obligation '' @ show_nat oi @ '' contains duplicate key field `'' @
                of_field f @ ''`'')
      else validate_key_fields oi (Suc fi) (insert (of_field f) seen) fs)"

fun validate_obligation :: "nat \<times> obligation \<Rightarrow> string + unit" where
  "validate_obligation (i, ob) =
     (if blank (og_projector ob)
      then Inl (''projection obligation '' @ show_nat i @ '' has a blank projector'')
      else if blank (og_model ob)
      then Inl (''projection obligation '' @ show_nat i @ '' has a blank model'')
      else if pt_name (sc_topology (og_scope ob)) \<noteq> og_projector ob \<or>
              sc_model (og_scope ob) \<noteq> og_model ob
      then Inl (''projection obligation '' @ show_nat i @
                '' logical projector/model does not match its exact canonical scope'')
      else if og_key ob = []
      then Inl (''projection obligation '' @ show_nat i @ '' has no key fields'')
      else validate_key_fields i 0 {} (og_key ob))"

definition validate_projection_obligation_semantics ::
  "ledger_state \<Rightarrow> obligation list \<Rightarrow> string + unit" where
  "validate_projection_obligation_semantics s obs =
     rbind (if s \<in> {Succeeded, Atomic, Rejected}
            then ensure (obs = [])
              (''state `'' @ state_as_str s @ ''` must not contain projection obligations'')
            else if s \<in> {SucceededPendingProjection, ProjectionFailed}
            then ensure (obs \<noteq> [])
              (''state `'' @ state_as_str s @ ''` must contain at least one projection obligation'')
            else Inl (''state `'' @ state_as_str s @ ''` cannot contain a replay payload'')) (\<lambda>_.
     try_each validate_obligation (List.enumerate 0 obs))"

section \<open>Identities\<close>

text \<open>What the code reads of a parsed \<^verbatim>\<open>uuid::Uuid\<close>.\<close>

record uuid_view =
  uu_version_num :: nat
  uu_rfc4122 :: bool
  uu_hyphenated :: string

text \<open>The versioned row a cell host stores, and the third-party and derived codecs.\<close>

record cell_record =
  cw_version :: nat
  cw_service_id :: string
  cw_principal_partition :: string
  cw_command_id :: string
  cw_command_name :: string
  cw_contract_fingerprint :: "byte list"
  cw_input_hash :: "byte list"
  cw_state :: string
  cw_causation_id :: string
  cw_attempt_token :: "string option"
  cw_attempt_number :: nat
  cw_lease_expires_at_ms :: "nat option"
  cw_outcome_json :: "string option"
  cw_created_at_ms :: nat
  cw_updated_at_ms :: nat
  cw_completed_at_ms :: "nat option"
  cw_retention_expires_at_ms :: nat
  cw_compacted_at_ms :: "nat option"

record ledger_codec =
  lc_to_string :: "json \<Rightarrow> string + string"
  lc_from_str :: "string \<Rightarrow> string + json"
  lc_obligations_to_value :: "obligation list \<Rightarrow> string + json"
  lc_obligations_from_value :: "json \<Rightarrow> string + obligation list"
  lc_b64_encode :: "byte list \<Rightarrow> string"
  lc_b64_decode :: "string \<Rightarrow> byte list option"
  lc_uuid_parse :: "string \<Rightarrow> uuid_view option"
  lc_cell_to_string :: "cell_record \<Rightarrow> string + string"
  lc_cell_from_str :: "string \<Rightarrow> string + cell_record"
  lc_replay :: replay_codec
  lc_sha :: "byte list \<Rightarrow> byte list"

definition SHA256_BYTES :: nat where "SHA256_BYTES = 32"
definition COMMAND_REPLAY_VERSION :: nat where "COMMAND_REPLAY_VERSION = 2"

definition command_id_parse :: "ledger_codec \<Rightarrow> string \<Rightarrow> ledger_error + string" where
  "command_id_parse lc v =
     rbind (ok_or (LInvalid (''command ID `'' @ v @ ''` must be a valid UUIDv7''))
              (lc_uuid_parse lc v)) (\<lambda>u.
     if uu_version_num u \<noteq> 7 \<or> \<not> uu_rfc4122 u
     then Inl (LInvalid (''command ID `'' @ v @ ''` must be an RFC 4122 UUIDv7''))
     else Inr (uu_hyphenated u))"

definition principal_partition_new :: "string \<Rightarrow> ledger_error + string" where
  "principal_partition_new v =
     (if blank v then Inl (LInvalid ''principal partition must not be empty'') else Inr v)"

record ledger_key =
  lk_service_id :: string
  lk_principal_partition :: string
  lk_command_id :: string

definition ledger_key_new :: "string \<Rightarrow> string \<Rightarrow> string \<Rightarrow> ledger_error + ledger_key" where
  "ledger_key_new service_id prin command_id =
     (if blank service_id then Inl (LInvalid ''command ledger service ID must not be empty'')
      else Inr \<lparr>lk_service_id = service_id, lk_principal_partition = prin,
                lk_command_id = command_id\<rparr>)"

definition fixed_hash_try_from_slice :: "string \<Rightarrow> byte list \<Rightarrow> ledger_error + byte list" where
  "fixed_hash_try_from_slice description bs =
     (if length bs = SHA256_BYTES then Inr bs
      else Inl (LInvalid (description @ '' must contain exactly '' @ show_nat SHA256_BYTES @
                          '' bytes'')))"

definition parse_stored_uuid_v7 :: "ledger_codec \<Rightarrow> string \<Rightarrow> string \<Rightarrow> ledger_error + string" where
  "parse_stored_uuid_v7 lc label v =
     rbind (ok_or (LCorrupt (''stored '' @ label @ '' is not a UUID'')) (lc_uuid_parse lc v)) (\<lambda>u.
     if uu_version_num u \<noteq> 7 \<or> \<not> uu_rfc4122 u
     then Inl (LCorrupt (''stored '' @ label @ '' is not an RFC 4122 UUIDv7''))
     else Inr (uu_hyphenated u))"

section \<open>Reservations and attempts\<close>

text \<open>\<^verbatim>\<open>Duration::as_secs_f64\<close> is finite for every duration, so only zero is refused.\<close>

definition validate_positive_duration :: "string \<Rightarrow> duration \<Rightarrow> ledger_error + unit" where
  "validate_positive_duration label d =
     (if d = 0 then Inl (LInvalid (label @ '' must be a finite positive duration'')) else Inr ())"

record reservation =
  rz_key :: ledger_key
  rz_command_name :: string
  rz_contract_fingerprint :: "byte list"
  rz_input_hash :: "byte list"
  rz_lease :: duration
  rz_retention :: duration
  rz_candidate_causation :: string
  rz_candidate_attempt :: string

definition reservation_new ::
  "ledger_key \<Rightarrow> string \<Rightarrow> byte list \<Rightarrow> byte list \<Rightarrow> duration \<Rightarrow> duration \<Rightarrow> string \<Rightarrow> string
     \<Rightarrow> ledger_error + reservation" where
  "reservation_new key command_name fingerprint input_hash lease retention cause attempt =
     (if blank command_name then Inl (LInvalid ''command name must not be empty'')
      else rbind (validate_positive_duration ''command attempt lease'' lease) (\<lambda>_.
           rbind (validate_positive_duration ''command replay retention'' retention) (\<lambda>_.
           if retention \<le> lease
           then Inl (LInvalid ''command replay retention must be longer than the attempt lease'')
           else Inr \<lparr>rz_key = key, rz_command_name = command_name,
                     rz_contract_fingerprint = fingerprint, rz_input_hash = input_hash,
                     rz_lease = lease, rz_retention = retention, rz_candidate_causation = cause,
                     rz_candidate_attempt = attempt\<rparr>)))"

record attempt =
  at_key :: ledger_key
  at_contract_fingerprint :: "byte list"
  at_input_hash :: "byte list"
  at_causation_id :: string
  at_attempt_token :: string
  at_attempt_number :: nat

record attempt_fence =
  af_key :: ledger_key
  af_contract_fingerprint :: "byte list"
  af_input_hash :: "byte list"
  af_causation_id :: string
  af_attempt_token :: string
  af_attempt_number :: nat

definition acquired_candidate_attempt :: "reservation \<Rightarrow> attempt" where
  "acquired_candidate_attempt r =
     \<lparr>at_key = rz_key r, at_contract_fingerprint = rz_contract_fingerprint r,
      at_input_hash = rz_input_hash r, at_causation_id = rz_candidate_causation r,
      at_attempt_token = rz_candidate_attempt r, at_attempt_number = 1\<rparr>"

definition attempt_fence_of :: "attempt \<Rightarrow> attempt_fence" where
  "attempt_fence_of a =
     \<lparr>af_key = at_key a, af_contract_fingerprint = at_contract_fingerprint a,
      af_input_hash = at_input_hash a, af_causation_id = at_causation_id a,
      af_attempt_token = at_attempt_token a, af_attempt_number = at_attempt_number a\<rparr>"

datatype lookup_scope =
    CommandName string
  | CommandContract string "byte list"
  | AttemptScope attempt_fence

record command_replay =
  cr_command_id :: string
  cr_command_name :: string
  cr_state :: ledger_state
  cr_causation_id :: string
  cr_replay_outcome :: json
  cr_projection_obligations :: "obligation list"
  cr_projection_metadata :: "byte list option"
  cr_direct_projection :: "json option"

datatype reservation_outcome =
    Acquired attempt
  | OutcomeInProgress string
  | OutcomeReplay command_replay
  | OutcomeConflict
  | OutcomeExpired

datatype command_lookup =
    LookupInProgress string
  | LookupRetryableUnknown string
  | LookupReplay command_replay
  | LookupExpired
  | LookupUnknown

section \<open>Completions\<close>

definition validate_projection_metadata_bytes ::
  "ledger_state \<Rightarrow> byte list option \<Rightarrow> ledger_error + unit" where
  "validate_projection_metadata_bytes s metadata =
     (case metadata of
        None \<Rightarrow> Inr ()
      | Some bs \<Rightarrow>
          if bs = [] \<or> MAX_DOMAIN_EVENT_BODY_BYTES < length bs
          then Inl (LInvalid (''command projection metadata must contain 1..='' @
                              show_nat MAX_DOMAIN_EVENT_BODY_BYTES @ '' bytes''))
          else if s \<notin> {Succeeded, SucceededPendingProjection, ProjectionFailed}
          then Inl (LInvalid (''state `'' @ state_as_str s @
                              ''` cannot contain modeled projection metadata''))
          else Inr ())"

record completion =
  cm_attempt :: attempt
  cm_state :: terminal_state
  cm_replay :: string
  cm_direct_projection :: "json option"
  cm_retention :: duration
  cm_retention_expires_at :: "system_time option"

definition replay_fields ::
  "ledger_codec \<Rightarrow> json \<Rightarrow> json \<Rightarrow> byte list option \<Rightarrow> (string \<times> json) list" where
  "replay_fields lc out obs_value metadata =
     (let replay = bt_insert ''projection_obligations'' obs_value
                     (bt_insert ''outcome'' out
                       (bt_insert ''version'' (JNumber (PosInt COMMAND_REPLAY_VERSION)) []))
      in case metadata of
           None \<Rightarrow> replay
         | Some bs \<Rightarrow>
             bt_insert ''projection_metadata'' (JString (lc_b64_encode lc bs)) replay)"

definition complete_with_replay_metadata ::
  "ledger_codec \<Rightarrow> attempt \<Rightarrow> terminal_state \<Rightarrow> json \<Rightarrow> obligation list \<Rightarrow> byte list option \<Rightarrow> duration
     \<Rightarrow> system_time option \<Rightarrow> ledger_error + completion" where
  "complete_with_replay_metadata lc a s out obs metadata retention until =
     rbind (validate_positive_duration ''command replay retention'' retention) (\<lambda>_.
     rbind (if metadata = None
            then map_err LInvalid
                   (validate_projection_obligation_semantics (ledger_state_from s) obs)
            else Inr ()) (\<lambda>_.
     rbind (validate_projection_metadata_bytes (ledger_state_from s) metadata) (\<lambda>_.
     if metadata \<noteq> None \<and> obs \<noteq> []
     then Inl (LInvalid ''command replay cannot mix legacy and modeled projection obligations'')
     else
     rbind (map_err (\<lambda>e. LInvalid
              (''command replay obligations failed to serialize before commit: '' @ e))
              (lc_obligations_to_value lc obs)) (\<lambda>obs_value.
     rbind (map_err (\<lambda>e. LInvalid (''command replay serialization failed before commit: '' @ e))
              (lc_to_string lc (JObject (replay_fields lc out obs_value metadata)))) (\<lambda>text.
     Inr \<lparr>cm_attempt = a, cm_state = s, cm_replay = text, cm_direct_projection = None,
          cm_retention = retention, cm_retention_expires_at = until\<rparr>)))))"

definition attempt_complete ::
  "ledger_codec \<Rightarrow> attempt \<Rightarrow> terminal_state \<Rightarrow> json \<Rightarrow> duration \<Rightarrow> ledger_error + completion" where
  "attempt_complete lc a s out retention =
     complete_with_replay_metadata lc a s out [] None retention None"

definition complete_with_obligations ::
  "ledger_codec \<Rightarrow> attempt \<Rightarrow> terminal_state \<Rightarrow> json \<Rightarrow> obligation list \<Rightarrow> duration
     \<Rightarrow> ledger_error + completion" where
  "complete_with_obligations lc a s out obs retention =
     complete_with_replay_metadata lc a s out obs None retention None"

definition complete_with_projection_metadata_until ::
  "ledger_codec \<Rightarrow> attempt \<Rightarrow> terminal_state \<Rightarrow> json \<Rightarrow> byte list \<Rightarrow> duration \<Rightarrow> system_time
     \<Rightarrow> ledger_error + completion" where
  "complete_with_projection_metadata_until lc a s out metadata retention until =
     complete_with_replay_metadata lc a s out [] (Some metadata) retention (Some until)"

definition attach_direct_projection ::
  "ledger_codec \<Rightarrow> direct_evidence \<Rightarrow> completion \<Rightarrow> ledger_error + completion" where
  "attach_direct_projection lc ev c =
     (if cm_state c \<noteq> TerminalAtomic
      then Inl (LInvalid ''direct projection evidence may only complete a projected command'')
      else if cm_direct_projection c \<noteq> None
      then Inl (LInvalid ''command completion already contains direct projection evidence'')
      else
        let direct = replay_value (lc_replay lc) ev in
        rbind (map_err LInvalid (validate_replay_value (lc_replay lc) (lc_sha lc) direct)) (\<lambda>_.
        rbind (map_err (\<lambda>e. LInvalid
                 (''command replay could not be extended with direct projection evidence: '' @ e))
                 (lc_from_str lc (cm_replay c))) (\<lambda>replay.
        case replay of
          JObject kvs \<Rightarrow>
            if map_of kvs ''direct_projection'' \<noteq> None
            then Inl (LInvalid ''command replay already has a direct projection field'')
            else rbind (map_err (\<lambda>e. LInvalid
                          (''command replay serialization failed after direct projection: '' @ e))
                          (lc_to_string lc (JObject (bt_insert ''direct_projection'' direct kvs))))
                   (\<lambda>text. Inr (c\<lparr>cm_replay := text, cm_direct_projection := Some direct\<rparr>))
        | _ \<Rightarrow> Inl (LInvalid ''command replay envelope is not an object''))))"

definition validate_direct_projection :: "completion \<Rightarrow> ledger_error + unit" where
  "validate_direct_projection c =
     (if cm_state c = TerminalAtomic
      then if cm_direct_projection c \<noteq> None then Inr ()
           else Inl (LInvalid ''projected command completion has no exact direct projection evidence'')
      else if cm_direct_projection c = None then Inr ()
      else Inl (LInvalid ''non-projected command completion contains direct projection evidence''))"

record causal_commit_batch =
  ca_domain :: commit_batch
  ca_completion :: completion
  ca_direct_projection :: "direct_batch option"

text \<open>
  \<^verbatim>\<open>build\<close> overwrites the causation of every new event and outbox message; \<open>None\<close> is the panic of
  an entity whose committed position is past its events.
\<close>

definition build :: "commit_batch \<Rightarrow> completion \<Rightarrow> direct_batch option \<Rightarrow> causal_commit_batch option" where
  "build domain c direct =
     (let cause = at_causation_id (cm_attempt c) in
      map_option (\<lambda>streams.
          \<lparr>ca_domain = domain\<lparr>cb_streams := streams,
               cb_outbox_messages := map (outbox_overwrite_causation_id cause) (cb_outbox_messages domain)\<rparr>,
           ca_completion = c, ca_direct_projection = direct\<rparr>)
        (those (map (\<lambda>w. map_option (\<lambda>e. w\<lparr>sw_entity := e\<rparr>)
                           (overwrite_new_event_causation_id cause (sw_entity w)))
                  (cb_streams domain))))"

definition causal_commit_batch_new :: "commit_batch \<Rightarrow> completion \<Rightarrow> causal_commit_batch option" where
  "causal_commit_batch_new domain c = build domain c None"

definition with_direct_projection ::
  "commit_batch \<Rightarrow> completion \<Rightarrow> direct_batch \<Rightarrow> causal_commit_batch option" where
  "with_direct_projection domain c direct = build domain c (Some direct)"

section \<open>Durable rows\<close>

record ledger_record =
  lr_key :: ledger_key
  lr_command_name :: string
  lr_contract_fingerprint :: "byte list"
  lr_input_hash :: "byte list"
  lr_state :: ledger_state
  lr_causation_id :: string
  lr_attempt_token :: "string option"
  lr_attempt_number :: nat
  lr_lease_expires_at :: "system_time option"
  lr_outcome_json :: "string option"
  lr_created_at :: system_time
  lr_updated_at :: system_time
  lr_completed_at :: "system_time option"
  lr_retention_expires_at :: system_time
  lr_compacted_at :: "system_time option"

definition quoted_command :: "ledger_record \<Rightarrow> string" where
  "quoted_command r = ''`'' @ lk_command_id (lr_key r) @ ''`''"

definition system_time_to_unix_millis :: "system_time \<Rightarrow> ledger_error + nat" where
  "system_time_to_unix_millis t =
     (if t < UNIX_EPOCH
      then Inl (LCorrupt ''cell command ledger timestamp precedes the Unix epoch'')
      else let millis = nat t div 1000000
           in if u64_max < millis
              then Inl (LCorrupt ''cell command ledger timestamp exceeds u64 millis'')
              else Inr millis)"

definition system_time_from_unix_millis :: "nat \<Rightarrow> ledger_error + system_time" where
  "system_time_from_unix_millis v =
     ok_or (LCorrupt ''cell command ledger timestamp is out of range'')
       (time_checked_add UNIX_EPOCH (v * 1000000))"

definition checked_deadline :: "system_time \<Rightarrow> duration \<Rightarrow> string \<Rightarrow> ledger_error + system_time" where
  "checked_deadline now d label =
     ok_or (LInvalid (label @ '' deadline exceeds SystemTime range'')) (time_checked_add now d)"

datatype reservation_decision =
    DecideConflict | DecideExpire | DecideInProgress | DecideReplay | DecideReclaim

definition ledger_initial :: "reservation \<Rightarrow> system_time \<Rightarrow> ledger_error + ledger_record" where
  "ledger_initial r now =
     rbind (checked_deadline now (rz_lease r) ''attempt lease'') (\<lambda>lease.
     rbind (checked_deadline now (rz_retention r) ''command retention'') (\<lambda>retention.
     Inr \<lparr>lr_key = rz_key r, lr_command_name = rz_command_name r,
          lr_contract_fingerprint = rz_contract_fingerprint r, lr_input_hash = rz_input_hash r,
          lr_state = InProgress, lr_causation_id = rz_candidate_causation r,
          lr_attempt_token = Some (rz_candidate_attempt r), lr_attempt_number = 1,
          lr_lease_expires_at = Some lease, lr_outcome_json = None, lr_created_at = now,
          lr_updated_at = now, lr_completed_at = None, lr_retention_expires_at = retention,
          lr_compacted_at = None\<rparr>))"

definition acquired_attempt :: "ledger_record \<Rightarrow> ledger_error + attempt" where
  "acquired_attempt r =
     rbind (ok_or (LCorrupt (''in-progress command '' @ quoted_command r @ '' has no attempt token''))
              (lr_attempt_token r)) (\<lambda>token.
     Inr \<lparr>at_key = lr_key r, at_contract_fingerprint = lr_contract_fingerprint r,
          at_input_hash = lr_input_hash r, at_causation_id = lr_causation_id r,
          at_attempt_token = token, at_attempt_number = lr_attempt_number r\<rparr>)"

definition classify_reservation ::
  "ledger_record \<Rightarrow> reservation \<Rightarrow> system_time \<Rightarrow> ledger_error + reservation_decision" where
  "classify_reservation r z now =
     (if lr_state r = LedgerExpired \<or> lr_retention_expires_at r \<le> now then Inr DecideExpire
      else if lr_command_name r \<noteq> rz_command_name z \<or>
              lr_contract_fingerprint r \<noteq> rz_contract_fingerprint z \<or>
              lr_input_hash r \<noteq> rz_input_hash z
      then Inr DecideConflict
      else if lr_state r = InProgress then
        rbind (ok_or (LCorrupt (''in-progress command '' @ quoted_command r @
                                '' has no lease deadline'')) (lr_lease_expires_at r)) (\<lambda>lease.
        if lease \<le> now then Inr DecideReclaim else Inr DecideInProgress)
      else if lr_state r = RetryableUnknown then Inr DecideReclaim
      else if is_replayable (lr_state r) then Inr DecideReplay
      else if lr_state r = LedgerExpired then Inr DecideExpire
      else Inl (LCorrupt (''command '' @ quoted_command r @ '' has unsupported state `'' @
                          state_as_str (lr_state r) @ ''`'')))"

definition reclaim ::
  "ledger_record \<Rightarrow> reservation \<Rightarrow> system_time \<Rightarrow> ledger_error + ledger_record" where
  "reclaim r z now =
     rbind (ok_or (LCorrupt (''command '' @ quoted_command r @ '' attempt counter overflowed''))
              (u64_checked_add (lr_attempt_number r) 1)) (\<lambda>number.
     rbind (checked_deadline now (rz_lease z) ''attempt lease'') (\<lambda>lease.
     rbind (checked_deadline now (rz_retention z) ''command retention'') (\<lambda>retention.
     Inr (r\<lparr>lr_state := InProgress, lr_attempt_token := Some (rz_candidate_attempt z),
            lr_attempt_number := number, lr_lease_expires_at := Some lease,
            lr_retention_expires_at := retention, lr_updated_at := now\<rparr>))))"

definition stored_shape_ok :: "ledger_record \<Rightarrow> bool" where
  "stored_shape_ok r \<longleftrightarrow>
     (if lr_state r = InProgress then
        lr_attempt_token r \<noteq> None \<and> lr_lease_expires_at r \<noteq> None \<and> lr_outcome_json r = None \<and>
        lr_completed_at r = None \<and> lr_compacted_at r = None
      else if lr_state r = RetryableUnknown then
        lr_attempt_token r = None \<and> lr_lease_expires_at r = None \<and> lr_outcome_json r = None \<and>
        lr_completed_at r = None \<and> lr_compacted_at r = None
      else if is_replayable (lr_state r) then
        lr_attempt_token r = None \<and> lr_lease_expires_at r = None \<and> lr_outcome_json r \<noteq> None \<and>
        lr_completed_at r \<noteq> None \<and> lr_compacted_at r = None
      else if lr_state r = LedgerExpired then
        lr_attempt_token r = None \<and> lr_lease_expires_at r = None \<and> lr_outcome_json r = None \<and>
        lr_compacted_at r \<noteq> None
      else False)"

definition validate_stored_shape :: "ledger_record \<Rightarrow> ledger_error + unit" where
  "validate_stored_shape r =
     (if blank (lr_command_name r) \<or> lr_attempt_number r = 0
      then Inl (LCorrupt (''command '' @ quoted_command r @ '' has invalid invariant fields''))
      else if \<not> stored_shape_ok r
      then Inl (LCorrupt (''command '' @ quoted_command r @ '' state `'' @ state_as_str (lr_state r) @
                          ''` has inconsistent nullable fields''))
      else Inr ())"

definition expire :: "system_time \<Rightarrow> ledger_record \<Rightarrow> ledger_record" where
  "expire now r =
     r\<lparr>lr_state := LedgerExpired, lr_attempt_token := None, lr_lease_expires_at := None,
       lr_outcome_json := None, lr_updated_at := now, lr_compacted_at := Some now\<rparr>"

definition matches_fence :: "ledger_record \<Rightarrow> attempt_fence \<Rightarrow> bool" where
  "matches_fence r f \<longleftrightarrow>
     lr_key r = af_key f \<and> lr_contract_fingerprint r = af_contract_fingerprint f \<and>
     lr_input_hash r = af_input_hash f \<and> lr_state r = InProgress \<and>
     lr_causation_id r = af_causation_id f \<and> lr_attempt_token r = Some (af_attempt_token f) \<and>
     lr_attempt_number r = af_attempt_number f"

fun matches_lookup_scope :: "ledger_record \<Rightarrow> lookup_scope \<Rightarrow> bool" where
  "matches_lookup_scope r (CommandName expected) = (lr_command_name r = expected)"
| "matches_lookup_scope r (CommandContract command_name fingerprint) =
     (lr_command_name r = command_name \<and> lr_contract_fingerprint r = fingerprint)"
| "matches_lookup_scope r (AttemptScope f) =
     (lr_key r = af_key f \<and> lr_contract_fingerprint r = af_contract_fingerprint f \<and>
      lr_input_hash r = af_input_hash f \<and> lr_causation_id r = af_causation_id f \<and>
      lr_attempt_number r = af_attempt_number f \<and>
      pred_option (\<lambda>token. token = af_attempt_token f) (lr_attempt_token r))"

definition validate_live_attempt ::
  "ledger_record \<Rightarrow> attempt_fence \<Rightarrow> system_time \<Rightarrow> ledger_error + unit" where
  "validate_live_attempt r f now =
     (let lease_is_live = (case lr_lease_expires_at r of None \<Rightarrow> False | Some lease \<Rightarrow> now < lease)
      in if matches_fence r f \<and> lease_is_live then Inr ()
         else Inl (AttemptFenced (lk_command_id (af_key f))))"

definition mark_retryable_unknown ::
  "ledger_record \<Rightarrow> attempt_fence \<Rightarrow> system_time \<Rightarrow> ledger_error + ledger_record" where
  "mark_retryable_unknown r f now =
     (if \<not> matches_fence r f then Inl (AttemptFenced (lk_command_id (af_key f)))
      else Inr (r\<lparr>lr_state := RetryableUnknown, lr_attempt_token := None,
                  lr_lease_expires_at := None, lr_updated_at := now\<rparr>))"

definition ledger_complete ::
  "ledger_record \<Rightarrow> completion \<Rightarrow> system_time \<Rightarrow> ledger_error + ledger_record" where
  "ledger_complete r c now =
     rbind (validate_direct_projection c) (\<lambda>_.
     rbind (validate_live_attempt r (attempt_fence_of (cm_attempt c)) now) (\<lambda>_.
     rbind (case cm_retention_expires_at c of
              Some deadline \<Rightarrow>
                if now < deadline then Inr deadline
                else Inl (LInvalid ''command retention deadline must remain live at commit'')
            | None \<Rightarrow> checked_deadline now (cm_retention c) ''command retention'') (\<lambda>deadline.
     Inr (r\<lparr>lr_state := ledger_state_from (cm_state c), lr_attempt_token := None,
            lr_lease_expires_at := None, lr_outcome_json := Some (cm_replay c),
            lr_updated_at := now, lr_completed_at := Some now,
            lr_retention_expires_at := deadline\<rparr>))))"

section \<open>Replay\<close>

text \<open>\<^verbatim>\<open>serde_json::Map::remove\<close>: the value and the remaining fields.\<close>

definition take_field :: "string \<Rightarrow> (string \<times> json) list \<Rightarrow> json option \<times> (string \<times> json) list" where
  "take_field k kvs = (map_of kvs k, AList.delete k kvs)"

fun json_as_u64 :: "json \<Rightarrow> nat option" where
  "json_as_u64 (JNumber (PosInt n)) = Some n"
| "json_as_u64 _ = None"

definition replay_metadata ::
  "ledger_codec \<Rightarrow> ledger_record \<Rightarrow> json \<Rightarrow> ledger_error + byte list" where
  "replay_metadata lc r v =
     (let corrupt = (\<lambda>m. LCorrupt (''command '' @ quoted_command r @ m)) in
      case v of
        JString encoded \<Rightarrow>
          rbind (ok_or (corrupt '' replay projection metadata is not canonical base64url'')
                   (lc_b64_decode lc encoded)) (\<lambda>bs.
          if lc_b64_encode lc bs \<noteq> encoded
          then Inl (corrupt '' replay projection metadata uses noncanonical base64url'')
          else rbind (map_err (\<lambda>e. corrupt ('' replay projection metadata is invalid: '' @
                                  display_ledger_error e))
                 (validate_projection_metadata_bytes (lr_state r) (Some bs))) (\<lambda>_.
          Inr bs))
      | _ \<Rightarrow> Inl (corrupt '' replay projection metadata is not an opaque string''))"

definition replay_obligations ::
  "ledger_codec \<Rightarrow> ledger_record \<Rightarrow> json \<Rightarrow> ledger_error + obligation list" where
  "replay_obligations lc r v =
     (let corrupt = (\<lambda>m. LCorrupt (''command '' @ quoted_command r @ m)) in
      rbind (map_err (\<lambda>e. corrupt ('' replay projection obligations are invalid: '' @ e))
               (lc_obligations_from_value lc v)) (\<lambda>obs.
      rbind (map_err (\<lambda>e. corrupt ('' replay projection obligations cannot be normalized: '' @ e))
               (lc_obligations_to_value lc obs)) (\<lambda>canonical.
      if canonical \<noteq> v
      then Inl (corrupt '' replay projection obligations contain unknown or non-canonical fields'')
      else Inr obs)))"

definition replay_direct ::
  "ledger_codec \<Rightarrow> ledger_record \<Rightarrow> json option \<Rightarrow> ledger_error + unit" where
  "replay_direct lc r direct =
     (let corrupt = (\<lambda>m. LCorrupt (''command '' @ quoted_command r @ m)) in
      case direct of
        Some v \<Rightarrow>
          if lr_state r = Atomic
          then map_err (\<lambda>e. corrupt ('' replay direct projection is invalid: '' @ e))
                 (validate_replay_value (lc_replay lc) (lc_sha lc) v)
          else Inl (corrupt '' non-projected replay contains direct projection evidence'')
      | None \<Rightarrow>
          if lr_state r = Atomic
          then Inl (corrupt '' projected replay has no exact direct projection evidence'')
          else Inr ())"

definition ledger_replay :: "ledger_codec \<Rightarrow> ledger_record \<Rightarrow> ledger_error + command_replay" where
  "ledger_replay lc r =
     (let corrupt = (\<lambda>m. LCorrupt (''command '' @ quoted_command r @ m)) in
      if \<not> is_replayable (lr_state r)
      then Inl (corrupt ('' state `'' @ state_as_str (lr_state r) @ ''` is not replayable''))
      else
      rbind (ok_or (LCorrupt (''replayable command '' @ quoted_command r @ '' has no outcome''))
               (lr_outcome_json r)) (\<lambda>payload.
      rbind (map_err (\<lambda>e. corrupt ('' outcome is invalid JSON: '' @ e)) (lc_from_str lc payload))
        (\<lambda>envelope.
      rbind (case envelope of
               JObject kvs \<Rightarrow> Inr kvs
             | _ \<Rightarrow> Inl (corrupt '' replay envelope is not an object'')) (\<lambda>kvs.
      let (version, kvs) = take_field ''version'' kvs in
      rbind (ok_or (corrupt '' replay envelope has no numeric version'')
               (Option.bind version json_as_u64)) (\<lambda>version.
      if version \<noteq> COMMAND_REPLAY_VERSION
      then Inl (corrupt ('' replay envelope version `'' @ show_nat version @ ''` is unsupported''))
      else
      let (out, kvs) = take_field ''outcome'' kvs in
      rbind (ok_or (corrupt '' replay envelope has no outcome'') out) (\<lambda>out.
      let (obs, kvs) = take_field ''projection_obligations'' kvs in
      rbind (ok_or (corrupt '' replay envelope has no projection obligations'') obs) (\<lambda>obs_value.
      rbind (replay_obligations lc r obs_value) (\<lambda>obs.
      let (metadata, kvs) = take_field ''projection_metadata'' kvs in
      rbind (try_option (replay_metadata lc r) metadata) (\<lambda>metadata.
      if metadata \<noteq> None \<and> obs \<noteq> []
      then Inl (corrupt '' replay mixes legacy and modeled projection obligations'')
      else
      rbind (if metadata = None
             then map_err (\<lambda>e. corrupt ('' replay projection obligations are inconsistent: '' @ e))
                    (validate_projection_obligation_semantics (lr_state r) obs)
             else Inr ()) (\<lambda>_.
      let (direct, kvs) = take_field ''direct_projection'' kvs in
      rbind (replay_direct lc r direct) (\<lambda>_.
      if kvs \<noteq> [] then Inl (corrupt '' replay envelope has unknown fields'')
      else Inr \<lparr>cr_command_id = lk_command_id (lr_key r), cr_command_name = lr_command_name r,
                cr_state = lr_state r, cr_causation_id = lr_causation_id r, cr_replay_outcome = out,
                cr_projection_obligations = obs, cr_projection_metadata = metadata,
                cr_direct_projection = direct\<rparr>)))))))))))"

definition ledger_lookup :: "ledger_codec \<Rightarrow> ledger_record \<Rightarrow> ledger_error + command_lookup" where
  "ledger_lookup lc r =
     (if lr_state r = InProgress then Inr (LookupInProgress (lr_causation_id r))
      else if lr_state r = RetryableUnknown then Inr (LookupRetryableUnknown (lr_causation_id r))
      else if lr_state r = LedgerExpired then Inr LookupExpired
      else if is_replayable (lr_state r)
      then rbind (ledger_replay lc r) (\<lambda>replay. Inr (LookupReplay replay))
      else Inl (LCorrupt (''command '' @ quoted_command r @ '' has unsupported lookup state `'' @
                          state_as_str (lr_state r) @ ''`'')))"

fun reservation_outcome_of ::
    "ledger_codec \<Rightarrow> ledger_record \<Rightarrow> reservation_decision \<Rightarrow> ledger_error + reservation_outcome" where
  "reservation_outcome_of lc r DecideConflict = Inr OutcomeConflict"
| "reservation_outcome_of lc r DecideExpire = Inr OutcomeExpired"
| "reservation_outcome_of lc r DecideInProgress = Inr (OutcomeInProgress (lr_causation_id r))"
| "reservation_outcome_of lc r DecideReplay =
     rbind (ledger_replay lc r) (\<lambda>replay. Inr (OutcomeReplay replay))"
| "reservation_outcome_of lc r DecideReclaim =
     rbind (acquired_attempt r) (\<lambda>a. Inr (Acquired a))"

section \<open>Cell storage\<close>

definition durable_cell_key :: "ledger_codec \<Rightarrow> ledger_record \<Rightarrow> string" where
  "durable_cell_key lc r =
     ''v1.'' @ lc_b64_encode lc (as_bytes (lk_service_id (lr_key r) @ [CHR 0x00] @
        lk_principal_partition (lr_key r) @ [CHR 0x00] @ lk_command_id (lr_key r)))"

definition cell_record_of :: "ledger_record \<Rightarrow> ledger_error + cell_record" where
  "cell_record_of r =
     rbind (try_option system_time_to_unix_millis (lr_lease_expires_at r)) (\<lambda>lease.
     rbind (system_time_to_unix_millis (lr_created_at r)) (\<lambda>created.
     rbind (system_time_to_unix_millis (lr_updated_at r)) (\<lambda>updated.
     rbind (try_option system_time_to_unix_millis (lr_completed_at r)) (\<lambda>completed.
     rbind (system_time_to_unix_millis (lr_retention_expires_at r)) (\<lambda>retention.
     rbind (try_option system_time_to_unix_millis (lr_compacted_at r)) (\<lambda>compacted.
     Inr \<lparr>cw_version = 1, cw_service_id = lk_service_id (lr_key r),
          cw_principal_partition = lk_principal_partition (lr_key r),
          cw_command_id = lk_command_id (lr_key r), cw_command_name = lr_command_name r,
          cw_contract_fingerprint = lr_contract_fingerprint r, cw_input_hash = lr_input_hash r,
          cw_state = state_as_str (lr_state r), cw_causation_id = lr_causation_id r,
          cw_attempt_token = lr_attempt_token r, cw_attempt_number = lr_attempt_number r,
          cw_lease_expires_at_ms = lease, cw_outcome_json = lr_outcome_json r,
          cw_created_at_ms = created, cw_updated_at_ms = updated, cw_completed_at_ms = completed,
          cw_retention_expires_at_ms = retention, cw_compacted_at_ms = compacted\<rparr>))))))"

definition durable_cell_json :: "ledger_codec \<Rightarrow> ledger_record \<Rightarrow> ledger_error + string" where
  "durable_cell_json lc r =
     rbind (validate_stored_shape r) (\<lambda>_.
     rbind (cell_record_of r) (\<lambda>w.
     map_err (\<lambda>e. LCorrupt (''cell command ledger row could not be encoded: '' @ e))
       (lc_cell_to_string lc w)))"

definition record_of_cell :: "ledger_codec \<Rightarrow> cell_record \<Rightarrow> ledger_error + ledger_record" where
  "record_of_cell lc w =
     rbind (principal_partition_new (cw_principal_partition w)) (\<lambda>prin.
     rbind (command_id_parse lc (cw_command_id w)) (\<lambda>command_id.
     rbind (ledger_key_new (cw_service_id w) prin command_id) (\<lambda>key.
     rbind (fixed_hash_try_from_slice ''command contract fingerprint'' (cw_contract_fingerprint w))
       (\<lambda>fingerprint.
     rbind (fixed_hash_try_from_slice ''canonical command input hash'' (cw_input_hash w)) (\<lambda>hash.
     rbind (state_parse (cw_state w)) (\<lambda>s.
     rbind (parse_stored_uuid_v7 lc ''causation ID'' (cw_causation_id w)) (\<lambda>cause.
     rbind (try_option (parse_stored_uuid_v7 lc ''attempt token'') (cw_attempt_token w)) (\<lambda>token.
     rbind (try_option system_time_from_unix_millis (cw_lease_expires_at_ms w)) (\<lambda>lease.
     rbind (system_time_from_unix_millis (cw_created_at_ms w)) (\<lambda>created.
     rbind (system_time_from_unix_millis (cw_updated_at_ms w)) (\<lambda>updated.
     rbind (try_option system_time_from_unix_millis (cw_completed_at_ms w)) (\<lambda>completed.
     rbind (system_time_from_unix_millis (cw_retention_expires_at_ms w)) (\<lambda>retention.
     rbind (try_option system_time_from_unix_millis (cw_compacted_at_ms w)) (\<lambda>compacted.
     Inr \<lparr>lr_key = key, lr_command_name = cw_command_name w,
          lr_contract_fingerprint = fingerprint, lr_input_hash = hash, lr_state = s,
          lr_causation_id = cause, lr_attempt_token = token,
          lr_attempt_number = cw_attempt_number w, lr_lease_expires_at = lease,
          lr_outcome_json = cw_outcome_json w, lr_created_at = created, lr_updated_at = updated,
          lr_completed_at = completed, lr_retention_expires_at = retention,
          lr_compacted_at = compacted\<rparr>))))))))))))))"

definition from_durable_cell_json :: "ledger_codec \<Rightarrow> string \<Rightarrow> ledger_error + ledger_record" where
  "from_durable_cell_json lc body =
     rbind (map_err (\<lambda>e. LCorrupt (''cell command ledger row is invalid JSON: '' @ e))
              (lc_cell_from_str lc body)) (\<lambda>w.
     if cw_version w \<noteq> 1
     then Inl (LCorrupt (''cell command ledger row version `'' @ show_nat (cw_version w) @
                         ''` is unsupported''))
     else rbind (record_of_cell lc w) (\<lambda>r.
          rbind (validate_stored_shape r) (\<lambda>_.
          rbind (if is_replayable (lr_state r)
                 then rbind (ledger_replay lc r) (\<lambda>_. Inr ()) else Inr ()) (\<lambda>_.
          Inr r))))"

section \<open>Lemmas\<close>

lemma state_round_trip: "state_parse (state_as_str s) = Inr s"
  by (cases s) (simp_all add: state_parse_def)

lemma ledger_state_from_replayable [simp]: "is_replayable (ledger_state_from s)"
  by (cases s) (simp_all add: is_replayable_def)

lemma not_replayable_live [simp]:
  "\<not> is_replayable InProgress" "\<not> is_replayable RetryableUnknown" "\<not> is_replayable LedgerExpired"
  by (simp_all add: is_replayable_def)

text \<open>A state is terminal when no attempt can complete it any more.\<close>

definition settled :: "ledger_state \<Rightarrow> bool" where
  "settled s \<longleftrightarrow> is_replayable s \<or> s = LedgerExpired"

lemma not_settled_iff: "\<not> settled s \<longleftrightarrow> s = InProgress \<or> s = RetryableUnknown"
  by (cases s) (simp_all add: settled_def is_replayable_def)

lemma validate_stored_shape_ok:
  "validate_stored_shape r = Inr u \<longleftrightarrow>
     \<not> blank (lr_command_name r) \<and> 0 < lr_attempt_number r \<and> stored_shape_ok r"
  by (auto simp: validate_stored_shape_def)

lemma shape_initial:
  assumes "ledger_initial z now = Inr r" "\<not> blank (rz_command_name z)"
  shows "validate_stored_shape r = Inr ()"
  using assms by (auto simp: ledger_initial_def res_simps validate_stored_shape_ok stored_shape_ok_def)

lemma shape_expire:
  "validate_stored_shape r = Inr () \<Longrightarrow> validate_stored_shape (expire now r) = Inr ()"
  by (simp add: validate_stored_shape_ok expire_def stored_shape_ok_def)

lemma shape_reclaim:
  assumes "reclaim r z now = Inr r'" "\<not> settled (lr_state r)" "validate_stored_shape r = Inr ()"
  shows "validate_stored_shape r' = Inr ()"
  using assms
  by (auto simp: reclaim_def res_simps validate_stored_shape_ok not_settled_iff stored_shape_ok_def)

lemma shape_mark_retryable_unknown:
  assumes "mark_retryable_unknown r f now = Inr r'" "validate_stored_shape r = Inr ()"
  shows "validate_stored_shape r' = Inr ()"
  using assms
  by (auto simp: mark_retryable_unknown_def validate_stored_shape_ok matches_fence_def
      stored_shape_ok_def split: if_splits)

lemma ledger_complete_ok:
  assumes "ledger_complete r c now = Inr r'"
  shows "matches_fence r (attempt_fence_of (cm_attempt c))" "validate_direct_projection c = Inr ()"
    "lr_state r' = ledger_state_from (cm_state c)" "lr_outcome_json r' = Some (cm_replay c)"
    "lr_key r' = lr_key r" "lr_command_name r' = lr_command_name r"
    "lr_causation_id r' = lr_causation_id r" "now < lr_retention_expires_at r' \<or>
      lr_retention_expires_at r' = now + int (cm_retention c)"
    "lr_contract_fingerprint r' = lr_contract_fingerprint r" "lr_input_hash r' = lr_input_hash r"
    "\<exists>lease. lr_lease_expires_at r = Some lease \<and> now < lease"
  using assms
  by (auto simp: ledger_complete_def validate_live_attempt_def checked_deadline_def res_simps Let_def
      split: option.splits if_splits)

lemma shape_complete:
  assumes "ledger_complete r c now = Inr r'" "validate_stored_shape r = Inr ()"
  shows "validate_stored_shape r' = Inr ()"
proof -
  have "lr_attempt_token r' = None" "lr_lease_expires_at r' = None" "lr_completed_at r' = Some now"
    "lr_compacted_at r' = lr_compacted_at r" "lr_attempt_number r' = lr_attempt_number r"
    using assms(1) by (auto simp: ledger_complete_def res_simps)
  moreover have "lr_state r = InProgress"
    using ledger_complete_ok(1) [OF assms(1)] by (simp add: matches_fence_def)
  ultimately show ?thesis
    using assms(2) ledger_complete_ok(3,4,6) [OF assms(1)]
    by (cases "cm_state c")
      (auto simp: validate_stored_shape_ok stored_shape_ok_def is_replayable_def)
qed

section \<open>A completed command replays its outcome\<close>

definition envelope_keys :: "string list" where
  "envelope_keys = [''direct_projection'', ''projection_metadata'', ''projection_obligations'',
     ''outcome'', ''version'']"

lemma fst_foldr_delete: "fst ` set (foldr AList.delete ks kvs) = fst ` set kvs - set ks"
proof -
  have "map fst (foldr AList.delete ks kvs) = foldr removeAll ks (map fst kvs)"
    by (induction ks) (simp_all add: delete_keys)
  then have "fst ` set (foldr AList.delete ks kvs) = set (foldr removeAll ks (map fst kvs))"
    by (metis set_map)
  also have "\<dots> = fst ` set kvs - set ks"
    by (induction ks) auto
  finally show ?thesis .
qed

lemma delete_all_fields:
  assumes "fst ` set kvs \<subseteq> set envelope_keys"
  shows "AList.delete ''direct_projection'' (AList.delete ''projection_metadata''
     (AList.delete ''projection_obligations'' (AList.delete ''outcome''
       (AList.delete ''version'' kvs)))) = []"
proof -
  have "fst ` set (foldr AList.delete envelope_keys kvs) = {}"
    using assms by (simp add: fst_foldr_delete)
  then show ?thesis
    unfolding envelope_keys_def by (simp only: foldr.simps o_apply id_apply image_is_empty set_empty)
qed

lemma ledger_replayI:
  assumes "is_replayable (lr_state r)" "lr_outcome_json r = Some text"
    and "lc_from_str lc text = Inr (JObject kvs)" "fst ` set kvs \<subseteq> set envelope_keys"
    and "map_of kvs ''version'' = Some (JNumber (PosInt COMMAND_REPLAY_VERSION))"
    and "map_of kvs ''outcome'' = Some out" "map_of kvs ''projection_obligations'' = Some ov"
    and "replay_obligations lc r ov = Inr obs"
    and "try_option (replay_metadata lc r) (map_of kvs ''projection_metadata'') = Inr metadata"
    and "metadata = None \<or> obs = []"
    and "metadata = None \<Longrightarrow> validate_projection_obligation_semantics (lr_state r) obs = Inr ()"
    and "replay_direct lc r (map_of kvs ''direct_projection'') = Inr ()"
  shows "ledger_replay lc r =
    Inr \<lparr>cr_command_id = lk_command_id (lr_key r), cr_command_name = lr_command_name r,
         cr_state = lr_state r, cr_causation_id = lr_causation_id r, cr_replay_outcome = out,
         cr_projection_obligations = obs, cr_projection_metadata = metadata,
         cr_direct_projection = map_of kvs ''direct_projection''\<rparr>"
  using assms by (auto simp: ledger_replay_def Let_def take_field_def delete_all_fields
      map_of_delete)

text \<open>Reading back one printed JSON value, one list of obligations and one byte string.\<close>

definition json_lossless :: "ledger_codec \<Rightarrow> json \<Rightarrow> bool" where
  "json_lossless lc v \<longleftrightarrow>
     (case lc_to_string lc v of Inl _ \<Rightarrow> True | Inr text \<Rightarrow> lc_from_str lc text = Inr v)"

definition obligations_lossless :: "ledger_codec \<Rightarrow> obligation list \<Rightarrow> bool" where
  "obligations_lossless lc obs \<longleftrightarrow>
     (case lc_obligations_to_value lc obs of
        Inl _ \<Rightarrow> True | Inr v \<Rightarrow> lc_obligations_from_value lc v = Inr obs)"

lemma replay_fields_lookup:
  "map_of (replay_fields lc out ov md) ''version'' = Some (JNumber (PosInt COMMAND_REPLAY_VERSION))"
  "map_of (replay_fields lc out ov md) ''outcome'' = Some out"
  "map_of (replay_fields lc out ov md) ''projection_obligations'' = Some ov"
  "map_of (replay_fields lc out ov md) ''projection_metadata'' =
     map_option (\<lambda>bs. JString (lc_b64_encode lc bs)) md"
  "map_of (replay_fields lc out ov md) ''direct_projection'' = None"
  by (simp_all add: replay_fields_def Let_def del: bt_insert.simps split: option.split)

lemma replay_fields_keys: "fst ` set (replay_fields lc out ov md) \<subseteq> set envelope_keys"
  by (simp add: replay_fields_def Let_def envelope_keys_def del: bt_insert.simps split: option.split)

definition with_direct_field ::
  "json option \<Rightarrow> (string \<times> json) list \<Rightarrow> (string \<times> json) list" where
  "with_direct_field direct kvs =
     (case direct of None \<Rightarrow> kvs | Some v \<Rightarrow> bt_insert ''direct_projection'' v kvs)"

lemma with_direct_field_keys:
  "fst ` set (with_direct_field direct (replay_fields lc out ov md)) \<subseteq> set envelope_keys"
proof -
  have "''direct_projection'' \<in> set envelope_keys" by (simp add: envelope_keys_def)
  then show ?thesis
    using replay_fields_keys by (simp add: with_direct_field_def split: option.split)
qed

lemma with_direct_field_lookup:
  "map_of (with_direct_field direct (replay_fields lc out ov md)) ''version'' =
     Some (JNumber (PosInt COMMAND_REPLAY_VERSION))"
  "map_of (with_direct_field direct (replay_fields lc out ov md)) ''outcome'' = Some out"
  "map_of (with_direct_field direct (replay_fields lc out ov md)) ''projection_obligations'' = Some ov"
  "map_of (with_direct_field direct (replay_fields lc out ov md)) ''projection_metadata'' =
     map_option (\<lambda>bs. JString (lc_b64_encode lc bs)) md"
  "map_of (with_direct_field direct (replay_fields lc out ov md)) ''direct_projection'' = direct"
  by (simp_all add: with_direct_field_def replay_fields_lookup split: option.split)

text \<open>What the stored row must agree with so that its envelope decodes to the given parts.\<close>

lemma stored_envelope_replays:
  assumes "is_replayable (lr_state r)" "lr_outcome_json r = Some text"
    and "lc_from_str lc text = Inr (JObject (with_direct_field direct (replay_fields lc out ov md)))"
    and "replay_obligations lc r ov = Inr obs" "md = None \<or> obs = []"
    and "pred_option (\<lambda>bs. replay_metadata lc r (JString (lc_b64_encode lc bs)) = Inr bs) md"
    and "md = None \<Longrightarrow> validate_projection_obligation_semantics (lr_state r) obs = Inr ()"
    and "replay_direct lc r direct = Inr ()"
  shows "ledger_replay lc r =
    Inr \<lparr>cr_command_id = lk_command_id (lr_key r), cr_command_name = lr_command_name r,
         cr_state = lr_state r, cr_causation_id = lr_causation_id r, cr_replay_outcome = out,
         cr_projection_obligations = obs, cr_projection_metadata = md,
         cr_direct_projection = direct\<rparr>"
proof -
  have "try_option (replay_metadata lc r) (map_option (\<lambda>bs. JString (lc_b64_encode lc bs)) md) = Inr md"
    using assms(6) by (rule try_option_round_trip)
  then show ?thesis
    using ledger_replayI [OF assms(1-3) with_direct_field_keys with_direct_field_lookup(1-3) assms(4)]
      assms(5,7,8)
    by (simp only: with_direct_field_lookup)
qed

lemma completion_facts:
  assumes "complete_with_replay_metadata lc a s out obs md retention until = Inr c"
  obtains ov where "lc_obligations_to_value lc obs = Inr ov"
    "lc_to_string lc (JObject (replay_fields lc out ov md)) = Inr (cm_replay c)"
    "md = None \<or> obs = []" "cm_state c = s" "cm_attempt c = a" "cm_direct_projection c = None"
    "validate_projection_metadata_bytes (ledger_state_from s) md = Inr ()"
    "cm_retention c = retention"
    "md = None \<longrightarrow> validate_projection_obligation_semantics (ledger_state_from s) obs = Inr ()"
    "0 < retention"
proof -
  from assms obtain ov where "lc_obligations_to_value lc obs = Inr ov"
    "lc_to_string lc (JObject (replay_fields lc out ov md)) = Inr (cm_replay c)"
    "md = None \<or> obs = []" "cm_state c = s" "cm_attempt c = a" "cm_direct_projection c = None"
    "validate_projection_metadata_bytes (ledger_state_from s) md = Inr ()"
    "cm_retention c = retention"
    by (auto simp: complete_with_replay_metadata_def res_simps split: if_splits)
  moreover have "md = None \<longrightarrow> validate_projection_obligation_semantics (ledger_state_from s) obs = Inr ()"
    "0 < retention"
    using assms by (auto simp: complete_with_replay_metadata_def validate_positive_duration_def
        res_simps split: if_splits)
  ultimately show thesis by (rule that)
qed

lemma attach_facts:
  assumes "attach_direct_projection lc ev c = Inr c'"
  obtains kvs where "cm_state c = TerminalAtomic"
    "lc_from_str lc (cm_replay c) = Inr (JObject kvs)"
    "lc_to_string lc (JObject (bt_insert ''direct_projection'' (replay_value (lc_replay lc) ev) kvs))
       = Inr (cm_replay c')"
    "validate_replay_value (lc_replay lc) (lc_sha lc) (replay_value (lc_replay lc) ev) = Inr ()"
    "cm_state c' = TerminalAtomic" "cm_attempt c' = cm_attempt c" "cm_retention c' = cm_retention c"
    "cm_retention_expires_at c' = cm_retention_expires_at c"
proof -
  from assms obtain j where "lc_from_str lc (cm_replay c) = Inr j"
    by (auto simp: attach_direct_projection_def Let_def res_simps split: if_splits)
  with assms that show thesis
    by (cases j) (auto simp: attach_direct_projection_def Let_def res_simps split: if_splits)
qed

definition replay_lossless ::
  "ledger_codec \<Rightarrow> json \<Rightarrow> obligation list \<Rightarrow> byte list option \<Rightarrow> json option \<Rightarrow> bool" where
  "replay_lossless lc out obs md direct \<longleftrightarrow>
     obligations_lossless lc obs \<and>
     pred_option (\<lambda>bs. lc_b64_decode lc (lc_b64_encode lc bs) = Some bs) md \<and>
     (case lc_obligations_to_value lc obs of
        Inl _ \<Rightarrow> True
      | Inr ov \<Rightarrow> json_lossless lc (JObject (replay_fields lc out ov md)) \<and>
                json_lossless lc (JObject (with_direct_field direct (replay_fields lc out ov md))))"

lemma replay_obligations_ok:
  "lc_obligations_to_value lc obs = Inr ov \<Longrightarrow> obligations_lossless lc obs \<Longrightarrow>
     replay_obligations lc r ov = Inr obs"
  by (simp add: replay_obligations_def obligations_lossless_def)

lemma replay_metadata_ok:
  "lc_b64_decode lc (lc_b64_encode lc bs) = Some bs \<Longrightarrow>
   validate_projection_metadata_bytes (lr_state r) (Some bs) = Inr () \<Longrightarrow>
     replay_metadata lc r (JString (lc_b64_encode lc bs)) = Inr bs"
  by (simp add: replay_metadata_def Let_def)

lemma completed_row_replays:
  assumes comp: "complete_with_replay_metadata lc a s out obs md retention until = Inr c0"
    and att: "case ev of None \<Rightarrow> c = c0 | Some e \<Rightarrow> attach_direct_projection lc e c0 = Inr c"
    and row: "ledger_complete r c now = Inr r'"
    and laws: "replay_lossless lc out obs md (map_option (replay_value (lc_replay lc)) ev)"
  shows "ledger_replay lc r' =
    Inr \<lparr>cr_command_id = lk_command_id (at_key a), cr_command_name = lr_command_name r,
         cr_state = ledger_state_from s, cr_causation_id = at_causation_id a,
         cr_replay_outcome = out, cr_projection_obligations = obs, cr_projection_metadata = md,
         cr_direct_projection = map_option (replay_value (lc_replay lc)) ev\<rparr>"
proof -
  let ?direct = "map_option (replay_value (lc_replay lc)) ev"
  from comp obtain ov where ov: "lc_obligations_to_value lc obs = Inr ov"
    and printed: "lc_to_string lc (JObject (replay_fields lc out ov md)) = Inr (cm_replay c0)"
    and mix: "md = None \<or> obs = []" and c0: "cm_state c0 = s" "cm_attempt c0 = a"
      "cm_direct_projection c0 = None"
    and meta: "validate_projection_metadata_bytes (ledger_state_from s) md = Inr ()"
    and "cm_retention c0 = retention"
    and sem: "md = None \<longrightarrow> validate_projection_obligation_semantics (ledger_state_from s) obs = Inr ()"
    and "0 < retention"
    by (rule completion_facts)
  note rw = ledger_complete_ok [OF row]
  have c: "cm_state c = s" "cm_attempt c = a" and stored: "lc_from_str lc (cm_replay c) =
      Inr (JObject (with_direct_field ?direct (replay_fields lc out ov md)))"
    and direct: "replay_direct lc r' ?direct = Inr ()"
  proof -
    have "cm_state c = s \<and> cm_attempt c = a \<and> replay_direct lc r' ?direct = Inr () \<and>
        lc_from_str lc (cm_replay c) =
          Inr (JObject (with_direct_field ?direct (replay_fields lc out ov md)))"
    proof (cases ev)
      case None
      with att c0 printed laws ov rw(2,3) show ?thesis
        by (cases s) (simp_all add: replay_lossless_def json_lossless_def with_direct_field_def
            replay_direct_def validate_direct_projection_def)
    next
      case (Some e)
      with att have "attach_direct_projection lc e c0 = Inr c" by simp
      with laws ov printed c0 rw(3) Some show ?thesis
        by (elim attach_facts)
          (simp add: replay_lossless_def json_lossless_def with_direct_field_def replay_direct_def)
    qed
    then show "cm_state c = s" "cm_attempt c = a" "replay_direct lc r' ?direct = Inr ()"
      "lc_from_str lc (cm_replay c) =
         Inr (JObject (with_direct_field ?direct (replay_fields lc out ov md)))" by blast+
  qed
  have "pred_option (\<lambda>bs. replay_metadata lc r' (JString (lc_b64_encode lc bs)) = Inr bs) md"
    using laws meta rw(3) c by (cases md) (simp_all add: replay_lossless_def replay_metadata_ok)
  moreover have "replay_obligations lc r' ov = Inr obs"
    using ov laws by (intro replay_obligations_ok) (simp_all add: replay_lossless_def)
  ultimately show ?thesis
    using stored_envelope_replays [where r = r', OF _ rw(4) stored _ mix _ _ direct] sem rw(1,3,5-7) c
    by (simp add: matches_fence_def attempt_fence_of_def)
qed

section \<open>Cell storage round trip\<close>

text \<open>Identifiers and hashes as their constructors leave them, times the clock can show.\<close>

definition uuid_ok :: "ledger_codec \<Rightarrow> string \<Rightarrow> bool" where
  "uuid_ok lc s \<longleftrightarrow>
     lc_uuid_parse lc s = Some \<lparr>uu_version_num = 7, uu_rfc4122 = True, uu_hyphenated = s\<rparr>"

definition row_wf :: "ledger_codec \<Rightarrow> ledger_record \<Rightarrow> bool" where
  "row_wf lc r \<longleftrightarrow>
     \<not> blank (lk_service_id (lr_key r)) \<and> \<not> blank (lk_principal_partition (lr_key r)) \<and>
     uuid_ok lc (lk_command_id (lr_key r)) \<and> uuid_ok lc (lr_causation_id r) \<and>
     pred_option (uuid_ok lc) (lr_attempt_token r) \<and>
     length (lr_contract_fingerprint r) = SHA256_BYTES \<and> length (lr_input_hash r) = SHA256_BYTES \<and>
     list_all (\<lambda>t. t \<le> system_time_max) [lr_created_at r, lr_updated_at r, lr_retention_expires_at r] \<and>
     list_all (pred_option (\<lambda>t. t \<le> system_time_max))
       [lr_lease_expires_at r, lr_completed_at r, lr_compacted_at r] \<and>
     (is_replayable (lr_state r) \<longrightarrow> \<not> isl (ledger_replay lc r))"

definition to_millis :: "system_time \<Rightarrow> system_time" where
  "to_millis t = t div 1000000 * 1000000"

definition at_millis :: "ledger_record \<Rightarrow> ledger_record" where
  "at_millis r =
     r\<lparr>lr_lease_expires_at := map_option to_millis (lr_lease_expires_at r),
       lr_created_at := to_millis (lr_created_at r), lr_updated_at := to_millis (lr_updated_at r),
       lr_completed_at := map_option to_millis (lr_completed_at r),
       lr_retention_expires_at := to_millis (lr_retention_expires_at r),
       lr_compacted_at := map_option to_millis (lr_compacted_at r)\<rparr>"

lemma millis_round_trip:
  assumes "system_time_to_unix_millis t = Inr n" "t \<le> system_time_max"
  shows "system_time_from_unix_millis n = Inr (to_millis t)"
proof -
  from assms(1) have "0 \<le> t" and n: "n = nat t div 1000000"
    by (auto simp: system_time_to_unix_millis_def Let_def split: if_splits)
  then have "int (n * 1000000) = to_millis t"
    by (simp add: to_millis_def zdiv_int)
  moreover have "to_millis t \<le> t" by (simp add: to_millis_def minus_mod_eq_div_mult [symmetric])
  ultimately show ?thesis
    using assms(2) by (simp add: system_time_from_unix_millis_def res_simps)
qed

lemma millis_option_round_trip:
  assumes "try_option system_time_to_unix_millis t = Inr n" "pred_option (\<lambda>t. t \<le> system_time_max) t"
  shows "try_option system_time_from_unix_millis n = Inr (map_option to_millis t)"
  using assms by (cases t) (auto simp: try_option_def res_simps millis_round_trip)

lemma uuid_ok_parse:
  "uuid_ok lc s \<Longrightarrow> command_id_parse lc s = Inr s" "uuid_ok lc s \<Longrightarrow> parse_stored_uuid_v7 lc label s = Inr s"
  by (simp_all add: uuid_ok_def command_id_parse_def parse_stored_uuid_v7_def)

lemma uuid_ok_parse_option:
  "pred_option (uuid_ok lc) s \<Longrightarrow> try_option (parse_stored_uuid_v7 lc label) s = Inr s"
  by (cases s) (simp_all add: try_option_def uuid_ok_parse)

lemma record_of_cell_round_trip:
  assumes "cell_record_of r = Inr w" "row_wf lc r"
  shows "record_of_cell lc w = Inr (at_millis r) \<and> cw_version w = 1"
proof -
  from assms(1) obtain lease created updated completed retention compacted where
    ms: "try_option system_time_to_unix_millis (lr_lease_expires_at r) = Inr lease"
      "system_time_to_unix_millis (lr_created_at r) = Inr created"
      "system_time_to_unix_millis (lr_updated_at r) = Inr updated"
      "try_option system_time_to_unix_millis (lr_completed_at r) = Inr completed"
      "system_time_to_unix_millis (lr_retention_expires_at r) = Inr retention"
      "try_option system_time_to_unix_millis (lr_compacted_at r) = Inr compacted"
    and w: "w = \<lparr>cw_version = 1, cw_service_id = lk_service_id (lr_key r),
          cw_principal_partition = lk_principal_partition (lr_key r),
          cw_command_id = lk_command_id (lr_key r), cw_command_name = lr_command_name r,
          cw_contract_fingerprint = lr_contract_fingerprint r, cw_input_hash = lr_input_hash r,
          cw_state = state_as_str (lr_state r), cw_causation_id = lr_causation_id r,
          cw_attempt_token = lr_attempt_token r, cw_attempt_number = lr_attempt_number r,
          cw_lease_expires_at_ms = lease, cw_outcome_json = lr_outcome_json r,
          cw_created_at_ms = created, cw_updated_at_ms = updated, cw_completed_at_ms = completed,
          cw_retention_expires_at_ms = retention, cw_compacted_at_ms = compacted\<rparr>"
    by (auto simp: cell_record_of_def res_simps)
  from assms(2) have times:
    "try_option system_time_from_unix_millis lease = Inr (map_option to_millis (lr_lease_expires_at r))"
    "system_time_from_unix_millis created = Inr (to_millis (lr_created_at r))"
    "system_time_from_unix_millis updated = Inr (to_millis (lr_updated_at r))"
    "try_option system_time_from_unix_millis completed = Inr (map_option to_millis (lr_completed_at r))"
    "system_time_from_unix_millis retention = Inr (to_millis (lr_retention_expires_at r))"
    "try_option system_time_from_unix_millis compacted = Inr (map_option to_millis (lr_compacted_at r))"
    using millis_round_trip [OF ms(2)] millis_round_trip [OF ms(3)] millis_round_trip [OF ms(5)]
      millis_option_round_trip [OF ms(1)] millis_option_round_trip [OF ms(4)]
      millis_option_round_trip [OF ms(6)]
    by (simp_all add: row_wf_def)
  have key: "\<lparr>lk_service_id = lk_service_id (lr_key r),
      lk_principal_partition = lk_principal_partition (lr_key r),
      lk_command_id = lk_command_id (lr_key r)\<rparr> = lr_key r" by simp
  show ?thesis
    using assms(2) unfolding w row_wf_def
    by (simp add: record_of_cell_def principal_partition_new_def ledger_key_new_def
        fixed_hash_try_from_slice_def state_round_trip uuid_ok_parse uuid_ok_parse_option times
        at_millis_def)
qed

lemma ledger_replay_cong:
  assumes "lr_key r = lr_key r'" "lr_command_name r = lr_command_name r'" "lr_state r = lr_state r'"
    "lr_causation_id r = lr_causation_id r'" "lr_outcome_json r = lr_outcome_json r'"
  shows "ledger_replay lc r = ledger_replay lc r'"
proof -
  have q: "quoted_command r = quoted_command r'"
    by (simp add: quoted_command_def assms)
  have "replay_obligations lc r = replay_obligations lc r'" "replay_metadata lc r = replay_metadata lc r'"
    "replay_direct lc r = replay_direct lc r'"
    unfolding replay_obligations_def [abs_def] replay_metadata_def [abs_def] replay_direct_def [abs_def]
      q assms by (rule refl)+
  then show ?thesis
    unfolding ledger_replay_def q assms by (simp only:)
qed

lemma shape_at_millis: "validate_stored_shape (at_millis r) = Inr u \<longleftrightarrow> validate_stored_shape r = Inr u"
  by (simp add: validate_stored_shape_ok at_millis_def stored_shape_ok_def)

section \<open>Guarantees of a row\<close>

text \<open>
  C40: A ledger row survives cell storage. Whatever row the encoder accepts, restoring its stored
  form gives the same row with its times cut to whole milliseconds. The row's identifiers are
  canonical, its hashes have their fixed length, a terminal row replays, and the JSON codec gives
  back the record it wrote.
\<close>

theorem cell_row_round_trip:
  assumes "durable_cell_json lc r = Inr body" and "row_wf lc r"
    and "\<And>w. lc_cell_to_string lc w = Inr body \<Longrightarrow> lc_cell_from_str lc body = Inr w"
  shows "from_durable_cell_json lc body = Inr (at_millis r)"
proof -
  from assms(1) obtain w where w: "cell_record_of r = Inr w" "lc_cell_to_string lc w = Inr body"
    and shape: "validate_stored_shape r = Inr ()"
    by (auto simp: durable_cell_json_def res_simps)
  have "ledger_replay lc (at_millis r) = ledger_replay lc r" "lr_state (at_millis r) = lr_state r"
    by (rule ledger_replay_cong) (simp_all add: at_millis_def)
  then have "is_replayable (lr_state (at_millis r)) \<longrightarrow> \<not> isl (ledger_replay lc (at_millis r))"
    using assms(2) by (simp add: row_wf_def)
  then show ?thesis
    using assms(3) [OF w(2)] record_of_cell_round_trip [OF w(1) assms(2)] shape
    by (auto simp: from_durable_cell_json_def shape_at_millis res_simps not_isl_projr
        dest: not_isl_projr)
qed

definition cell_demo_row :: ledger_record where
  "cell_demo_row =
     \<lparr>lr_key = \<lparr>lk_service_id = ''todo'', lk_principal_partition = ''p1'', lk_command_id = ''cmd''\<rparr>,
      lr_command_name = ''create'', lr_contract_fingerprint = replicate 32 1,
      lr_input_hash = replicate 32 2, lr_state = InProgress, lr_causation_id = ''cause'',
      lr_attempt_token = Some ''token'', lr_attempt_number = 1,
      lr_lease_expires_at = Some 30000000500, lr_outcome_json = None, lr_created_at = 1500,
      lr_updated_at = 2000001, lr_completed_at = None, lr_retention_expires_at = 90000000000,
      lr_compacted_at = None\<rparr>"

definition cell_demo_codec :: ledger_codec where
  "cell_demo_codec =
     \<lparr>lc_to_string = (\<lambda>_. Inl []), lc_from_str = (\<lambda>_. Inl []),
      lc_obligations_to_value = (\<lambda>_. Inl []), lc_obligations_from_value = (\<lambda>_. Inl []),
      lc_b64_encode = (\<lambda>_. []), lc_b64_decode = (\<lambda>_. None),
      lc_uuid_parse = (\<lambda>s. Some \<lparr>uu_version_num = 7, uu_rfc4122 = True, uu_hyphenated = s\<rparr>),
      lc_cell_to_string = (\<lambda>w. if w = projr (cell_record_of cell_demo_row) then Inr ''row'' else Inl []),
      lc_cell_from_str = (\<lambda>s. Inr (projr (cell_record_of cell_demo_row))),
      lc_replay = constant_codec (replay_envelope_from \<lparr>se_records = [], se_changes = [],
        se_observations = []\<rparr>),
      lc_sha = direct_sha\<rparr>"

theorem cell_row_round_trip_witness:
  "durable_cell_json cell_demo_codec cell_demo_row = Inr ''row'' \<and>
   from_durable_cell_json cell_demo_codec ''row'' = Inr (at_millis cell_demo_row)"
proof -
  have json: "durable_cell_json cell_demo_codec cell_demo_row = Inr ''row''" by code_simp
  have wf: "row_wf cell_demo_codec cell_demo_row"
    by (code_simp, simp add: uuid_ok_def SHA256_BYTES_def system_time_max_def)
  have "lc_cell_from_str cell_demo_codec ''row'' = Inr w"
    if "lc_cell_to_string cell_demo_codec w = Inr ''row''" for w
    using that by (auto simp: cell_demo_codec_def split: if_splits)
  from json cell_row_round_trip [OF json wf this] show ?thesis by blast
qed

end
