(* ===== verification/In_Memory_Repo.thy ===== *)
theory In_Memory_Repo
  imports Command_Ledger Projection_Properties
begin

text \<open>
  The in-memory repository (\<^verbatim>\<open>src/src/in_memory_repo/repository.rs\<close>): event streams, outbox,
  read-model rows, snapshots, inbox, command ledger and projection protocol behind one handle.
  Every transaction holds the locks of all stores it touches in one global order, so it is one
  step of the model. The record extends the projection backend, whose transactions therefore
  apply to the same state. Clock readings are arguments, one per call of \<^verbatim>\<open>crate::time::now()\<close>.
\<close>

section \<open>State\<close>

record in_memory_repository = projection_backend +
  im_events :: "(string, event_record list) hashmap"
  im_outbox :: "(string, outbox_message) hashmap"
  im_snapshots :: snapshot_store
  im_ledger :: "(ledger_key, ledger_record) hashmap"

definition in_memory_repository_new :: in_memory_repository where
  "in_memory_repository_new =
     \<lparr>pj_rows = [], pj_causal_tables = {}, pj_protocol = protocol_empty, pj_inbox = {},
      pj_retention = DEFAULT_MAX_RETAINED_PROJECTION_CHANGES, im_events = [], im_outbox = [],
      im_snapshots = [], im_ledger = []\<rparr>"

definition with_projection_change_retention ::
  "nat \<Rightarrow> in_memory_repository \<Rightarrow> in_memory_repository" where
  "with_projection_change_retention n repo = repo\<lparr>pj_retention := n\<rparr>"

definition replace_outbox :: "outbox_message list \<Rightarrow> in_memory_repository \<Rightarrow> in_memory_repository" where
  "replace_outbox ms repo =
     repo\<lparr>im_outbox := foldl (\<lambda>store m. AList.update (ob_id m) m store) [] ms\<rparr>"

fun restored_ledger ::
    "(ledger_key, ledger_record) hashmap \<Rightarrow> ledger_record list
       \<Rightarrow> repository_error + (ledger_key, ledger_record) hashmap" where
  "restored_ledger ledger [] = Inr ledger"
| "restored_ledger ledger (r # rs) =
     (if hm_contains ledger (lr_key r)
      then Inl (Model ''cell command ledger restore contains a duplicate key'')
      else restored_ledger (AList.update (lr_key r) r ledger) rs)"

definition replace_command_ledger ::
  "ledger_record list \<Rightarrow> in_memory_repository \<Rightarrow> in_memory_repository \<times> (repository_error + unit)" where
  "replace_command_ledger rs repo =
     (case restored_ledger [] rs of
        Inl e \<Rightarrow> (repo, Inl e)
      | Inr ledger \<Rightarrow> (repo\<lparr>im_ledger := ledger\<rparr>, Inr ()))"

definition repo_inbox_contains :: "in_memory_repository \<Rightarrow> string \<Rightarrow> string \<Rightarrow> bool" where
  "repo_inbox_contains repo consumer message_id \<longleftrightarrow> (consumer, message_id) \<in> pj_inbox repo"

definition clear_inbox :: "in_memory_repository \<Rightarrow> in_memory_repository \<times> nat" where
  "clear_inbox repo = (repo\<lparr>pj_inbox := {}\<rparr>, card (pj_inbox repo))"

section \<open>Commit errors\<close>

datatype in_memory_commit_error =
    CommitRepository repository_error
  | CommitLedger ledger_error
  | CommitProjection projection_error

datatype commit_fault = CommitFails in_memory_commit_error | CommitPanics

definition repo_fails :: "repository_error + 'a \<Rightarrow> commit_fault + 'a" where
  "repo_fails = map_err (\<lambda>e. CommitFails (CommitRepository e))"

definition table_fails :: "table_store_error + 'a \<Rightarrow> commit_fault + 'a" where
  "table_fails = map_err (\<lambda>e. CommitFails (CommitRepository (repository_error_from_table e)))"

definition ledger_fails :: "ledger_error + 'a \<Rightarrow> commit_fault + 'a" where
  "ledger_fails = map_err (\<lambda>e. CommitFails (CommitLedger e))"

definition projection_fails :: "projection_error + 'a \<Rightarrow> commit_fault + 'a" where
  "projection_fails = map_err (\<lambda>e. CommitFails (CommitProjection e))"

fun commit_fault_of :: "fault \<Rightarrow> commit_fault" where
  "commit_fault_of (Fails e) = CommitFails (CommitProjection e)"
| "commit_fault_of Panics = CommitPanics"

section \<open>The checks of a commit\<close>

definition check_direct_causation ::
  "completion option \<Rightarrow> direct_batch option \<Rightarrow> commit_fault + unit" where
  "check_direct_causation completion direct =
     (case direct of
        None \<Rightarrow> Inr ()
      | Some d \<Rightarrow>
          rbind (projection_fails (validate_direct_batch d)) (\<lambda>_.
          ledger_fails (
            rbind (ok_or (LInvalid ''same-transaction direct projection requires a command completion'')
                     completion) (\<lambda>c.
            if db_causation_id d \<noteq> at_causation_id (cm_attempt c)
            then Inl (LInvalid ''direct projection causation differs from its command attempt'')
            else Inr ()))))"

definition reject_causal_owned_plans ::
  "string set \<Rightarrow> table_write_plan list \<Rightarrow> table_store_error + unit" where
  "reject_causal_owned_plans causal plans =
     (case find (\<lambda>table. table \<in> causal) (map mutation_table_name (concat plans)) of
        Some table \<Rightarrow> Inl (TableCausalWriteRequired table)
      | None \<Rightarrow> Inr ())"

definition check_direct_tables :: "string set \<Rightarrow> direct_batch option \<Rightarrow> projection_error + unit" where
  "check_direct_tables causal direct =
     (case Option.bind direct (\<lambda>d. find (\<lambda>table. table \<notin> causal)
             (map (\<lambda>m. mutation_table_name (dm_mutation m)) (db_mutations d))) of
        Some table \<Rightarrow>
          Inl (invalid [''direct projection table `'', table, ''` is not registered as causal-owned''])
      | None \<Rightarrow> Inr ())"

definition fenced_record ::
  "(ledger_key, ledger_record) hashmap \<Rightarrow> completion \<Rightarrow> ledger_error + ledger_record" where
  "fenced_record ledger c =
     ok_or (AttemptFenced (lk_command_id (at_key (cm_attempt c))))
       (map_of ledger (at_key (cm_attempt c)))"

definition check_fence ::
  "system_time \<Rightarrow> (ledger_key, ledger_record) hashmap \<Rightarrow> completion option \<Rightarrow> ledger_error + unit" where
  "check_fence now ledger completion =
     (case completion of
        None \<Rightarrow> Inr ()
      | Some c \<Rightarrow>
          rbind (fenced_record ledger c) (\<lambda>r.
          validate_live_attempt r (attempt_fence_of (cm_attempt c)) now))"

definition stored_stream_version :: "event_record list option \<Rightarrow> nat" where
  "stored_stream_version evs = (case evs of None \<Rightarrow> 0 | Some evs \<Rightarrow> length evs)"

definition check_stream_versions ::
  "(string, event_record list) hashmap \<Rightarrow> prepared_append list \<Rightarrow> repository_error + unit" where
  "check_stream_versions events appends =
     try_each (\<lambda>a.
        let stored = stored_stream_version (map_of events (storage_key (pa_identity a))) in
        ensure (stored = pa_expected_version a)
          (ConcurrentWrite (display_identity (pa_identity a)) (pa_expected_version a) stored)) appends"

definition check_outbox ::
  "(string, outbox_message) hashmap \<Rightarrow> outbox_message list \<Rightarrow> repository_error + unit" where
  "check_outbox store ms =
     try_each (\<lambda>m. ensure (\<not> hm_contains store (ob_id m)) (DuplicateOutboxMessageInBatch (ob_id m))) ms"

fun check_receipts ::
    "(string \<times> string) set \<Rightarrow> (string \<times> string) set \<Rightarrow> inbox_receipt list \<Rightarrow> repository_error + unit" where
  "check_receipts inbox seen [] = Inr ()"
| "check_receipts inbox seen (r # rs) =
     rbind (validate_receipt r) (\<lambda>_.
     if receipt_key r \<in> inbox \<or> receipt_key r \<in> seen
     then Inl (DuplicateInboxReceipt (ir_consumer r) (ir_message_id r))
     else check_receipts inbox (insert (receipt_key r) seen) rs)"

section \<open>Staging\<close>

definition batch_rows :: "table_fmt \<Rightarrow> commit_batch \<Rightarrow> direct_batch option \<Rightarrow> string list" where
  "batch_rows fmt b direct =
     remdups (map (lock_key fmt) (concat (cb_read_model_plans b)) @
              (case direct of
                 None \<Rightarrow> []
               | Some d \<Rightarrow> map (\<lambda>m. lock_key fmt (dm_mutation m)) (db_mutations d)))"

text \<open>
  Rows, protocol state and evidence after the write plans and the direct projection, on a copy
  of the touched rows.
\<close>

definition stage_tables ::
  "table_fmt \<Rightarrow> commit_batch \<Rightarrow> direct_batch option \<Rightarrow> in_memory_repository
     \<Rightarrow> commit_fault + row_store \<times> protocol_state \<times> direct_evidence option" where
  "stage_tables fmt b direct repo =
     rbind (table_fails (try_fold (\<lambda>rows plan. apply_read_model_write_plan fmt plan rows)
              (select_rows (batch_rows fmt b direct) (pj_rows repo)) (cb_read_model_plans b))) (\<lambda>rows.
     case direct of
       None \<Rightarrow> Inr (rows, pj_protocol repo, None)
     | Some d \<Rightarrow>
         rbind (map_err commit_fault_of
                  (stage_same_transaction_projection fmt d (pj_retention repo) (pj_protocol repo) rows))
           (\<lambda>(st, rows, ev). Inr (rows, st, Some ev)))"

definition attach_evidence ::
  "ledger_codec \<Rightarrow> direct_evidence option \<Rightarrow> completion option \<Rightarrow> ledger_error + completion option" where
  "attach_evidence lc ev completion =
     (case (completion, ev) of
        (Some c, Some ev) \<Rightarrow> rbind (attach_direct_projection lc ev c) (\<lambda>c. Inr (Some c))
      | _ \<Rightarrow> Inr completion)"

definition stage_ledger_record ::
  "system_time \<Rightarrow> (ledger_key, ledger_record) hashmap \<Rightarrow> completion option
     \<Rightarrow> ledger_error + ledger_record option" where
  "stage_ledger_record now ledger completion =
     try_option (\<lambda>c. rbind (fenced_record ledger c) (\<lambda>r. ledger_complete r c now)) completion"

record staged_commit =
  sg_prepared :: "prepared_append list"
  sg_rows :: row_store
  sg_protocol :: protocol_state
  sg_ledger_record :: "ledger_record option"

text \<open>
  Everything that can fail. The three clock readings are those of the outbox row validation, of
  the attempt fence and of the staged completion.
\<close>

definition stage_batch ::
  "table_fmt \<Rightarrow> ledger_codec \<Rightarrow> system_time \<Rightarrow> system_time \<Rightarrow> system_time \<Rightarrow> commit_batch
     \<Rightarrow> completion option \<Rightarrow> direct_batch option \<Rightarrow> in_memory_repository
     \<Rightarrow> commit_fault + staged_commit" where
  "stage_batch fmt lc now0 now1 now2 b completion direct repo =
     (case validate_commit_batch now0 b of
        None \<Rightarrow> Inl CommitPanics
      | Some validated \<Rightarrow>
          rbind (repo_fails validated) (\<lambda>prepared.
          rbind (check_direct_causation completion direct) (\<lambda>_.
          rbind (table_fails (reject_causal_owned_plans (pj_causal_tables repo)
                                (cb_read_model_plans b))) (\<lambda>_.
          rbind (projection_fails (check_direct_tables (pj_causal_tables repo) direct)) (\<lambda>_.
          rbind (ledger_fails (check_fence now1 (im_ledger repo) completion)) (\<lambda>_.
          rbind (repo_fails (check_stream_versions (im_events repo) prepared)) (\<lambda>_.
          rbind (stage_tables fmt b direct repo) (\<lambda>(rows, st, ev).
          rbind (ledger_fails (attach_evidence lc ev completion)) (\<lambda>completion.
          rbind (repo_fails (check_outbox (im_outbox repo) (cb_outbox_messages b))) (\<lambda>_.
          rbind (repo_fails (check_receipts (pj_inbox repo) {} (cb_inbox_receipts b))) (\<lambda>_.
          rbind (ledger_fails (stage_ledger_record now2 (im_ledger repo) completion)) (\<lambda>rec.
          Inr \<lparr>sg_prepared = prepared, sg_rows = rows, sg_protocol = st,
               sg_ledger_record = rec\<rparr>))))))))))))"

section \<open>Publishing\<close>

definition append_events ::
  "prepared_append list \<Rightarrow> (string, event_record list) hashmap \<Rightarrow> (string, event_record list) hashmap" where
  "append_events appends events =
     foldl (\<lambda>events a.
        let k = storage_key (pa_identity a)
        in AList.update k (case map_of events k of None \<Rightarrow> pa_events a | Some evs \<Rightarrow> evs @ pa_events a)
             events) events appends"

fun insert_snapshot :: "snapshot_store \<Rightarrow> snapshot_write \<Rightarrow> snapshot_store" where
  "insert_snapshot store (Save i r) = AList.update (storage_key i) r store"

definition publish_batch ::
  "table_fmt \<Rightarrow> commit_batch \<Rightarrow> direct_batch option \<Rightarrow> staged_commit \<Rightarrow> in_memory_repository
     \<Rightarrow> in_memory_repository" where
  "publish_batch fmt b direct sg repo =
     repo\<lparr>im_events := append_events (sg_prepared sg) (im_events repo),
          pj_rows := merge_rows (batch_rows fmt b direct) (sg_rows sg) (pj_rows repo),
          im_snapshots := foldl insert_snapshot (im_snapshots repo) (cb_snapshots b),
          im_outbox := foldl (\<lambda>store m. AList.update (ob_id m) m store) (im_outbox repo)
                         (cb_outbox_messages b),
          pj_inbox := pj_inbox repo \<union> set (map receipt_key (cb_inbox_receipts b)),
          pj_protocol := sg_protocol sg,
          im_ledger := (case sg_ledger_record sg of
                          None \<Rightarrow> im_ledger repo
                        | Some r \<Rightarrow> AList.update (lr_key r) r (im_ledger repo))\<rparr>"

text \<open>The commit, and the caller's entities after it.\<close>

definition commit_batch_inner ::
  "table_fmt \<Rightarrow> ledger_codec \<Rightarrow> system_time \<Rightarrow> system_time \<Rightarrow> system_time \<Rightarrow> commit_batch
     \<Rightarrow> completion option \<Rightarrow> direct_batch option \<Rightarrow> in_memory_repository
     \<Rightarrow> in_memory_repository \<times> entity list \<times> (commit_fault + unit)" where
  "commit_batch_inner fmt lc now0 now1 now2 b completion direct repo =
     (case stage_batch fmt lc now0 now1 now2 b completion direct repo of
        Inl e \<Rightarrow> (repo, map sw_entity (cb_streams b), Inl e)
      | Inr sg \<Rightarrow>
          (publish_batch fmt b direct sg repo,
           map (\<lambda>w. mark_committed (sw_entity w)) (cb_streams b), Inr ()))"

datatype 'e outcome_fault = OutcomeFails 'e | OutcomePanics

definition commit_batch_repo ::
  "table_fmt \<Rightarrow> ledger_codec \<Rightarrow> system_time \<Rightarrow> system_time \<Rightarrow> system_time \<Rightarrow> commit_batch
     \<Rightarrow> in_memory_repository
     \<Rightarrow> in_memory_repository \<times> entity list \<times> (repository_error outcome_fault + unit)" where
  "commit_batch_repo fmt lc now0 now1 now2 b repo =
     map_prod id (map_prod id (map_err (\<lambda>e. case e of
          CommitPanics \<Rightarrow> OutcomePanics
        | CommitFails (CommitRepository e) \<Rightarrow> OutcomeFails e
        | CommitFails (CommitLedger e) \<Rightarrow> OutcomeFails (Model
            (''unexpected command ledger error in ordinary commit: '' @ display_ledger_error e))
        | CommitFails (CommitProjection e) \<Rightarrow> OutcomeFails (Model
            (''unexpected projection protocol error in ordinary commit: '' @
             display_projection_error e)))))
       (commit_batch_inner fmt lc now0 now1 now2 b None None repo)"

definition commit_causal_batch ::
  "table_fmt \<Rightarrow> ledger_codec \<Rightarrow> system_time \<Rightarrow> system_time \<Rightarrow> system_time \<Rightarrow> causal_commit_batch
     \<Rightarrow> in_memory_repository
     \<Rightarrow> in_memory_repository \<times> entity list \<times> (ledger_error outcome_fault + unit)" where
  "commit_causal_batch fmt lc now0 now1 now2 cb repo =
     map_prod id (map_prod id (map_err (\<lambda>e. case e of
          CommitPanics \<Rightarrow> OutcomePanics
        | CommitFails (CommitRepository e) \<Rightarrow> OutcomeFails (LStorage e)
        | CommitFails (CommitLedger e) \<Rightarrow> OutcomeFails e
        | CommitFails (CommitProjection e) \<Rightarrow>
            OutcomeFails (LStorage (Model (display_projection_error e))))))
       (commit_batch_inner fmt lc now0 now1 now2 (ca_domain cb) (Some (ca_completion cb))
          (ca_direct_projection cb) repo)"

section \<open>Streams\<close>

definition get_stream ::
  "system_time \<Rightarrow> stream_identity \<Rightarrow> in_memory_repository \<Rightarrow> entity option" where
  "get_stream now i repo =
     map_option (\<lambda>evs. load_from_history evs (set_id (si_aggregate_id i) (entity_new now)))
       (map_of (im_events repo) (storage_key i))"

definition get_stream_tail ::
  "system_time \<Rightarrow> stream_identity \<Rightarrow> nat \<Rightarrow> in_memory_repository \<Rightarrow> entity option" where
  "get_stream_tail now i after_version repo =
     map_option (\<lambda>evs.
         let true_version = foldl max 0 (map er_sequence evs);
             tail = filter (\<lambda>ev. after_version < er_sequence ev) evs;
             prefix = min after_version true_version
         in load_tail_from_history tail prefix (set_id (si_aggregate_id i) (entity_new now)))
       (map_of (im_events repo) (storage_key i))"

section \<open>Command ledger\<close>

definition reserve_command ::
  "ledger_codec \<Rightarrow> system_time \<Rightarrow> reservation \<Rightarrow> in_memory_repository
     \<Rightarrow> in_memory_repository \<times> (ledger_error + reservation_outcome)" where
  "reserve_command lc now z repo =
     (let put = (\<lambda>r. repo\<lparr>im_ledger := AList.update (rz_key z) r (im_ledger repo)\<rparr>) in
      case map_of (im_ledger repo) (rz_key z) of
        None \<Rightarrow>
          (case ledger_initial z now of
             Inl e \<Rightarrow> (repo, Inl e)
           | Inr r \<Rightarrow>
               (case acquired_attempt r of
                  Inl e \<Rightarrow> (repo, Inl e)
                | Inr a \<Rightarrow> (put r, Inr (Acquired a))))
      | Some r \<Rightarrow>
          (case classify_reservation r z now of
             Inl e \<Rightarrow> (repo, Inl e)
           | Inr DecideExpire \<Rightarrow> (put (expire now r), Inr OutcomeExpired)
           | Inr DecideReclaim \<Rightarrow>
               (case reclaim r z now of
                  Inl e \<Rightarrow> (repo, Inl e)
                | Inr r' \<Rightarrow> (put r', reservation_outcome_of lc r' DecideReclaim))
           | Inr d \<Rightarrow> (repo, reservation_outcome_of lc r d)))"

definition lookup_command ::
  "ledger_codec \<Rightarrow> system_time \<Rightarrow> ledger_key \<Rightarrow> lookup_scope \<Rightarrow> in_memory_repository
     \<Rightarrow> in_memory_repository \<times> (ledger_error + command_lookup)" where
  "lookup_command lc now key scope repo =
     (case map_of (im_ledger repo) key of
        None \<Rightarrow> (repo, Inr LookupUnknown)
      | Some r \<Rightarrow>
          if \<not> matches_lookup_scope r scope then (repo, Inr LookupUnknown)
          else if lr_state r \<noteq> LedgerExpired \<and> lr_retention_expires_at r \<le> now
          then (repo\<lparr>im_ledger := AList.update key (expire now r) (im_ledger repo)\<rparr>,
                ledger_lookup lc (expire now r))
          else (repo, ledger_lookup lc r))"

definition repo_mark_retryable_unknown ::
  "system_time \<Rightarrow> attempt_fence \<Rightarrow> in_memory_repository
     \<Rightarrow> in_memory_repository \<times> (ledger_error + unit)" where
  "repo_mark_retryable_unknown now f repo =
     (case map_of (im_ledger repo) (af_key f) of
        None \<Rightarrow> (repo, Inl (AttemptFenced (lk_command_id (af_key f))))
      | Some r \<Rightarrow>
          (case mark_retryable_unknown r f now of
             Inl e \<Rightarrow> (repo, Inl e)
           | Inr r' \<Rightarrow> (repo\<lparr>im_ledger := AList.update (af_key f) r' (im_ledger repo)\<rparr>, Inr ())))"

definition expiry_order :: "system_time \<times> ledger_key \<Rightarrow> system_time \<times> string \<times> string \<times> string" where
  "expiry_order c =
     (fst c, lk_service_id (snd c), lk_principal_partition (snd c), lk_command_id (snd c))"

definition compact_expired_commands ::
  "system_time \<Rightarrow> nat \<Rightarrow> in_memory_repository \<Rightarrow> in_memory_repository \<times> nat" where
  "compact_expired_commands now limit repo =
     (if limit = 0 then (repo, 0)
      else
        let candidates = sort_key expiry_order
              (map (\<lambda>(k, r). (lr_retention_expires_at r, k))
                (filter (\<lambda>(k, r). lr_state r \<noteq> LedgerExpired \<and> lr_retention_expires_at r \<le> now)
                  (im_ledger repo)))
        in foldl (\<lambda>(repo, n) (_, k).
              case map_of (im_ledger repo) k of
                Some r \<Rightarrow> (repo\<lparr>im_ledger := AList.update k (expire now r) (im_ledger repo)\<rparr>, n + 1)
              | None \<Rightarrow> (repo, n)) (repo, 0) (take limit candidates))"

section \<open>Inbox, snapshots and read models\<close>

definition purge_inbox_older_than :: "duration \<Rightarrow> in_memory_repository \<Rightarrow> in_memory_repository \<times> nat" where
  "purge_inbox_older_than age repo = (repo, 0)"

definition repo_save_snapshot ::
  "stream_identity \<Rightarrow> snapshot_record \<Rightarrow> in_memory_repository
     \<Rightarrow> in_memory_repository \<times> (repository_error + unit)" where
  "repo_save_snapshot i r repo =
     (case validate_for_identity r i of
        Inl e \<Rightarrow> (repo, Inl e)
      | Inr _ \<Rightarrow>
          (repo\<lparr>im_snapshots := AList.update (storage_key i) r (im_snapshots repo)\<rparr>, Inr ()))"

definition repo_delete_snapshot ::
  "stream_identity \<Rightarrow> in_memory_repository \<Rightarrow> in_memory_repository \<times> bool" where
  "repo_delete_snapshot i repo =
     (repo\<lparr>im_snapshots := AList.delete (storage_key i) (im_snapshots repo)\<rparr>,
      hm_contains (im_snapshots repo) (storage_key i))"

section \<open>What a successful commit did\<close>

lemma stage_batch_ok:
  assumes "stage_batch fmt lc now0 now1 now2 b completion direct repo = Inr sg"
  obtains ev completion' where
    "validate_commit_batch now0 b = Some (Inr (sg_prepared sg))"
    "check_direct_causation completion direct = Inr ()"
    "reject_causal_owned_plans (pj_causal_tables repo) (cb_read_model_plans b) = Inr ()"
    "check_direct_tables (pj_causal_tables repo) direct = Inr ()"
    "check_fence now1 (im_ledger repo) completion = Inr ()"
    "check_stream_versions (im_events repo) (sg_prepared sg) = Inr ()"
    "stage_tables fmt b direct repo = Inr (sg_rows sg, sg_protocol sg, ev)"
    "attach_evidence lc ev completion = Inr completion'"
    "check_outbox (im_outbox repo) (cb_outbox_messages b) = Inr ()"
    "check_receipts (pj_inbox repo) {} (cb_inbox_receipts b) = Inr ()"
    "stage_ledger_record now2 (im_ledger repo) completion' = Inr (sg_ledger_record sg)"
proof (cases "validate_commit_batch now0 b")
  case None
  with assms show thesis by (simp add: stage_batch_def)
next
  case (Some validated)
  from assms obtain prepared rows st ev completion' rec where parts:
    "validated = Inr prepared" "check_direct_causation completion direct = Inr ()"
    "reject_causal_owned_plans (pj_causal_tables repo) (cb_read_model_plans b) = Inr ()"
    "check_direct_tables (pj_causal_tables repo) direct = Inr ()"
    "check_fence now1 (im_ledger repo) completion = Inr ()"
    "check_stream_versions (im_events repo) prepared = Inr ()"
    "stage_tables fmt b direct repo = Inr (rows, st, ev)"
    "attach_evidence lc ev completion = Inr completion'"
    "check_outbox (im_outbox repo) (cb_outbox_messages b) = Inr ()"
    "check_receipts (pj_inbox repo) {} (cb_inbox_receipts b) = Inr ()"
    "stage_ledger_record now2 (im_ledger repo) completion' = Inr rec"
    and sg: "sg = \<lparr>sg_prepared = prepared, sg_rows = rows, sg_protocol = st, sg_ledger_record = rec\<rparr>"
    by (auto simp: stage_batch_def Some repo_fails_def table_fails_def ledger_fails_def
        projection_fails_def res_simps)
  show thesis by (rule that) (use parts Some in \<open>simp_all add: sg\<close>)
qed

lemma commit_batch_inner_cases:
  assumes "commit_batch_inner fmt lc now0 now1 now2 b completion direct repo = (repo', es, res)"
  obtains (failed) e where "res = Inl e" "repo' = repo" "es = map sw_entity (cb_streams b)"
  | (committed) sg where "res = Inr ()"
      "stage_batch fmt lc now0 now1 now2 b completion direct repo = Inr sg"
      "repo' = publish_batch fmt b direct sg repo"
      "es = map (\<lambda>w. mark_committed (sw_entity w)) (cb_streams b)"
  using assms
  by (cases "stage_batch fmt lc now0 now1 now2 b completion direct repo")
    (auto simp: commit_batch_inner_def)

lemma attach_evidence_completion:
  assumes "attach_evidence lc ev completion = Inr completion'"
  shows "map_option cm_attempt completion' = map_option cm_attempt completion \<and>
    map_option cm_state completion' = map_option cm_state completion"
proof (cases completion)
  case (Some c)
  show ?thesis
  proof (cases ev)
    case (Some e)
    with \<open>completion = Some c\<close> assms obtain c' where "attach_direct_projection lc e c = Inr c'"
      "completion' = Some c'" by (auto simp: attach_evidence_def res_simps)
    then show ?thesis
      by (elim attach_facts) (simp add: \<open>completion = Some c\<close>)
  qed (use assms Some in \<open>simp add: attach_evidence_def\<close>)
qed (use assms in \<open>simp add: attach_evidence_def\<close>)

text \<open>The ledger row a commit completes: the row of the attempt's key, still fenced by it.\<close>

definition completes_row :: "system_time \<Rightarrow> ledger_record \<Rightarrow> completion \<Rightarrow> ledger_record \<Rightarrow> bool" where
  "completes_row now r c r' \<longleftrightarrow>
     (\<exists>c'. cm_attempt c' = cm_attempt c \<and> cm_state c' = cm_state c \<and> ledger_complete r c' now = Inr r')"

lemma completes_rowI:
  "cm_attempt c' = cm_attempt c \<Longrightarrow> cm_state c' = cm_state c \<Longrightarrow> ledger_complete r c' now = Inr r' \<Longrightarrow>
     completes_row now r c r'"
  unfolding completes_row_def by blast

lemma completes_rowD:
  assumes "completes_row now r c r'"
  shows "matches_fence r (attempt_fence_of (cm_attempt c))" "lr_key r' = lr_key r"
    "lr_state r' = ledger_state_from (cm_state c)" "lr_causation_id r' = lr_causation_id r"
    "validate_stored_shape r = Inr () \<Longrightarrow> validate_stored_shape r' = Inr ()"
    "\<exists>lease. lr_lease_expires_at r = Some lease \<and> now < lease"
    "lr_attempt_number r' = lr_attempt_number r"
proof -
  from assms obtain c' where c': "cm_attempt c' = cm_attempt c" "cm_state c' = cm_state c"
    "ledger_complete r c' now = Inr r'" unfolding completes_row_def by blast
  from ledger_complete_ok [OF c'(3)] shape_complete [OF c'(3)] c'(1,2)
  show "matches_fence r (attempt_fence_of (cm_attempt c))" "lr_key r' = lr_key r"
    "lr_state r' = ledger_state_from (cm_state c)" "lr_causation_id r' = lr_causation_id r"
    "validate_stored_shape r = Inr () \<Longrightarrow> validate_stored_shape r' = Inr ()"
    "\<exists>lease. lr_lease_expires_at r = Some lease \<and> now < lease" by simp_all
  from c'(3) show "lr_attempt_number r' = lr_attempt_number r"
    by (auto simp: ledger_complete_def res_simps)
qed

lemma staged_ledger_record:
  assumes "stage_batch fmt lc now0 now1 now2 b (Some c) direct repo = Inr sg"
  obtains r r' where "map_of (im_ledger repo) (at_key (cm_attempt c)) = Some r"
    "completes_row now2 r c r'" "sg_ledger_record sg = Some r'"
  using assms
proof (rule stage_batch_ok, goal_cases)
  case (1 ev completion')
  from attach_evidence_completion [OF 1(9)] obtain c' where c': "completion' = Some c'"
    "cm_attempt c' = cm_attempt c" "cm_state c' = cm_state c" by (cases completion') auto
  with 1(12) obtain r r' where r: "map_of (im_ledger repo) (at_key (cm_attempt c)) = Some r"
    "ledger_complete r c' now2 = Inr r'" "sg_ledger_record sg = Some r'"
    by (auto simp: stage_ledger_record_def try_option_def fenced_record_def res_simps)
  show ?case by (rule 1(1) [OF r(1) completes_rowI [OF c'(2,3) r(2)] r(3)])
qed

lemma staged_no_ledger_record:
  assumes "stage_batch fmt lc now0 now1 now2 b None direct repo = Inr sg"
  shows "sg_ledger_record sg = None"
  using assms
proof (rule stage_batch_ok, goal_cases)
  case (1 ev completion')
  from attach_evidence_completion [OF 1(8)] 1(11) show ?case
    by (simp add: stage_ledger_record_def try_option_def)
qed

section \<open>Streams after a commit\<close>

definition stream_of :: "(string, event_record list) hashmap \<Rightarrow> string \<Rightarrow> event_record list" where
  "stream_of events k = (case map_of events k of None \<Rightarrow> [] | Some evs \<Rightarrow> evs)"

abbreviation append_key :: "prepared_append \<Rightarrow> string" where
  "append_key a \<equiv> storage_key (pa_identity a)"

lemma filter_key_absent: "k \<notin> f ` set xs \<Longrightarrow> filter (\<lambda>x. f x = k) xs = []"
  by (induction xs) auto

lemma append_events_Cons:
  "append_events (a # as) events =
     append_events as (AList.update (append_key a) (stream_of events (append_key a) @ pa_events a) events)"
  by (simp add: append_events_def stream_of_def Let_def split: option.split)

lemma stream_of_update: "stream_of (AList.update k evs events) = (stream_of events)(k := evs)"
  by (rule ext) (simp add: stream_of_def)

lemma stream_of_append_events:
  assumes "distinct (map append_key as)"
  shows "stream_of (append_events as events) k =
    stream_of events k @ concat (map pa_events (filter (\<lambda>a. append_key a = k) as))"
  using assms
proof (induction as arbitrary: events)
  case Nil
  then show ?case by (simp add: append_events_def)
next
  case (Cons a as)
  have "filter (\<lambda>b. append_key b = k) as = []" if "append_key a = k"
    using Cons.prems that by (intro filter_key_absent) simp
  with Cons show ?case
    by (auto simp: append_events_Cons stream_of_update)
qed

lemma stream_of_append_member:
  assumes "distinct (map append_key as)" "a \<in> set as"
  shows "stream_of (append_events as events) (append_key a) = stream_of events (append_key a) @ pa_events a"
proof -
  from assms obtain xs ys where as: "as = xs @ a # ys" by (meson split_list)
  with assms(1) have "filter (\<lambda>b. append_key b = append_key a) as = [a]"
    using filter_key_absent [of "append_key a" append_key xs] filter_key_absent [of "append_key a" append_key ys]
    by simp
  then show ?thesis by (simp add: stream_of_append_events [OF assms(1)])
qed

lemma append_events_contains:
  "hm_contains (append_events as events) k \<longleftrightarrow> hm_contains events k \<or> k \<in> append_key ` set as"
proof (induction as arbitrary: events)
  case Nil
  then show ?case by (simp add: append_events_def)
next
  case (Cons a as)
  then show ?case by (auto simp: append_events_Cons hm_contains_def)
qed

text \<open>What validation guarantees of the prepared appends when the batch's entities are sound.\<close>

definition batch_entities_ok :: "commit_batch \<Rightarrow> bool" where
  "batch_entities_ok b \<longleftrightarrow> list_all (\<lambda>w. entity_inv (sw_entity w)) (cb_streams b)"

definition append_of :: "stream_write \<Rightarrow> prepared_append" where
  "append_of w =
     \<lparr>pa_identity = sw_identity w, pa_expected_version = en_committed_version (sw_entity w),
      pa_events = drop (en_committed_version (sw_entity w) - en_prefix_version (sw_entity w))
                    (en_events (sw_entity w))\<rparr>"

lemma validated_batch:
  assumes "validate_commit_batch now b = Some (Inr prepared)" "batch_entities_ok b"
  shows "prepared = map append_of (cb_streams b)" "distinct (map append_key prepared)"
    "list_all (\<lambda>a. contiguous (pa_expected_version a) (pa_events a) \<and>
        pa_expected_version a + length (pa_events a) \<le> u64_max) prepared"
proof -
  have ws: "those (map from_stream_write ws) = Some (map append_of ws)"
    if "list_all (\<lambda>w. entity_inv (sw_entity w)) ws" for ws
    using that by (induction ws) (simp_all add: from_stream_write_def append_of_def new_events_inv)
  from assms(1) obtain u where "reject_duplicate_streams (cb_streams b) = Inr u"
    and "those (map from_stream_write (cb_streams b)) = Some prepared"
    by (auto simp: validate_commit_batch_def res_simps split: sum.splits)
  with ws [of "cb_streams b"] assms(2) have p: "prepared = map append_of (cb_streams b)"
    and d: "distinct (map (storage_key \<circ> sw_identity) (cb_streams b))"
    by (simp_all add: batch_entities_ok_def reject_duplicate_streams_ok)
  show "prepared = map append_of (cb_streams b)" by (rule p)
  show "distinct (map append_key prepared)"
    using d by (simp add: p append_of_def comp_def)
  have "contiguous (pa_expected_version (append_of w)) (pa_events (append_of w)) \<and>
      pa_expected_version (append_of w) + length (pa_events (append_of w)) \<le> u64_max"
    if "entity_inv (sw_entity w)" for w
    using new_events_inv [OF that] that by (simp add: append_of_def entity_inv_def)
  then show "list_all (\<lambda>a. contiguous (pa_expected_version a) (pa_events a) \<and>
        pa_expected_version a + length (pa_events a) \<le> u64_max) prepared"
    using assms(2) by (simp add: p batch_entities_ok_def list.pred_map comp_def list.pred_mono_strong)
qed

end
