(* ===== verification/Repo_Safety.thy ===== *)
theory Repo_Safety
  imports In_Memory_Repo
begin

text \<open>
  The transactions of the in-memory repository as a step relation, its invariant, and what a
  later state keeps of an earlier one: streams only grow, receipts stay, and a command's ledger
  row never goes back to an earlier attempt or out of a terminal state.
\<close>

section \<open>Projection transactions leave the other stores alone\<close>

lemma projection_step_more:
  assumes "projection_step fmt sha be be'"
  shows "projection_backend.more be' = projection_backend.more be"
  using assms
proof (cases rule: projection_step.cases)
  case (register t ow res)
  then show ?thesis
    by (auto simp: register_projection_models_def Let_def split: sum.splits if_splits)
next
  case (commit now b res)
  then show ?thesis
    by (auto simp: commit_projection_def split: sum.splits input_disposition.splits prod.splits)
next
  case (failure now fb res)
  then show ?thesis
    by (auto simp: record_projection_failure_def Let_def split: sum.splits prod.splits option.splits if_splits)
next
  case (repair t p f res)
  then show ?thesis
    by (auto simp: repair_projection_def Let_def split: sum.splits prod.splits option.splits if_splits)
next
  case (compact c res)
  then show ?thesis
    by (auto simp: compact_projection_changes_def Let_def split: sum.splits prod.splits option.splits if_splits)
qed simp_all

section \<open>Transactions\<close>

text \<open>
  One transaction of any client of the repository. Entities handed to a commit satisfy their own
  invariant, and reservations carry the non-blank command name their constructor demands.
  Replacing whole stores from a backup and clearing the inbox are outside the relation.
\<close>

inductive repo_step :: "table_fmt \<Rightarrow> ledger_codec \<Rightarrow> in_memory_repository \<Rightarrow> in_memory_repository \<Rightarrow> bool"
  for fmt lc where
  commit: "commit_batch_inner fmt lc now0 now1 now2 b completion direct repo = (repo', es, res) \<Longrightarrow>
    batch_entities_ok b \<Longrightarrow> repo_step fmt lc repo repo'"
| reserve: "reserve_command lc now z repo = (repo', out) \<Longrightarrow> \<not> blank (rz_command_name z) \<Longrightarrow>
    repo_step fmt lc repo repo'"
| lookup: "lookup_command lc now key scope repo = (repo', found) \<Longrightarrow> repo_step fmt lc repo repo'"
| retry: "repo_mark_retryable_unknown now f repo = (repo', marked) \<Longrightarrow> repo_step fmt lc repo repo'"
| compact: "compact_expired_commands now limit repo = (repo', n) \<Longrightarrow> repo_step fmt lc repo repo'"
| snapshot: "repo_save_snapshot i sr repo = (repo', saved) \<Longrightarrow> repo_step fmt lc repo repo'"
| drop_snapshot: "repo_delete_snapshot i repo = (repo', deleted) \<Longrightarrow> repo_step fmt lc repo repo'"
| projection: "projection_step fmt (lc_sha lc) repo repo' \<Longrightarrow> repo_step fmt lc repo repo'"

abbreviation repo_steps where
  "repo_steps fmt lc \<equiv> (repo_step fmt lc)\<^sup>*\<^sup>*"

section \<open>Ledger rows move forward\<close>

definition row_ok :: "ledger_key \<Rightarrow> ledger_record \<Rightarrow> bool" where
  "row_ok k r \<longleftrightarrow> lr_key r = k \<and> validate_stored_shape r = Inr ()"

text \<open>
  What a later row of the same key keeps: the command's identity, a terminal state for good, the
  recorded outcome until it expires, and the attempts already spent.
\<close>

definition row_identity :: "ledger_record \<Rightarrow> ledger_key \<times> string \<times> byte list \<times> byte list \<times> string" where
  "row_identity r =
     (lr_key r, lr_command_name r, lr_contract_fingerprint r, lr_input_hash r, lr_causation_id r)"

definition attempt_rank :: "ledger_record \<Rightarrow> nat \<times> nat" where
  "attempt_rank r = (lr_attempt_number r, if lr_state r = InProgress then 0 else 1)"

definition row_grows :: "ledger_record \<Rightarrow> ledger_record \<Rightarrow> bool" where
  "row_grows r r' \<longleftrightarrow>
     row_identity r' = row_identity r \<and> attempt_rank r \<le> attempt_rank r' \<and>
     (attempt_rank r' = attempt_rank r \<longrightarrow> lr_attempt_token r' = lr_attempt_token r) \<and>
     (settled (lr_state r) \<longrightarrow>
        lr_state r' = LedgerExpired \<or>
        lr_state r' = lr_state r \<and> lr_outcome_json r' = lr_outcome_json r)"

lemma row_grows_refl [simp]: "row_grows r r"
  by (simp add: row_grows_def)

lemma row_grows_trans: "row_grows a b \<Longrightarrow> row_grows b c \<Longrightarrow> row_grows a c"
  by (auto simp: row_grows_def settled_def)

lemma expire_grows: "row_ok k r \<Longrightarrow> row_grows r (expire now r)"
  by (auto simp: row_ok_def row_grows_def row_identity_def expire_def attempt_rank_def
      less_eq_prod_def validate_stored_shape_ok stored_shape_ok_def split: if_splits)

lemma reclaim_grows:
  assumes "reclaim r z now = Inr r'" "\<not> settled (lr_state r)"
  shows "row_grows r r'"
  using assms
  by (auto simp: reclaim_def res_simps row_grows_def row_identity_def attempt_rank_def less_eq_prod_def)

lemma mark_retryable_unknown_grows:
  assumes "mark_retryable_unknown r f now = Inr r'"
  shows "row_grows r r'"
  using assms
  by (auto simp: mark_retryable_unknown_def matches_fence_def row_grows_def row_identity_def
      attempt_rank_def less_eq_prod_def settled_def split: if_splits)

lemma completes_row_grows:
  assumes "completes_row now r c r'"
  shows "row_grows r r'"
proof -
  from assms obtain c' where "ledger_complete r c' now = Inr r'"
    unfolding completes_row_def by blast
  note fin = ledger_complete_ok [OF this] and num = completes_rowD(7) [OF assms]
  have "ledger_state_from s \<noteq> InProgress" for s by (cases s) simp_all
  moreover have "lr_state r = InProgress" using fin(1) by (simp add: matches_fence_def)
  ultimately show ?thesis
    using fin(3,5-7,9,10) num
    by (simp add: row_grows_def row_identity_def attempt_rank_def less_eq_prod_def settled_def)
qed

section \<open>The ledger moves forward\<close>

definition ledger_grows ::
  "(ledger_key, ledger_record) hashmap \<Rightarrow> (ledger_key, ledger_record) hashmap \<Rightarrow> bool" where
  "ledger_grows l l' \<longleftrightarrow>
     (\<forall>k. case map_of l k of
            None \<Rightarrow> True
          | Some r \<Rightarrow> (case map_of l' k of None \<Rightarrow> False | Some r' \<Rightarrow> row_grows r r'))"

lemma ledger_grows_refl [simp]: "ledger_grows l l"
  by (simp add: ledger_grows_def split: option.split)

lemma ledger_growsD:
  assumes "ledger_grows l l'" "map_of l k = Some r"
  obtains r' where "map_of l' k = Some r'" "row_grows r r'"
proof -
  from assms(1) have "case map_of l k of
            None \<Rightarrow> True
          | Some r \<Rightarrow> (case map_of l' k of None \<Rightarrow> False | Some r' \<Rightarrow> row_grows r r')"
    unfolding ledger_grows_def by (rule spec)
  with assms(2) that show thesis by (cases "map_of l' k") auto
qed

lemma ledger_growsI:
  assumes "\<And>k r. map_of l k = Some r \<Longrightarrow>
    (case map_of l' k of None \<Rightarrow> False | Some r' \<Rightarrow> row_grows r r')"
  shows "ledger_grows l l'"
  unfolding ledger_grows_def
proof
  fix k
  show "case map_of l k of None \<Rightarrow> True
    | Some r \<Rightarrow> (case map_of l' k of None \<Rightarrow> False | Some r' \<Rightarrow> row_grows r r')"
    by (cases "map_of l k") (auto intro: assms)
qed

lemma ledger_grows_trans:
  assumes "ledger_grows a b" "ledger_grows b c"
  shows "ledger_grows a c"
proof (rule ledger_growsI)
  fix k r
  assume "map_of a k = Some r"
  then obtain r' where r': "map_of b k = Some r'" "row_grows r r'" by (rule ledger_growsD [OF assms(1)])
  from r'(1) obtain r'' where "map_of c k = Some r''" "row_grows r' r''"
    by (rule ledger_growsD [OF assms(2)])
  with r'(2) show "case map_of c k of None \<Rightarrow> False | Some s \<Rightarrow> row_grows r s"
    by (simp add: row_grows_trans)
qed

lemma ledger_grows_update:
  assumes "case map_of l k of None \<Rightarrow> True | Some r \<Rightarrow> row_grows r r'"
  shows "ledger_grows l (AList.update k r' l)"
proof (rule ledger_growsI)
  fix k' r
  assume "map_of l k' = Some r"
  with assms show "case map_of (AList.update k r' l) k' of None \<Rightarrow> False | Some s \<Rightarrow> row_grows r s"
    by (cases "k' = k") (simp_all add: map_of_update)
qed

text \<open>Replacing one row by a sound later one.\<close>

definition ledger_keeps ::
  "(ledger_key, ledger_record) hashmap \<Rightarrow> (ledger_key, ledger_record) hashmap \<Rightarrow> bool" where
  "ledger_keeps l l' \<longleftrightarrow> (hm_all row_ok l \<longrightarrow> hm_all row_ok l' \<and> ledger_grows l l')"

lemma ledger_keeps_refl [simp]: "ledger_keeps l l"
  by (simp add: ledger_keeps_def)

lemma ledger_keeps_trans: "ledger_keeps a b \<Longrightarrow> ledger_keeps b c \<Longrightarrow> ledger_keeps a c"
  unfolding ledger_keeps_def using ledger_grows_trans by blast

lemma ledger_keeps_update:
  assumes "map_of l k = Some r" "row_ok k r \<Longrightarrow> row_ok k r'" "row_ok k r \<Longrightarrow> row_grows r r'"
  shows "ledger_keeps l (AList.update k r' l)"
  unfolding ledger_keeps_def
proof
  assume ok: "hm_all row_ok l"
  then have "row_ok k r" using assms(1) by (rule hm_all_lookup)
  with assms show "hm_all row_ok (AList.update k r' l) \<and> ledger_grows l (AList.update k r' l)"
    by (auto intro: hm_all_update [OF ok] ledger_grows_update)
qed

lemma ledger_keeps_insert:
  assumes "map_of l k = None" "row_ok k r"
  shows "ledger_keeps l (AList.update k r l)"
  using assms by (auto simp: ledger_keeps_def intro: hm_all_update ledger_grows_update)

lemma expire_ok: "row_ok k r \<Longrightarrow> row_ok k (expire now r)"
  by (simp add: row_ok_def shape_expire) (simp add: expire_def)

lemma ledger_keeps_expire: "map_of l k = Some r \<Longrightarrow> ledger_keeps l (AList.update k (expire now r) l)"
  by (erule ledger_keeps_update) (rule expire_ok expire_grows, assumption)+

section \<open>Every transaction moves the ledger forward\<close>

lemma classify_reclaim_open:
  assumes "classify_reservation r z now = Inr DecideReclaim"
  shows "\<not> settled (lr_state r)"
  using assms
  by (cases "lr_state r")
    (auto simp: classify_reservation_def settled_def res_simps split: if_splits)

lemma reserve_command_keeps:
  assumes "reserve_command lc now z repo = (repo', out)" "\<not> blank (rz_command_name z)"
  shows "ledger_keeps (im_ledger repo) (im_ledger repo') \<and> repo' = repo\<lparr>im_ledger := im_ledger repo'\<rparr>"
proof (cases "map_of (im_ledger repo) (rz_key z)")
  case None
  show ?thesis
  proof (cases "ledger_initial z now")
    case (Inr r)
    then have "acquired_attempt r \<noteq> Inl e" "row_ok (rz_key z) r" for e
      using shape_initial [OF Inr assms(2)]
      by (auto simp: ledger_initial_def acquired_attempt_def row_ok_def res_simps)
    with None Inr assms(1) show ?thesis
      by (auto simp: reserve_command_def Let_def ledger_keeps_insert split: sum.splits)
  qed (use None assms(1) in \<open>auto simp: reserve_command_def\<close>)
next
  case (Some r)
  show ?thesis
  proof (cases "classify_reservation r z now")
    case (Inr d)
    show ?thesis
    proof (cases d)
      case DecideReclaim
      show ?thesis
      proof (cases "reclaim r z now")
        case (Inr r')
        have un: "\<not> settled (lr_state r)"
          using \<open>classify_reservation r z now = Inr d\<close> DecideReclaim by (simp add: classify_reclaim_open)
        have "lr_key r' = lr_key r" using Inr by (auto simp: reclaim_def res_simps)
        then have "ledger_keeps (im_ledger repo) (AList.update (rz_key z) r' (im_ledger repo))"
          using shape_reclaim [OF Inr un] reclaim_grows [OF Inr un]
          by (intro ledger_keeps_update [OF Some]) (simp_all add: row_ok_def)
        with Some \<open>classify_reservation r z now = Inr d\<close> DecideReclaim Inr assms(1) show ?thesis
          by (auto simp: reserve_command_def Let_def)
      qed (use Some Inr DecideReclaim assms(1) in \<open>auto simp: reserve_command_def\<close>)
    qed (use Some Inr assms(1) in \<open>auto simp: reserve_command_def Let_def ledger_keeps_expire\<close>)
  qed (use Some assms(1) in \<open>auto simp: reserve_command_def\<close>)
qed

lemma lookup_command_keeps:
  assumes "lookup_command lc now key scope repo = (repo', found)"
  shows "ledger_keeps (im_ledger repo) (im_ledger repo') \<and> repo' = repo\<lparr>im_ledger := im_ledger repo'\<rparr>"
  using assms
  by (cases "map_of (im_ledger repo) key")
    (auto simp: lookup_command_def ledger_keeps_expire split: if_splits)

lemma repo_mark_retryable_unknown_keeps:
  assumes "repo_mark_retryable_unknown now f repo = (repo', out)"
  shows "ledger_keeps (im_ledger repo) (im_ledger repo') \<and> repo' = repo\<lparr>im_ledger := im_ledger repo'\<rparr>"
proof (cases "map_of (im_ledger repo) (af_key f)")
  case (Some r)
  show ?thesis
  proof (cases "mark_retryable_unknown r f now")
    case (Inr r')
    have "lr_key r' = lr_key r" using Inr by (auto simp: mark_retryable_unknown_def split: if_splits)
    then have "ledger_keeps (im_ledger repo) (AList.update (af_key f) r' (im_ledger repo))"
      using shape_mark_retryable_unknown [OF Inr] mark_retryable_unknown_grows [OF Inr]
      by (intro ledger_keeps_update [OF Some]) (simp_all add: row_ok_def)
    with Some Inr assms show ?thesis by (auto simp: repo_mark_retryable_unknown_def)
  qed (use Some assms in \<open>auto simp: repo_mark_retryable_unknown_def\<close>)
qed (use assms in \<open>auto simp: repo_mark_retryable_unknown_def\<close>)

lemma compact_expired_commands_keeps:
  assumes "compact_expired_commands now limit repo = (repo', n)"
  shows "ledger_keeps (im_ledger repo) (im_ledger repo') \<and> repo' = repo\<lparr>im_ledger := im_ledger repo'\<rparr>"
proof -
  have "ledger_keeps (im_ledger repo0) (im_ledger repo1) \<and> repo1 = repo0\<lparr>im_ledger := im_ledger repo1\<rparr>"
    if "foldl (\<lambda>(repo, n) (_, k).
              case map_of (im_ledger repo) k of
                Some r \<Rightarrow> (repo\<lparr>im_ledger := AList.update k (expire now r) (im_ledger repo)\<rparr>, n + 1)
              | None \<Rightarrow> (repo, n)) (repo0, m) cs = (repo1, m')"
    for repo0 repo1 :: in_memory_repository and m m' :: nat and cs :: "(system_time \<times> ledger_key) list"
    using that
  proof (induction cs arbitrary: repo0 m)
    case (Cons c cs)
    obtain t k where c: "c = (t, k)" by (cases c)
    show ?case
    proof (cases "map_of (im_ledger repo0) k")
      case (Some r)
      let ?repo = "repo0\<lparr>im_ledger := AList.update k (expire now r) (im_ledger repo0)\<rparr>"
      from Cons.prems Some c have "ledger_keeps (im_ledger ?repo) (im_ledger repo1) \<and>
          repo1 = ?repo\<lparr>im_ledger := im_ledger repo1\<rparr>"
        by (intro Cons.IH [of ?repo "m + 1"]) simp
      with ledger_keeps_expire [OF Some] show ?thesis
        by (auto intro: ledger_keeps_trans)
    qed (use Cons c in auto)
  qed simp
  with assms show ?thesis
    by (auto simp: compact_expired_commands_def Let_def split: if_splits)
qed

section \<open>Streams grow by whole commits\<close>

definition stream_ok :: "string \<Rightarrow> event_record list \<Rightarrow> bool" where
  "stream_ok k evs \<longleftrightarrow> contiguous 0 evs \<and> length evs \<le> u64_max"

definition append_fits :: "(string, event_record list) hashmap \<Rightarrow> prepared_append \<Rightarrow> bool" where
  "append_fits events a \<longleftrightarrow>
     length (stream_of events (append_key a)) = pa_expected_version a \<and>
     contiguous (pa_expected_version a) (pa_events a) \<and>
     pa_expected_version a + length (pa_events a) \<le> u64_max"

lemma stream_ok_lookup: "hm_all stream_ok events \<Longrightarrow> stream_ok k (stream_of events k)"
  by (cases "map_of events k") (auto simp: stream_of_def stream_ok_def dest: hm_all_lookup)

lemma append_events_ok:
  assumes "distinct (map append_key as)" "list_all (append_fits events) as" "hm_all stream_ok events"
  shows "hm_all stream_ok (append_events as events)"
  using assms
proof (induction as arbitrary: events)
  case (Cons a as)
  let ?events = "AList.update (append_key a) (stream_of events (append_key a) @ pa_events a) events"
  have "stream_ok (append_key a) (stream_of events (append_key a) @ pa_events a)"
    using Cons.prems(2) stream_ok_lookup [OF Cons.prems(3), of "append_key a"]
    by (simp add: stream_ok_def append_fits_def contiguous_append)
  then have "hm_all stream_ok ?events" by (rule hm_all_update [OF Cons.prems(3)])
  moreover have "list_all (append_fits ?events) as"
  proof -
    from Cons.prems(1) have "append_key a \<notin> append_key ` set as" by simp
    with Cons.prems(2) show ?thesis
      by (induction as) (auto simp: append_fits_def stream_of_update)
  qed
  ultimately show ?case
    using Cons by (simp add: append_events_Cons)
qed (simp add: append_events_def)

lemma check_stream_versions_ok:
  "check_stream_versions events as = Inr u \<longleftrightarrow>
     list_all (\<lambda>a. length (stream_of events (append_key a)) = pa_expected_version a) as"
proof -
  have "stored_stream_version (map_of events k) = length (stream_of events k)" for k
    by (simp add: stored_stream_version_def stream_of_def split: option.split)
  then show ?thesis
    by (simp add: check_stream_versions_def Let_def res_simps list_all_iff)
qed

lemma staged_appends:
  assumes "stage_batch fmt lc now0 now1 now2 b completion direct repo = Inr sg" "batch_entities_ok b"
  shows "sg_prepared sg = map append_of (cb_streams b)" "distinct (map append_key (sg_prepared sg))"
    "list_all (append_fits (im_events repo)) (sg_prepared sg)"
proof -
  from assms(1) have v: "validate_commit_batch now0 b = Some (Inr (sg_prepared sg))"
    and "check_stream_versions (im_events repo) (sg_prepared sg) = Inr ()"
    by (rule stage_batch_ok, simp)+
  note ok = validated_batch [OF v assms(2)]
  show "sg_prepared sg = map append_of (cb_streams b)" "distinct (map append_key (sg_prepared sg))"
    by (fact ok)+
  show "list_all (append_fits (im_events repo)) (sg_prepared sg)"
    using ok(3) \<open>check_stream_versions _ _ = _\<close>
    by (simp add: check_stream_versions_ok append_fits_def list_all_iff)
qed

section \<open>The invariant of the repository\<close>

definition repo_inv :: "in_memory_repository \<Rightarrow> bool" where
  "repo_inv repo \<longleftrightarrow>
     store_inv repo \<and> hm_all stream_ok (im_events repo) \<and> hm_all row_ok (im_ledger repo)"

definition repo_grows :: "in_memory_repository \<Rightarrow> in_memory_repository \<Rightarrow> bool" where
  "repo_grows repo repo' \<longleftrightarrow>
     history_kept repo repo' \<and> ledger_grows (im_ledger repo) (im_ledger repo') \<and>
     (\<forall>k. prefix (stream_of (im_events repo) k) (stream_of (im_events repo') k))"

lemma repo_inv_new: "repo_inv in_memory_repository_new"
proof -
  have "pj_protocol in_memory_repository_new = protocol_empty\<lparr>pr_registered_topologies := {}\<rparr>"
    by (simp add: in_memory_repository_new_def protocol_empty_def)
  then have "store_inv in_memory_repository_new" by (rule store_inv_empty)
  then show ?thesis by (simp add: repo_inv_def) (simp add: in_memory_repository_new_def)
qed

lemma repo_grows_refl: "repo_inv repo \<Longrightarrow> repo_grows repo repo"
  by (simp add: repo_grows_def repo_inv_def store_inv_def history_kept_refl)

lemma repo_grows_trans: "repo_grows a b \<Longrightarrow> repo_grows b c \<Longrightarrow> repo_grows a c"
  unfolding repo_grows_def using history_kept_trans ledger_grows_trans prefix_order.trans by blast

lemma stage_tables_protocol:
  assumes "stage_tables fmt b direct repo = Inr (rows, st, ev)" "store_inv repo"
  shows "protocol_inv st" "lineage_inv st" "advances (pj_protocol repo) st"
    "protocol_grows (pj_protocol repo) st"
proof -
  have "protocol_inv st \<and> lineage_inv st \<and> advances (pj_protocol repo) st \<and>
      protocol_grows (pj_protocol repo) st"
  proof (cases direct)
    case None
    with assms show ?thesis
      by (auto simp: stage_tables_def res_simps store_inv_def advances_refl protocol_grows_refl)
  next
    case (Some d)
    with assms(1) obtain rows0 where
      "stage_same_transaction_projection fmt d (pj_retention repo) (pj_protocol repo) rows0
         = Inr (st, rows, the ev)"
      by (auto simp: stage_tables_def res_simps)
    from direct_projection_keeps [OF this assms(2)] show ?thesis by blast
  qed
  then show "protocol_inv st" "lineage_inv st" "advances (pj_protocol repo) st"
    "protocol_grows (pj_protocol repo) st" by blast+
qed

lemma staged_ledger_keeps:
  assumes "stage_batch fmt lc now0 now1 now2 b completion direct repo = Inr sg"
  shows "ledger_keeps (im_ledger repo)
    (case sg_ledger_record sg of None \<Rightarrow> im_ledger repo
     | Some r \<Rightarrow> AList.update (lr_key r) r (im_ledger repo))"
proof (cases completion)
  case None
  with staged_no_ledger_record assms show ?thesis by simp
next
  case (Some c)
  with assms obtain r r' where r: "map_of (im_ledger repo) (at_key (cm_attempt c)) = Some r"
    and cr: "completes_row now2 r c r'" and sg: "sg_ledger_record sg = Some r'"
    by (auto elim: staged_ledger_record)
  have k: "lr_key r' = at_key (cm_attempt c)" "lr_key r' = lr_key r"
    using completes_rowD(1,2) [OF cr] by (simp_all add: matches_fence_def attempt_fence_of_def)
  have "ledger_keeps (im_ledger repo) (AList.update (at_key (cm_attempt c)) r' (im_ledger repo))"
    using completes_rowD(5) [OF cr] completes_row_grows [OF cr] k
    by (intro ledger_keeps_update [OF r]) (simp_all add: row_ok_def)
  then show ?thesis by (simp add: sg k(1))
qed

lemma publish_keeps:
  assumes st: "stage_batch fmt lc now0 now1 now2 b completion direct repo = Inr sg"
    and ok: "batch_entities_ok b" and inv: "repo_inv repo"
  shows "repo_inv (publish_batch fmt b direct sg repo) \<and> repo_grows repo (publish_batch fmt b direct sg repo)"
proof -
  let ?repo = "publish_batch fmt b direct sg repo"
  have sinv: "store_inv repo" and streams: "hm_all stream_ok (im_events repo)"
    and rows: "hm_all row_ok (im_ledger repo)"
    using inv by (simp_all add: repo_inv_def)
  from st obtain ev where "stage_tables fmt b direct repo = Inr (sg_rows sg, sg_protocol sg, ev)"
    by (rule stage_batch_ok)
  note prot = stage_tables_protocol [OF this sinv]
  note app = staged_appends [OF st ok]
  have pub: "pj_protocol ?repo = sg_protocol sg" "pj_inbox repo \<subseteq> pj_inbox ?repo"
    "im_events ?repo = append_events (sg_prepared sg) (im_events repo)"
    "im_ledger ?repo = (case sg_ledger_record sg of None \<Rightarrow> im_ledger repo
       | Some r \<Rightarrow> AList.update (lr_key r) r (im_ledger repo))"
    by (auto simp: publish_batch_def)
  have "store_inv ?repo" and "history_kept repo ?repo"
    using prot pub(1,2) by (simp_all add: store_inv_def history_kept_iff)
  moreover have "hm_all stream_ok (im_events ?repo)"
    unfolding pub(3) by (rule append_events_ok [OF app(2,3) streams])
  moreover have "hm_all row_ok (im_ledger ?repo)" "ledger_grows (im_ledger repo) (im_ledger ?repo)"
    using staged_ledger_keeps [OF st] rows by (simp_all add: ledger_keeps_def pub(4))
  moreover have "prefix (stream_of (im_events repo) k) (stream_of (im_events ?repo) k)" for k
    unfolding pub(3) stream_of_append_events [OF app(2)] by simp
  ultimately show ?thesis by (simp add: repo_inv_def repo_grows_def)
qed

lemma ledger_change_keeps:
  assumes "ledger_keeps (im_ledger repo) (im_ledger repo') \<and> repo' = repo\<lparr>im_ledger := im_ledger repo'\<rparr>"
    and "repo_inv repo"
  shows "repo_inv repo' \<and> repo_grows repo repo'"
proof -
  from assms(1) have eq: "pj_protocol repo' = pj_protocol repo" "pj_inbox repo' = pj_inbox repo"
    "im_events repo' = im_events repo"
    by (metis in_memory_repository.select_convs in_memory_repository.surjective
        in_memory_repository.update_convs projection_backend.select_convs)+
  have "hm_all row_ok (im_ledger repo')" "ledger_grows (im_ledger repo) (im_ledger repo')"
    using assms by (simp_all add: ledger_keeps_def repo_inv_def)
  then show ?thesis
    using assms(2)
    by (simp add: repo_inv_def repo_grows_def store_inv_def history_kept_iff eq advances_refl
        protocol_grows_refl)
qed

lemma more_stores:
  assumes "projection_backend.more repo' = projection_backend.more (repo :: in_memory_repository)"
  shows "im_events repo' = im_events repo" "im_ledger repo' = im_ledger repo"
    "im_outbox repo' = im_outbox repo" "im_snapshots repo' = im_snapshots repo"
  using assms by (cases repo; cases repo'; simp)+

lemma repo_step_keeps:
  assumes "repo_step fmt lc repo repo'" "repo_inv repo"
  shows "repo_inv repo' \<and> repo_grows repo repo'"
  using assms
proof (cases rule: repo_step.cases)
  case (commit now0 now1 now2 b completion direct es res)
  from commit(1) show ?thesis
  proof (cases rule: commit_batch_inner_cases)
    case failed
    with assms(2) show ?thesis by (simp add: repo_grows_refl)
  next
    case (committed sg)
    with publish_keeps [OF committed(2) commit(2) assms(2)] show ?thesis by simp
  qed
next
  case (reserve now z out)
  with assms(2) show ?thesis by (intro ledger_change_keeps reserve_command_keeps)
next
  case (lookup now key scope found)
  with assms(2) show ?thesis by (intro ledger_change_keeps lookup_command_keeps)
next
  case (retry now f marked)
  with assms(2) show ?thesis by (intro ledger_change_keeps repo_mark_retryable_unknown_keeps)
next
  case (compact now limit n)
  with assms(2) show ?thesis by (intro ledger_change_keeps compact_expired_commands_keeps)
next
  case (snapshot i sr saved)
  then have "repo_inv repo' \<and> pj_protocol repo' = pj_protocol repo \<and> pj_inbox repo' = pj_inbox repo \<and>
      im_events repo' = im_events repo \<and> im_ledger repo' = im_ledger repo"
    using assms(2) by (auto simp: repo_save_snapshot_def repo_inv_def store_inv_def split: sum.splits)
  with repo_grows_refl [OF assms(2)] show ?thesis
    by (simp add: repo_grows_def history_kept_iff)
next
  case (drop_snapshot i deleted)
  then have "repo_inv repo' \<and> pj_protocol repo' = pj_protocol repo \<and> pj_inbox repo' = pj_inbox repo \<and>
      im_events repo' = im_events repo \<and> im_ledger repo' = im_ledger repo"
    using assms(2) by (auto simp: repo_delete_snapshot_def repo_inv_def store_inv_def)
  with repo_grows_refl [OF assms(2)] show ?thesis
    by (simp add: repo_grows_def history_kept_iff)
next
  case projection
  have "store_inv repo" using assms(2) by (simp add: repo_inv_def)
  from projection_step_keeps [OF projection this] more_stores [OF projection_step_more [OF projection]]
    repo_grows_refl [OF assms(2)] assms(2)
  show ?thesis by (simp add: repo_inv_def repo_grows_def)
qed

lemma repo_steps_keep:
  assumes "repo_steps fmt lc repo repo'" "repo_inv repo"
  shows "repo_inv repo' \<and> repo_grows repo repo'"
  using assms
proof (induction rule: rtranclp_induct)
  case base
  then show ?case by (simp add: repo_grows_refl)
next
  case (step y z)
  with repo_step_keeps [OF step(2)] show ?case by (blast intro: repo_grows_trans)
qed

end
