(* ===== verification/Event_Store.thy ===== *)
theory Event_Store
  imports Dist_Prelude
begin

text \<open>
  The contract of an event store (\<^verbatim>\<open>GetStream\<close> and \<^verbatim>\<open>TransactionalCommit\<close> of
  \<^verbatim>\<open>src/src/repository/traits.rs\<close>) as its clients rely on it: streams are append-only logs, a
  batch of writes names each stream once with the version it was read at, and a commit either
  appends every write or none. The abstract store is a function from stream keys to events.
\<close>

definition log_append ::
  "('k \<times> nat \<times> 'e list) list \<Rightarrow> ('k \<Rightarrow> 'e list) \<Rightarrow> ('k \<Rightarrow> 'e list) option" where
  "log_append ws log =
     (if distinct (map fst ws) \<and> list_all (\<lambda>(k, n, evs). length (log k) = n) ws
      then Some (\<lambda>k. log k @ concat (map (snd \<circ> snd) (filter (\<lambda>w. fst w = k) ws)))
      else None)"

lemma log_append_version: "log_append ws log = Some log' \<Longrightarrow> (k, n, evs) \<in> set ws \<Longrightarrow> length (log k) = n"
  by (auto simp: log_append_def list_all_iff split: if_splits)

lemma log_append_written:
  assumes "log_append ws log = Some log'" "(k, n, evs) \<in> set ws"
  shows "log' k = log k @ evs"
proof -
  from assms(1) have d: "distinct (map fst ws)"
    and log': "log' = (\<lambda>k. log k @ concat (map (snd \<circ> snd) (filter (\<lambda>w. fst w = k) ws)))"
    by (auto simp: log_append_def split: if_splits)
  from assms(2) obtain xs ys where ws: "ws = xs @ (k, n, evs) # ys" by (meson split_list)
  have "k \<notin> fst ` set xs" "k \<notin> fst ` set ys" using d by (auto simp: ws)
  then have "filter (\<lambda>w. fst w = k) xs = []" "filter (\<lambda>w. fst w = k) ys = []"
    by (force simp: filter_empty_conv)+
  then show ?thesis by (simp add: log' ws)
qed

locale event_store =
  fixes inv :: "'s \<Rightarrow> bool"
    and ok :: "'b \<Rightarrow> bool"
    and commit :: "'c \<Rightarrow> 'b \<Rightarrow> 's \<Rightarrow> 's option"
    and read :: "'s \<Rightarrow> 'k \<Rightarrow> 'e list"
    and writes :: "'b \<Rightarrow> ('k \<times> nat \<times> 'e list) list"
    and step :: "'s \<Rightarrow> 's \<Rightarrow> bool"
  assumes commit_refines: "inv s \<Longrightarrow> ok b \<Longrightarrow> commit c b s = Some s' \<Longrightarrow>
      log_append (writes b) (read s) = Some (read s')"
    and commit_step: "ok b \<Longrightarrow> commit c b s = Some s' \<Longrightarrow> step s s'"
    and step_inv: "inv s \<Longrightarrow> step s s' \<Longrightarrow> inv s'"
    and step_grows: "inv s \<Longrightarrow> step s s' \<Longrightarrow> prefix (read s k) (read s' k)"
begin

lemma steps_grow:
  assumes "step\<^sup>*\<^sup>* s s'" "inv s"
  shows "inv s' \<and> prefix (read s k) (read s' k)"
  using assms
proof (induction rule: rtranclp_induct)
  case (step y z)
  then show ?case using step_inv step_grows prefix_order.trans by blast
qed simp

lemma stale_commit_fails:
  assumes "inv s" "step\<^sup>*\<^sup>* s s'" "ok b" "(k, n, evs) \<in> set (writes b)" "n < length (read s k)"
  shows "commit c b s' = None"
proof (rule ccontr)
  assume "commit c b s' \<noteq> None"
  then obtain s'' where c: "commit c b s' = Some s''" by blast
  have g: "inv s'" "prefix (read s k) (read s' k)" using steps_grow [OF assms(2,1)] by blast+
  from commit_refines [OF g(1) assms(3) c] assms(4) have "length (read s' k) = n"
    by (rule log_append_version)
  with prefix_length_le [OF g(2)] assms(5) show False by simp
qed

lemma no_lost_update:
  assumes "inv s" "ok b" "commit c b s = Some s'" "(k, n, evs) \<in> set (writes b)" "evs \<noteq> []"
    and "step\<^sup>*\<^sup>* s' s''" "ok b'" "(k, n', evs') \<in> set (writes b')" "n' \<le> n"
  shows "commit c' b' s'' = None"
proof (rule stale_commit_fails [OF _ assms(6-8)])
  show "inv s'" using step_inv [OF assms(1) commit_step [OF assms(2,3)]] .
  note app = commit_refines [OF assms(1-3)]
  have "length (read s k) = n" "read s' k = read s k @ evs"
    by (rule log_append_version [OF app assms(4)], rule log_append_written [OF app assms(4)])
  then show "n' < length (read s' k)" using assms(5,9) by (cases evs) simp_all
qed

end

end
