(* ===== verification/Repo_Properties.thy ===== *)
theory Repo_Properties
  imports Repo_Safety Event_Store
begin

text \<open>
  The guarantees of the in-memory repository that span its stores: a command's effects commit at
  most once and are replayed exactly, superseded attempts are fenced, received messages are
  processed once, and concurrent writers never overwrite each other's events.
\<close>

section \<open>Commits and the ledger\<close>

lemma committed_row:
  assumes "commit_batch_inner fmt lc now0 now1 now2 b (Some c) direct repo = (repo', es, Inr ())"
  obtains r r' where "map_of (im_ledger repo) (at_key (cm_attempt c)) = Some r"
    "completes_row now2 r c r'" "map_of (im_ledger repo') (at_key (cm_attempt c)) = Some r'"
  using assms
proof (cases rule: commit_batch_inner_cases)
  case (committed sg)
  from committed(2) obtain r r' where r: "map_of (im_ledger repo) (at_key (cm_attempt c)) = Some r"
    "completes_row now2 r c r'" "sg_ledger_record sg = Some r'" by (rule staged_ledger_record)
  have "lr_key r' = at_key (cm_attempt c)"
    using completes_rowD(1,2) [OF r(2)] by (simp add: matches_fence_def attempt_fence_of_def)
  with r(3) committed(3) have "map_of (im_ledger repo') (at_key (cm_attempt c)) = Some r'"
    by (simp add: publish_batch_def map_of_update)
  with r(1,2) that show thesis by blast
qed simp

lemma commit_refused:
  assumes "\<And>repo' es. commit_batch_inner fmt lc now0 now1 now2 b completion direct repo
    \<noteq> (repo', es, Inr ())"
  shows "\<exists>e. commit_batch_inner fmt lc now0 now1 now2 b completion direct repo
    = (repo, map sw_entity (cb_streams b), Inl e)"
proof -
  obtain repo' es res where eq: "commit_batch_inner fmt lc now0 now1 now2 b completion direct repo
    = (repo', es, res)" by (cases "commit_batch_inner fmt lc now0 now1 now2 b completion direct repo")
  then show ?thesis
    by (cases rule: commit_batch_inner_cases) (use eq assms in auto)
qed

lemma commit_moves_on:
  "commit_batch_inner fmt lc now0 now1 now2 b completion direct repo = (repo', es, res) \<Longrightarrow>
   batch_entities_ok b \<Longrightarrow> repo_inv repo \<Longrightarrow> repo_inv repo' \<and> repo_grows repo repo'"
  by (rule repo_step_keeps [OF repo_step.commit])

lemma later_row:
  assumes "repo_steps fmt lc repo repo'" "repo_inv repo" "map_of (im_ledger repo) k = Some r"
  obtains r' where "map_of (im_ledger repo') k = Some r'" "row_grows r r'" "row_ok k r'"
proof -
  have "repo_inv repo'" "ledger_grows (im_ledger repo) (im_ledger repo')"
    using repo_steps_keep [OF assms(1,2)] by (simp_all add: repo_grows_def)
  from this(2) assms(3) obtain r' where r': "map_of (im_ledger repo') k = Some r'" "row_grows r r'"
    by (rule ledger_growsD)
  with \<open>repo_inv repo'\<close> have "row_ok k r'"
    by (auto simp: repo_inv_def intro: hm_all_lookup)
  with r' that show thesis by blast
qed

lemma acquired_row:
  assumes "reserve_command lc now z repo = (repo', Inr (Acquired a))" "repo_inv repo"
  obtains r where "map_of (im_ledger repo') (at_key a) = Some r" "acquired_attempt r = Inr a"
    "lr_state r = InProgress" "at_key a = rz_key z"
proof (cases "map_of (im_ledger repo) (rz_key z)")
  case None
  from None assms(1) obtain r where r: "ledger_initial z now = Inr r" "acquired_attempt r = Inr a"
    "repo' = repo\<lparr>im_ledger := AList.update (rz_key z) r (im_ledger repo)\<rparr>"
    by (auto simp: reserve_command_def Let_def split: sum.splits)
  from r(1,2) have "at_key a = rz_key z" "lr_state r = InProgress"
    by (auto simp: ledger_initial_def acquired_attempt_def res_simps)
  with r that show thesis by (simp add: map_of_update)
next
  case (Some r0)
  from Some assms(1) obtain r where r: "reclaim r0 z now = Inr r" "acquired_attempt r = Inr a"
    "repo' = repo\<lparr>im_ledger := AList.update (rz_key z) r (im_ledger repo)\<rparr>"
    by (auto simp: reserve_command_def Let_def res_simps split: sum.splits reservation_decision.splits)
  have "lr_key r0 = rz_key z"
    using hm_all_lookup [OF _ Some, of row_ok] assms(2) by (simp add: repo_inv_def row_ok_def)
  with r(1,2) have "at_key a = rz_key z" "lr_state r = InProgress"
    by (auto simp: reclaim_def acquired_attempt_def res_simps)
  with r that show thesis by (simp add: map_of_update)
qed

section \<open>The repository is an event store\<close>

definition stream_append :: "stream_write \<Rightarrow> string \<times> nat \<times> event_record list" where
  "stream_append w =
     (storage_key (sw_identity w), en_committed_version (sw_entity w), pa_events (append_of w))"

definition batch_writes :: "commit_batch \<Rightarrow> (string \<times> nat \<times> event_record list) list" where
  "batch_writes b = map stream_append (cb_streams b)"

type_synonym repo_transaction = "commit_batch \<times> completion option \<times> direct_batch option"

definition commit_result_of ::
  "table_fmt \<Rightarrow> ledger_codec \<Rightarrow> system_time \<times> system_time \<times> system_time \<Rightarrow> repo_transaction
     \<Rightarrow> in_memory_repository \<Rightarrow> in_memory_repository option" where
  "commit_result_of fmt lc =
     (\<lambda>(now0, now1, now2) (b, completion, direct) repo.
        case commit_batch_inner fmt lc now0 now1 now2 b completion direct repo of
          (repo', es, res) \<Rightarrow> if isl res then None else Some repo')"

lemma commit_result_of_Some:
  "commit_result_of fmt lc (now0, now1, now2) (b, completion, direct) repo = Some repo' \<longleftrightarrow>
     (\<exists>es. commit_batch_inner fmt lc now0 now1 now2 b completion direct repo = (repo', es, Inr ()))"
  by (auto simp: commit_result_of_def isl_def split: prod.splits if_splits)
    (metis (full_types) old.unit.exhaust sum.exhaust)

lemma staged_log_append:
  assumes "stage_batch fmt lc now0 now1 now2 b completion direct repo = Inr sg" "batch_entities_ok b"
  shows "log_append (batch_writes b) (stream_of (im_events repo)) =
    Some (stream_of (append_events (sg_prepared sg) (im_events repo)))"
proof -
  note app = staged_appends [OF assms]
  have keys: "append_key (append_of w) = fst (stream_append w)"
    "pa_expected_version (append_of w) = fst (snd (stream_append w))"
    "pa_events (append_of w) = snd (snd (stream_append w))" for w
    by (simp_all add: append_of_def stream_append_def)
  have "distinct (map fst (batch_writes b))"
    using app(2) by (simp add: app(1) batch_writes_def keys comp_def)
  moreover have "list_all (\<lambda>(k, n, evs). length (stream_of (im_events repo) k) = n) (batch_writes b)"
    using app(3)
    by (simp add: app(1) batch_writes_def append_fits_def keys list.pred_map comp_def case_prod_beta)
      (erule list.pred_mono_strong, simp)
  moreover have "map pa_events (filter (\<lambda>a. append_key a = k) (map append_of ws)) =
      map (snd \<circ> snd) (filter (\<lambda>w. fst w = k) (map stream_append ws))" for k ws
    by (induction ws) (simp_all add: keys)
  ultimately show ?thesis
    by (simp add: log_append_def fun_eq_iff stream_of_append_events [OF app(2)])
      (simp add: app(1) batch_writes_def)
qed

interpretation memory: event_store repo_inv "\<lambda>(b, completion, direct). batch_entities_ok b"
  "commit_result_of fmt lc" "\<lambda>repo. stream_of (im_events repo)"
  "\<lambda>(b, completion, direct). batch_writes b" "repo_step fmt lc"
  for fmt lc
proof (unfold_locales, goal_cases)
  case (1 s b c s')
  obtain now0 now1 now2 where c: "c = (now0, now1, now2)" by (cases c)
  obtain bt cm d where b: "b = (bt, cm, d)" by (cases b)
  from 1(3) obtain es where "commit_batch_inner fmt lc now0 now1 now2 bt cm d s = (s', es, Inr ())"
    by (auto simp: c b commit_result_of_Some)
  then show ?case
    by (cases rule: commit_batch_inner_cases)
      (use 1(2) in \<open>auto simp: b staged_log_append publish_batch_def\<close>)
next
  case (2 b c s s')
  obtain now0 now1 now2 where c: "c = (now0, now1, now2)" by (cases c)
  obtain bt cm d where b: "b = (bt, cm, d)" by (cases b)
  from 2(2) obtain es where "commit_batch_inner fmt lc now0 now1 now2 bt cm d s = (s', es, Inr ())"
    by (auto simp: c b commit_result_of_Some)
  with 2(1) show ?case by (auto simp: b intro: repo_step.commit)
next
  case (3 s s')
  then show ?case using repo_step_keeps by blast
next
  case (4 s s' k)
  then show ?case using repo_step_keeps by (auto simp: repo_grows_def)
qed

section \<open>A concrete command\<close>

text \<open>One command that creates a to-do: its reservation, its attempt, its batch and its completion.\<close>

definition todo_codec :: ledger_codec where
  "todo_codec = cell_demo_codec\<lparr>
     lc_to_string := (\<lambda>v. Inr ''envelope''),
     lc_from_str := (\<lambda>s. Inr (JObject (replay_fields cell_demo_codec JNull JNull None))),
     lc_obligations_to_value := (\<lambda>obs. if obs = [] then Inr JNull else Inl []),
     lc_obligations_from_value := (\<lambda>v. Inr [])\<rparr>"

definition todo_reservation :: reservation where
  "todo_reservation =
     \<lparr>rz_key = \<lparr>lk_service_id = ''todo'', lk_principal_partition = ''p1'', lk_command_id = ''cmd''\<rparr>,
      rz_command_name = ''create'', rz_contract_fingerprint = replicate 32 1,
      rz_input_hash = replicate 32 2, rz_lease = 30, rz_retention = 900,
      rz_candidate_causation = ''cause'', rz_candidate_attempt = ''token''\<rparr>"

definition todo_attempt :: attempt where
  "todo_attempt = acquired_candidate_attempt todo_reservation"

definition todo_identity :: stream_identity where
  "todo_identity = \<lparr>si_aggregate_type = ''todo'', si_aggregate_id = ''7''\<rparr>"

definition todo_entity :: entity where
  "todo_entity = push_new_event 6 (event_record_new 5 ''created'' [1] 1) (with_id 4 ''7'')"

definition todo_batch :: commit_batch where
  "todo_batch = (commit_batch_new [\<lparr>sw_identity = todo_identity, sw_entity = todo_entity\<rparr>])
     \<lparr>cb_inbox_receipts := [inbox_receipt_new 5 ''todos'' ''m1'']\<rparr>"

definition todo_completion :: completion where
  "todo_completion = projr (attempt_complete todo_codec todo_attempt TerminalSucceeded JNull 900)"

definition todo_reserved :: in_memory_repository where
  "todo_reserved = fst (reserve_command todo_codec 10 todo_reservation in_memory_repository_new)"

definition todo_commit :: "in_memory_repository \<times> entity list \<times> (commit_fault + unit)" where
  "todo_commit = commit_batch_inner sample_fmt todo_codec 11 12 13 todo_batch (Some todo_completion)
     None todo_reserved"

lemma todo_reserves:
  "reserve_command todo_codec 10 todo_reservation in_memory_repository_new =
     (todo_reserved, Inr (Acquired todo_attempt))"
  by code_simp

lemma todo_commits:
  "commit_batch_inner sample_fmt todo_codec 11 12 13 todo_batch (Some todo_completion) None
     todo_reserved = (fst todo_commit, fst (snd todo_commit), Inr ())"
proof -
  have "snd (snd todo_commit) = Inr ()" by code_simp
  then show ?thesis by (metis prod.collapse todo_commit_def)
qed

lemma todo_batch_ok: "batch_entities_ok todo_batch"
  by code_simp

lemma todo_name: "\<not> blank (rz_command_name todo_reservation)"
  by code_simp

lemma todo_inv: "repo_inv todo_reserved"
  using repo_step_keeps [OF repo_step.reserve [OF todo_reserves todo_name] repo_inv_new] by simp

section \<open>Guarantees\<close>

text \<open>
  C1: The effects of a command are committed at most once. After one commit completed a command,
  and after any further transactions of any clients, every commit that carries a completion for
  the same command key is refused and leaves the repository and the caller's entities unchanged,
  whichever attempt, batch or clock it comes with.
\<close>

theorem command_committed_once:
  assumes "repo_inv repo" and "batch_entities_ok b"
    and "commit_batch_inner fmt lc now0 now1 now2 b (Some c) direct repo = (repo1, es, Inr ())"
    and "repo_steps fmt lc repo1 repo2"
    and "at_key (cm_attempt c') = at_key (cm_attempt c)"
  shows "\<exists>e. commit_batch_inner fmt lc t0 t1 t2 b' (Some c') direct' repo2
    = (repo2, map sw_entity (cb_streams b'), Inl e)"
proof (rule commit_refused, rule notI)
  fix repo3 es'
  assume again: "commit_batch_inner fmt lc t0 t1 t2 b' (Some c') direct' repo2 = (repo3, es', Inr ())"
  obtain r1 r1' where first: "completes_row now2 r1 c r1'"
    "map_of (im_ledger repo1) (at_key (cm_attempt c)) = Some r1'" by (rule committed_row [OF assms(3)])
  have inv1: "repo_inv repo1" using commit_moves_on [OF assms(3,2,1)] by simp
  obtain r2 where r2: "map_of (im_ledger repo2) (at_key (cm_attempt c)) = Some r2" "row_grows r1' r2"
    by (rule later_row [OF assms(4) inv1 first(2)])
  obtain r3 r3' where r3: "map_of (im_ledger repo2) (at_key (cm_attempt c')) = Some r3"
    "completes_row t2 r3 c' r3'" by (rule committed_row [OF again])
  have "lr_state r3 = InProgress" using completes_rowD(1) [OF r3(2)] by (simp add: matches_fence_def)
  moreover have "settled (lr_state r1')" using completes_rowD(3) [OF first(1)] by (simp add: settled_def)
  ultimately show False
    using r2 r3(1) assms(5) by (auto simp: row_grows_def settled_def)
qed

theorem command_committed_once_witness:
  "\<exists>e. commit_batch_inner sample_fmt todo_codec 14 15 16 todo_batch (Some todo_completion) None
         (fst todo_commit) = (fst todo_commit, [todo_entity], Inl e)"
proof -
  have "map sw_entity (cb_streams todo_batch) = [todo_entity]"
    by (simp add: todo_batch_def commit_batch_new_def)
  with command_committed_once [OF todo_inv todo_batch_ok todo_commits rtranclp.rtrancl_refl refl]
  show ?thesis by metis
qed

text \<open>
  C5: A newer reservation fences every older attempt. Once an attempt was handed out, a commit for
  the same command succeeds later only with that attempt or with one handed out after it: an
  older attempt, or another token with the same number, is refused.
\<close>

theorem superseded_attempt_fenced:
  assumes "repo_inv repo" and "\<not> blank (rz_command_name z)"
    and "reserve_command lc now z repo = (repo1, Inr (Acquired a))"
    and "repo_steps fmt lc repo1 repo2"
    and "commit_batch_inner fmt lc now0 now1 now2 b (Some c) direct repo2 = (repo3, es, Inr ())"
    and "at_key (cm_attempt c) = at_key a"
  shows "at_attempt_number a \<le> at_attempt_number (cm_attempt c) \<and>
    (at_attempt_number (cm_attempt c) = at_attempt_number a \<longrightarrow>
       at_attempt_token (cm_attempt c) = at_attempt_token a)"
proof -
  obtain r1 where r1: "map_of (im_ledger repo1) (at_key a) = Some r1" "acquired_attempt r1 = Inr a"
    "lr_state r1 = InProgress"
    by (rule acquired_row [OF assms(3,1)])
  have inv1: "repo_inv repo1"
    using repo_step_keeps [OF repo_step.reserve [OF assms(3,2)] assms(1)] by simp
  obtain r2 where r2: "map_of (im_ledger repo2) (at_key a) = Some r2" "row_grows r1 r2"
    by (rule later_row [OF assms(4) inv1 r1(1)])
  obtain r3 where "map_of (im_ledger repo2) (at_key (cm_attempt c)) = Some r3"
    "matches_fence r3 (attempt_fence_of (cm_attempt c))"
    using committed_row [OF assms(5)] completes_rowD(1) by metis
  with r2(1) assms(6) have fence: "matches_fence r2 (attempt_fence_of (cm_attempt c))" by simp
  from r1(2) have a: "lr_attempt_token r1 = Some (at_attempt_token a)"
    "lr_attempt_number r1 = at_attempt_number a"
    by (auto simp: acquired_attempt_def res_simps)
  from fence r2(2) a r1(3) show ?thesis
    by (auto simp: matches_fence_def attempt_fence_of_def row_grows_def attempt_rank_def
        less_eq_prod_def)
qed

theorem superseded_attempt_fenced_witness:
  "snd (snd todo_commit) = Inr () \<and>
   at_attempt_number todo_attempt \<le> at_attempt_number (cm_attempt todo_completion)"
proof -
  have k: "at_key (cm_attempt todo_completion) = at_key todo_attempt" by code_simp
  have "snd (snd todo_commit) = Inr ()" by code_simp
  with superseded_attempt_fenced [OF repo_inv_new todo_name todo_reserves rtranclp.rtrancl_refl
      todo_commits k]
  show ?thesis by blast
qed

lemma mark_committed_new_events: "entity_inv e \<Longrightarrow> new_events (mark_committed e) = Some []"
  by (simp add: new_events_def new_events_start_def mark_committed_def entity_inv_def)

text \<open>
  C4: The repository refines the abstract event log. A successful commit appends exactly the new
  events of the batch, each stream named once and at the version it was read at, and leaves the
  caller's entities with nothing more to commit; a failed one changes neither the repository nor
  the entities.
\<close>

theorem commit_refines_event_log:
  assumes "batch_entities_ok b"
    and "commit_batch_inner fmt lc now0 now1 now2 b completion direct repo = (repo', es, res)"
  shows "case res of
      Inl e \<Rightarrow> repo' = repo \<and> es = map sw_entity (cb_streams b)
    | Inr _ \<Rightarrow>
        log_append (batch_writes b) (stream_of (im_events repo)) = Some (stream_of (im_events repo')) \<and>
        list_all (\<lambda>e. new_events e = Some []) es"
  using assms(2)
proof (cases rule: commit_batch_inner_cases)
  case (committed sg)
  have "list_all (\<lambda>e. new_events e = Some []) es"
    using assms(1) by (simp add: committed(4) batch_entities_ok_def list.pred_map comp_def
        list.pred_mono_strong mark_committed_new_events)
  with staged_log_append [OF committed(2) assms(1)] show ?thesis
    by (simp add: committed(1,3) publish_batch_def)
qed simp

theorem commit_refines_event_log_witness:
  "log_append (batch_writes todo_batch) (stream_of (im_events todo_reserved)) =
     Some (stream_of (im_events (fst todo_commit)))"
  using commit_refines_event_log [OF todo_batch_ok todo_commits] by simp

text \<open>
  C3: Concurrent writers never lose an update. When two writers read a stream at the same
  version, or the second even earlier, and the first has committed at least one event, every
  later commit of the second is refused without any effect, whatever happened in between.
\<close>

theorem concurrent_writers_conflict:
  assumes "repo_inv repo" and "batch_entities_ok b" and "batch_entities_ok b'"
    and "commit_batch_inner fmt lc now0 now1 now2 b completion direct repo = (repo1, es, Inr ())"
    and "repo_steps fmt lc repo1 repo2"
    and "(k, n, evs) \<in> set (batch_writes b)" and "evs \<noteq> []"
    and "(k, n', evs') \<in> set (batch_writes b')" and "n' \<le> n"
  shows "\<exists>e. commit_batch_inner fmt lc t0 t1 t2 b' completion' direct' repo2
    = (repo2, map sw_entity (cb_streams b'), Inl e)"
proof (rule commit_refused, rule notI)
  fix repo3 es'
  assume "commit_batch_inner fmt lc t0 t1 t2 b' completion' direct' repo2 = (repo3, es', Inr ())"
  then have "commit_result_of fmt lc (t0, t1, t2) (b', completion', direct') repo2 = Some repo3"
    by (simp add: commit_result_of_Some)
  moreover have "commit_result_of fmt lc (now0, now1, now2) (b, completion, direct) repo = Some repo1"
    using assms(4) by (simp add: commit_result_of_Some)
  note first = memory.no_lost_update [OF assms(1) _ this, where b' = "(b', completion', direct')"]
  have "commit_result_of fmt lc (t0, t1, t2) (b', completion', direct') repo2 = None"
    by (rule first) (use assms in simp_all)
  ultimately show False by simp
qed

theorem concurrent_writers_conflict_witness:
  "\<exists>e. commit_batch_inner sample_fmt todo_codec 14 15 16 todo_batch None None (fst todo_commit)
         = (fst todo_commit, [todo_entity], Inl e)"
proof -
  have w: "(storage_key todo_identity, 0, [event_record_new 5 ''created'' [1] 1]) \<in> set (batch_writes todo_batch)"
    by code_simp
  have "map sw_entity (cb_streams todo_batch) = [todo_entity]"
    by (simp add: todo_batch_def commit_batch_new_def)
  with concurrent_writers_conflict [OF todo_inv todo_batch_ok todo_batch_ok todo_commits
      rtranclp.rtrancl_refl w _ w order_refl]
  show ?thesis by (metis list.distinct(1))
qed

lemma committed_receipts:
  assumes "commit_batch_inner fmt lc now0 now1 now2 b completion direct repo = (repo', es, Inr ())"
  shows "set (map receipt_key (cb_inbox_receipts b)) \<subseteq> pj_inbox repo'"
    and "set (map receipt_key (cb_inbox_receipts b)) \<inter> pj_inbox repo = {}"
proof -
  have fresh: "check_receipts inbox seen rs = Inr () \<Longrightarrow> set (map receipt_key rs) \<inter> inbox = {}"
    for inbox seen rs
    by (induction inbox seen rs rule: check_receipts.induct) (auto simp: res_simps split: if_splits)
  from assms show "set (map receipt_key (cb_inbox_receipts b)) \<subseteq> pj_inbox repo'"
    by (cases rule: commit_batch_inner_cases) (simp_all add: publish_batch_def)
  from assms show "set (map receipt_key (cb_inbox_receipts b)) \<inter> pj_inbox repo = {}"
  proof (cases rule: commit_batch_inner_cases)
    case (committed sg)
    from committed(2) have "check_receipts (pj_inbox repo) {} (cb_inbox_receipts b) = Inr ()"
      by (rule stage_batch_ok)
    then show ?thesis by (rule fresh)
  qed simp
qed



text \<open>The row a commit completes replays the outcome its completion was built with.\<close>

lemma committed_row_replays:
  assumes comp: "complete_with_replay_metadata lc a s out obs md retention until = Inr c"
    and commit: "commit_batch_inner fmt lc now0 now1 now2 b (Some c) direct repo = (repo', es, Inr ())"
    and laws: "\<And>rows st ev. stage_tables fmt b direct repo = Inr (rows, st, ev) \<Longrightarrow>
      replay_lossless lc out obs md (map_option (replay_value (lc_replay lc)) ev)"
  obtains r rep where "map_of (im_ledger repo') (at_key a) = Some r" "ledger_replay lc r = Inr rep"
    "cr_replay_outcome rep = out" "cr_projection_obligations rep = obs"
    "cr_projection_metadata rep = md" "cr_state rep = ledger_state_from s"
    "cr_causation_id rep = at_causation_id a" "lr_state r = ledger_state_from s"
    "lr_contract_fingerprint r = at_contract_fingerprint a" "lr_input_hash r = at_input_hash a"
  using commit
proof (cases rule: commit_batch_inner_cases)
  case (committed sg)
  have c: "cm_attempt c = a" "cm_state c = s" using comp by (auto elim: completion_facts)
  from committed(2) obtain ev completion' where
    tables: "stage_tables fmt b direct repo = Inr (sg_rows sg, sg_protocol sg, ev)"
    and att: "attach_evidence lc ev (Some c) = Inr completion'"
    and rec: "stage_ledger_record now2 (im_ledger repo) completion' = Inr (sg_ledger_record sg)"
    by (rule stage_batch_ok)
  from att obtain c' where c': "completion' = Some c'"
    "case ev of None \<Rightarrow> c' = c | Some e \<Rightarrow> attach_direct_projection lc e c = Inr c'"
    by (cases ev) (auto simp: attach_evidence_def res_simps)
  have attempt: "cm_attempt c' = a" "cm_state c' = s"
    using attach_evidence_completion [OF att] c c'(1) by simp_all
  from rec c'(1) attempt(1) obtain r r' where r: "map_of (im_ledger repo) (at_key a) = Some r"
    "ledger_complete r c' now2 = Inr r'" "sg_ledger_record sg = Some r'"
    by (auto simp: stage_ledger_record_def try_option_def fenced_record_def res_simps)
  note fin = ledger_complete_ok [OF r(2)]
  have f: "lr_key r' = at_key a" "lr_contract_fingerprint r' = at_contract_fingerprint a"
    "lr_input_hash r' = at_input_hash a"
    using fin(1,5,9,10) attempt by (simp_all add: matches_fence_def attempt_fence_of_def)
  with committed(3) r(3) have "map_of (im_ledger repo') (at_key a) = Some r'"
    by (simp add: publish_batch_def map_of_update)
  with completed_row_replays [OF comp c'(2) r(2) laws [OF tables]] f(2,3) fin(3) attempt(2) that
  show thesis by simp
qed simp

text \<open>
  C6: A committed command is answered from its record. After a command committed with a given
  outcome, and after any further transactions, reserving the same command again never starts a
  new attempt: it replays exactly that outcome with its obligations, metadata, state and
  causation, or reports that the record expired, or a conflict when the reservation names
  another command. The JSON and base64 codecs are assumed to be lossless on the recorded values.
\<close>

theorem committed_command_replays:
  assumes "repo_inv repo" and "batch_entities_ok b"
    and "complete_with_replay_metadata lc a s out obs md retention until = Inr c"
    and "commit_batch_inner fmt lc now0 now1 now2 b (Some c) direct repo = (repo1, es, Inr ())"
    and "\<And>rows st ev. stage_tables fmt b direct repo = Inr (rows, st, ev) \<Longrightarrow>
      replay_lossless lc out obs md (map_option (replay_value (lc_replay lc)) ev)"
    and "repo_steps fmt lc repo1 repo2"
    and "rz_key z = at_key a" "rz_contract_fingerprint z = at_contract_fingerprint a"
    "rz_input_hash z = at_input_hash a"
  shows "case snd (reserve_command lc now z repo2) of
      Inr (OutcomeReplay rep) \<Rightarrow>
        cr_replay_outcome rep = out \<and> cr_projection_obligations rep = obs \<and>
        cr_projection_metadata rep = md \<and> cr_state rep = ledger_state_from s \<and>
        cr_causation_id rep = at_causation_id a
    | Inr OutcomeExpired \<Rightarrow> True
    | Inr OutcomeConflict \<Rightarrow>
        map_option lr_command_name (map_of (im_ledger repo2) (at_key a)) \<noteq> Some (rz_command_name z)
    | _ \<Rightarrow> False"
proof -
  from assms(3-5) obtain r rep where r: "map_of (im_ledger repo1) (at_key a) = Some r"
    "ledger_replay lc r = Inr rep" and rep: "cr_replay_outcome rep = out"
    "cr_projection_obligations rep = obs" "cr_projection_metadata rep = md"
    "cr_state rep = ledger_state_from s" "cr_causation_id rep = at_causation_id a"
    and st: "lr_state r = ledger_state_from s"
    and ident: "lr_contract_fingerprint r = at_contract_fingerprint a" "lr_input_hash r = at_input_hash a"
    by (rule committed_row_replays)
  have inv1: "repo_inv repo1" using commit_moves_on [OF assms(4,2,1)] by simp
  obtain r2 where r2: "map_of (im_ledger repo2) (at_key a) = Some r2" "row_grows r r2"
    by (rule later_row [OF assms(6) inv1 r(1)])
  have id2: "lr_contract_fingerprint r2 = at_contract_fingerprint a" "lr_input_hash r2 = at_input_hash a"
    "lr_key r2 = lr_key r" "lr_command_name r2 = lr_command_name r" "lr_causation_id r2 = lr_causation_id r"
    using r2(2) ident by (auto simp: row_grows_def row_identity_def)
  show ?thesis
  proof (cases "lr_state r2 = LedgerExpired")
    case True
    then show ?thesis
      using r2(1) assms(7) by (simp add: reserve_command_def Let_def classify_reservation_def)
  next
    case False
    with r2(2) st have same: "lr_state r2 = ledger_state_from s" "lr_outcome_json r2 = lr_outcome_json r"
      by (auto simp: row_grows_def settled_def)
    have "ledger_replay lc r2 = Inr rep"
      using ledger_replay_cong [of r2 r lc] id2 same st r(2) by simp
    moreover have "ledger_state_from s \<noteq> InProgress" "ledger_state_from s \<noteq> RetryableUnknown"
      by (cases s; simp)+
    ultimately show ?thesis
      using r2(1) assms(7-9) id2 same(1) rep
      by (simp add: reserve_command_def Let_def classify_reservation_def)
  qed
qed

lemma todo_completes:
  "complete_with_replay_metadata todo_codec todo_attempt TerminalSucceeded JNull [] None 900 None =
     Inr todo_completion"
  by code_simp

lemma todo_lossless: "replay_lossless todo_codec JNull [] None None"
  by (simp add: replay_lossless_def obligations_lossless_def json_lossless_def todo_codec_def
      with_direct_field_def replay_fields_def)

lemma todo_laws:
  "stage_tables sample_fmt todo_batch None todo_reserved = Inr (rows, st, ev) \<Longrightarrow>
     replay_lossless todo_codec JNull [] None (map_option (replay_value (lc_replay todo_codec)) ev)"
  using todo_lossless by (auto simp: stage_tables_def res_simps)

theorem committed_command_replays_witness:
  "\<exists>rep. snd (reserve_command todo_codec 20 todo_reservation (fst todo_commit)) = Inr (OutcomeReplay rep)
     \<and> cr_replay_outcome rep = JNull \<and> cr_causation_id rep = ''cause''"
proof -
  have ident: "rz_key todo_reservation = at_key todo_attempt"
    "rz_contract_fingerprint todo_reservation = at_contract_fingerprint todo_attempt"
    "rz_input_hash todo_reservation = at_input_hash todo_attempt" "at_causation_id todo_attempt = ''cause''"
    by code_simp+
  have "\<not> (case snd (reserve_command todo_codec 20 todo_reservation (fst todo_commit)) of
      Inr OutcomeExpired \<Rightarrow> True | Inr OutcomeConflict \<Rightarrow> True | _ \<Rightarrow> False)" by code_simp
  moreover have "case snd (reserve_command todo_codec 20 todo_reservation (fst todo_commit)) of
      Inr (OutcomeReplay rep) \<Rightarrow>
        cr_replay_outcome rep = JNull \<and> cr_projection_obligations rep = [] \<and>
        cr_projection_metadata rep = None \<and> cr_state rep = ledger_state_from TerminalSucceeded \<and>
        cr_causation_id rep = at_causation_id todo_attempt
    | Inr OutcomeExpired \<Rightarrow> True
    | Inr OutcomeConflict \<Rightarrow> map_option lr_command_name
        (map_of (im_ledger (fst todo_commit)) (at_key todo_attempt)) \<noteq> Some (rz_command_name todo_reservation)
    | _ \<Rightarrow> False"
    by (rule committed_command_replays [OF todo_inv todo_batch_ok todo_completes todo_commits _
          rtranclp.rtrancl_refl ident(1,2,3)]) (rule todo_laws)
  ultimately show ?thesis using ident(4)
    by (auto split: sum.splits reservation_outcome.splits)
qed

lemma contiguous_sequences:
  "contiguous 0 evs \<longleftrightarrow> map er_sequence evs = [1..<Suc (length evs)]"
proof -
  have "contiguous n evs \<longleftrightarrow> map er_sequence evs = [Suc n..<Suc (n + length evs)]" for n
    by (induction evs arbitrary: n) (auto simp: upt_rec)
  from this [of 0] show ?thesis by simp
qed

lemma foldl_max_upt: "foldl max 0 [1..<Suc n] = n"
  by (induction n) auto

lemma contiguous_top: "contiguous 0 evs \<Longrightarrow> foldl max 0 (map er_sequence evs) = length evs"
  unfolding contiguous_sequences using foldl_max_upt [of "length evs"] by simp

text \<open>
  C11: Every state the repository can reach from an empty one is well formed. Each event stream
  numbers its events from one without gaps, each ledger row is filed under its own key and passes
  the validation the durable backends apply when they read a row back, and the projection state
  satisfies its invariant.
\<close>

theorem repository_well_formed:
  assumes "repo_steps fmt lc in_memory_repository_new repo"
  shows "store_inv repo \<and>
    hm_all (\<lambda>k evs. map er_sequence evs = [1..<Suc (length evs)] \<and> length evs \<le> u64_max) (im_events repo) \<and>
    hm_all (\<lambda>k r. lr_key r = k \<and> validate_stored_shape r = Inr ()) (im_ledger repo)"
  using repo_steps_keep [OF assms repo_inv_new]
  by (simp add: repo_inv_def row_ok_def [abs_def] stream_ok_def [abs_def] contiguous_sequences)

theorem repository_well_formed_witness:
  "map er_sequence (stream_of (im_events (fst todo_commit)) (storage_key todo_identity)) = [1]"
proof -
  have steps: "repo_steps sample_fmt todo_codec in_memory_repository_new todo_reserved"
    using repo_step.reserve [OF todo_reserves todo_name] by (rule r_into_rtranclp)
  have "repo_step sample_fmt todo_codec todo_reserved (fst todo_commit)"
    using todo_commits todo_batch_ok by (rule repo_step.commit)
  with steps have reach: "repo_steps sample_fmt todo_codec in_memory_repository_new (fst todo_commit)"
    by (rule rtranclp.rtrancl_into_rtrancl)
  have s: "map_of (im_events (fst todo_commit)) (storage_key todo_identity) =
      Some [event_record_new 5 ''created'' [1] 1]"
    by code_simp
  with repository_well_formed [OF reach] show ?thesis
    by (auto simp: stream_of_def dest: hm_all_lookup)
qed

text \<open>
  C14: Loading only the tail of a stream agrees with loading all of it. In a well-formed
  repository the entity read after a version is the fully loaded one with the events up to that
  version dropped: it is found for the same streams, and has the same stream version and the same
  committed version, also when the requested version lies past the end. Both are consistent
  entities.
\<close>

theorem tail_load_agrees:
  assumes "repo_inv repo"
  shows "get_stream_tail now i v repo =
      map_option (\<lambda>e. e\<lparr>en_events := drop v (en_events e), en_prefix_version := min v (en_version e)\<rparr>)
        (get_stream now i repo) \<and>
    pred_option entity_inv (get_stream now i repo) \<and>
    pred_option entity_inv (get_stream_tail now i v repo)"
proof (cases "map_of (im_events repo) (storage_key i)")
  case None
  then show ?thesis by (simp add: get_stream_def get_stream_tail_def)
next
  case (Some evs)
  with assms have ok: "contiguous 0 evs" "length evs \<le> u64_max"
    by (auto simp: repo_inv_def stream_ok_def dest: hm_all_lookup)
  have len: "min v (length evs) + (length evs - v) = length evs" by simp
  have drop: "contiguous (min v (length evs)) (drop v evs)"
    using contiguous_drop [OF ok(1), of v] by (cases "v \<le> length evs") simp_all
  from Some ok len drop show ?thesis
    by (simp add: get_stream_def get_stream_tail_def Let_def contiguous_top contiguous_filter_after
        load_from_history_def load_tail_from_history_def set_id_def entity_new_def entity_inv_def
        u64_add_def u64_max_def)
qed

theorem tail_load_agrees_witness:
  "map_option en_version (get_stream_tail 20 todo_identity 1 (fst todo_commit)) = Some 1 \<and>
   map_option en_events (get_stream_tail 20 todo_identity 1 (fst todo_commit)) = Some []"
proof -
  have "repo_inv (fst todo_commit)" using commit_moves_on [OF todo_commits todo_batch_ok todo_inv] by simp
  note agrees = tail_load_agrees [OF this, where now = 20 and i = todo_identity and v = 1]
  have "map_option en_version (get_stream 20 todo_identity (fst todo_commit)) = Some 1"
    "map_option (drop 1 o en_events) (get_stream 20 todo_identity (fst todo_commit)) = Some []"
    by code_simp+
  with agrees show ?thesis by (auto simp: option.map_comp o_def)
qed

end
