(* ===== verification/Aggregate.thy ===== *)
theory Aggregate
  imports Entity Snapshot_Record
begin

text \<open>
  Aggregates and their hydration from events (\<^verbatim>\<open>src/src/aggregate/aggregate.rs\<close>), snapshots of their
  state (\<^verbatim>\<open>src/src/snapshot/snapshottable.rs\<close>) and hydration from a snapshot and the events after it
  (\<^verbatim>\<open>src/src/snapshot/repository.rs\<close>). The aggregate type is user code: its trait implementations
  are the records \<open>aggregate\<close> and \<open>snapshottable\<close>, with the bitcode codec of its snapshot type. A replay error is its
  display string. Hydration drops the aggregate on an error, so only success returns one.
\<close>

section \<open>Aggregates\<close>

record 'a aggregate =
  ag_type :: string
  ag_new_empty :: 'a
  ag_entity :: "'a \<Rightarrow> entity"
  ag_set_entity :: "entity \<Rightarrow> 'a \<Rightarrow> 'a"
  ag_replay_event :: "'a \<Rightarrow> event_record \<Rightarrow> string + 'a"
  ag_upcasters :: "event_upcaster list"

record ('a, 's) snapshottable = "'a aggregate" +
  ag_snapshot_version :: nat
  ag_create_snapshot :: "'a \<Rightarrow> 's"
  ag_restore_from_snapshot :: "'a \<Rightarrow> 's \<Rightarrow> 'a"
  ag_serialize :: "'s \<Rightarrow> string + byte list"
  ag_deserialize :: "byte list \<Rightarrow> string + 's"

definition update_entity :: "('a, 'z) aggregate_scheme \<Rightarrow> (entity \<Rightarrow> entity) \<Rightarrow> 'a \<Rightarrow> 'a" where
  "update_entity A f a = ag_set_entity A (f (ag_entity A a)) a"

fun display_upcast_error :: "upcast_error \<Rightarrow> string" where
  "display_upcast_error (SameVersionTransition event_type v) =
     ''upcaster for event '' @ event_type @ '' does not advance version '' @ show_nat v"
| "display_upcast_error (BackwardTransition event_type from_v to_v) =
     ''upcaster for event '' @ event_type @ '' regresses version from '' @ show_nat from_v @
     '' to '' @ show_nat to_v"
| "display_upcast_error (CycleDetected event_type v) =
     ''upcaster chain for event '' @ event_type @ '' cycles back to version '' @ show_nat v"
| "display_upcast_error (PayloadTransform event_type from_v to_v source) =
     ''failed to upcast event '' @ event_type @ '' from version '' @ show_nat from_v @ '' to '' @
     show_nat to_v @ '': '' @ display_event_record_error source"

text \<open>The events that are replayed: the stored ones, or their upcasted view.\<close>

definition replay_view :: "event_record list \<Rightarrow> event_record cow list option \<Rightarrow> event_record list" where
  "replay_view history view = (case view of None \<Rightarrow> history | Some evs \<Rightarrow> map into_owned evs)"

definition replay_into ::
  "('a, 'z) aggregate_scheme \<Rightarrow> 'a \<Rightarrow> event_record list \<Rightarrow> repository_error + 'a" where
  "replay_into A a evs =
     rbind (map_err Replay (try_fold (ag_replay_event A) (update_entity A (set_replaying True) a) evs))
       (\<lambda>a. Inr (update_entity A (set_replaying False) a))"

definition hydrate :: "('a, 'z) aggregate_scheme \<Rightarrow> entity \<Rightarrow> repository_error + 'a" where
  "hydrate A e =
     (let a = ag_set_entity A e (ag_new_empty A);
          (history, e') = take_events (ag_entity A a);
          a = ag_set_entity A e' a in
      rbind (map_err (\<lambda>err. Replay (display_upcast_error err))
               (upcast_events_for_replay history (ag_upcasters A))) (\<lambda>view.
      rbind (replay_into A a (replay_view history view)) (\<lambda>a.
      Inr (update_entity A (load_from_history history) a))))"

section \<open>Hydration from a snapshot\<close>

datatype hydration_error = HydrateCache string | HydrateReplay string

fun snapshot_hydration_error_to_repository_error :: "hydration_error \<Rightarrow> repository_error" where
  "snapshot_hydration_error_to_repository_error (HydrateCache m) = Replay m"
| "snapshot_hydration_error_to_repository_error (HydrateReplay m) = Replay m"

definition snapshot_due :: "nat \<Rightarrow> nat \<Rightarrow> nat \<Rightarrow> bool" where
  "snapshot_due v snapshot_version frequency \<longleftrightarrow> frequency \<le> v - snapshot_version"

definition validate_snapshot_for_entity ::
  "('a, 's) snapshottable \<Rightarrow> entity \<Rightarrow> snapshot_record \<Rightarrow> hydration_error + unit" where
  "validate_snapshot_for_entity A e s =
     (if sr_aggregate_id s \<noteq> en_id e \<or> sr_aggregate_type s \<noteq> ag_type A
      then Inl (HydrateCache (''snapshot cache identity '' @ sr_aggregate_type s @ '':'' @
             sr_aggregate_id s @ '' does not match aggregate '' @ ag_type A @ '':'' @ en_id e))
      else if sr_snapshot_version s \<noteq> ag_snapshot_version A
      then Inl (HydrateCache (''snapshot schema version '' @ show_nat (sr_snapshot_version s) @
             '' does not match aggregate '' @ ag_type A @ '' version '' @
             show_nat (ag_snapshot_version A) @ '' for '' @ sr_aggregate_type s @ '':'' @
             sr_aggregate_id s))
      else if en_version e < sr_version s
      then Inl (HydrateCache (''snapshot cache version '' @ show_nat (sr_version s) @
             '' exceeds stream version '' @ show_nat (en_version e) @ '' for '' @
             sr_aggregate_type s @ '':'' @ sr_aggregate_id s))
      else Inr ())"

definition prepare_snapshot ::
  "('a, 's) snapshottable \<Rightarrow> entity \<Rightarrow> snapshot_record \<Rightarrow> hydration_error + 's" where
  "prepare_snapshot A e s =
     rbind (validate_snapshot_for_entity A e s) (\<lambda>_.
     if \<not> has_supported_payload_codec s
     then Inl (HydrateCache (''unsupported snapshot payload codec `'' @ sr_payload_codec s @
            ''` version '' @ show_nat (sr_payload_codec_version s)))
     else map_err (\<lambda>e. HydrateCache (''snapshot deserialize: '' @ e))
            (ag_deserialize A (sr_payload s)))"

definition post_snapshot_tail :: "event_record list \<Rightarrow> nat \<Rightarrow> event_record list" where
  "post_snapshot_tail history v = filter (\<lambda>ev. v < er_sequence ev) history"

definition replay_events ::
  "('a, 's) snapshottable \<Rightarrow> 'a \<Rightarrow> event_record list \<Rightarrow> hydration_error + 'a" where
  "replay_events A a evs =
     rbind (map_err HydrateReplay
              (try_fold (ag_replay_event A) (update_entity A (set_replaying True) a) evs))
       (\<lambda>a. Inr (update_entity A (set_replaying False) a))"

definition hydrate_prepared_snapshot ::
  "('a, 's) snapshottable \<Rightarrow> entity \<Rightarrow> snapshot_record \<Rightarrow> 's \<Rightarrow> hydration_error + 'a" where
  "hydrate_prepared_snapshot A e s payload =
     (let a = ag_set_entity A e (ag_new_empty A);
          a = update_entity A (set_snapshot_version (sr_version s)) a;
          a = ag_restore_from_snapshot A a payload;
          (history, e') = take_events (ag_entity A a);
          a = ag_set_entity A e' a;
          tail = post_snapshot_tail history (sr_version s) in
      rbind (case upcast_events_for_replay tail (ag_upcasters A) of
               Inl err \<Rightarrow> Inl (HydrateReplay (display_upcast_error err))
             | Inr view \<Rightarrow> replay_events A a (replay_view tail view)) (\<lambda>a.
      Inr (update_entity A (restore_history history) a)))"

definition snapshot_record_for ::
  "('a, 's) snapshottable \<Rightarrow> system_time \<Rightarrow> 'a \<Rightarrow> repository_error + snapshot_record" where
  "snapshot_record_for A now a =
     rbind (map_err (\<lambda>e. Replay (''snapshot serialize: '' @ e))
              (ag_serialize A (ag_create_snapshot A a))) (\<lambda>payload.
     Inr (snapshot_record_new now (ag_type A) (en_id (ag_entity A a)) (en_version (ag_entity A a))
            (ag_snapshot_version A) payload))"

definition snapshot_record_if_due ::
  "('a, 's) snapshottable \<Rightarrow> system_time \<Rightarrow> 'a \<Rightarrow> nat \<Rightarrow> repository_error + snapshot_record option" where
  "snapshot_record_if_due A now a frequency =
     (if snapshot_due (en_version (ag_entity A a)) (en_snapshot_version (ag_entity A a)) frequency
      then rbind (snapshot_record_for A now a) (\<lambda>r. Inr (Some r))
      else Inr None)"

definition hydrate_with_optional_snapshot ::
  "('a, 's) snapshottable \<Rightarrow> entity \<Rightarrow> snapshot_record option \<Rightarrow> repository_error + 'a" where
  "hydrate_with_optional_snapshot A e snapshot =
     (case snapshot of
        None \<Rightarrow> hydrate A e
      | Some s \<Rightarrow>
          (case prepare_snapshot A e s of
             Inl (HydrateCache _) \<Rightarrow> hydrate A e
           | Inl (HydrateReplay m) \<Rightarrow> Inl (Replay m)
           | Inr payload \<Rightarrow>
               map_err snapshot_hydration_error_to_repository_error
                 (hydrate_prepared_snapshot A e s payload)))"

definition hydrate_from_snapshot ::
  "('a, 's) snapshottable \<Rightarrow> entity \<Rightarrow> snapshot_record \<Rightarrow> repository_error + 'a" where
  "hydrate_from_snapshot A e s = hydrate_with_optional_snapshot A e (Some s)"

section \<open>What hydration relies on\<close>

text \<open>
  The trait contracts. An aggregate is its entity and a state: the accessors of the entity behave as
  those of a field. While its entity is replaying, recording is disabled, so replaying an event
  changes the state only, and in a way that does not look at the rest of the entity. A snapshot
  captures the state, and the snapshot codec reads back what it wrote.
\<close>

definition replay_entity :: "string \<Rightarrow> entity" where
  "replay_entity i = set_replaying True (with_id 0 i)"

definition aggregate_laws :: "('a, 'z) aggregate_scheme \<Rightarrow> string \<Rightarrow> bool" where
  "aggregate_laws A i \<longleftrightarrow>
     (\<forall>e a. ag_entity A (ag_set_entity A e a) = e) \<and>
     (\<forall>e e' a. ag_set_entity A e (ag_set_entity A e' a) = ag_set_entity A e a) \<and>
     (\<forall>a. ag_set_entity A (ag_entity A a) a = a) \<and>
     (\<forall>e a ev. en_replaying e \<longrightarrow> en_id e = i \<longrightarrow>
        ag_replay_event A (ag_set_entity A e a) ev =
          map_sum id (ag_set_entity A e) (ag_replay_event A (ag_set_entity A (replay_entity i) a) ev))"

definition snapshot_laws :: "('a, 's) snapshottable \<Rightarrow> string \<Rightarrow> bool" where
  "snapshot_laws A i \<longleftrightarrow>
     aggregate_laws A i \<and>
     (\<forall>e a. ag_create_snapshot A (ag_set_entity A e a) = ag_create_snapshot A a) \<and>
     (\<forall>e a. ag_restore_from_snapshot A (ag_set_entity A e (ag_new_empty A)) (ag_create_snapshot A a) =
        ag_set_entity A e a) \<and>
     (\<forall>a p. ag_serialize A (ag_create_snapshot A a) = Inr p \<longrightarrow>
        ag_deserialize A p = Inr (ag_create_snapshot A a))"

text \<open>The state events denote, with an entity that carries nothing but the id.\<close>

definition replay_from ::
  "('a, 'z) aggregate_scheme \<Rightarrow> 'a \<Rightarrow> event_record list \<Rightarrow> repository_error + 'a" where
  "replay_from A a evs =
     rbind (map_err (\<lambda>err. Replay (display_upcast_error err)) (upcast_events evs (ag_upcasters A)))
       (\<lambda>evs. map_err Replay (try_fold (ag_replay_event A) a evs))"

definition replay_state ::
  "('a, 'z) aggregate_scheme \<Rightarrow> string \<Rightarrow> event_record list \<Rightarrow> repository_error + 'a" where
  "replay_state A i evs = replay_from A (ag_set_entity A (replay_entity i) (ag_new_empty A)) evs"

section \<open>Lemmas\<close>

lemma aggregate_lawsD:
  assumes "aggregate_laws A i"
  shows "ag_entity A (ag_set_entity A e a) = e"
    "ag_set_entity A e (ag_set_entity A e' a) = ag_set_entity A e a"
    "ag_set_entity A (ag_entity A a) a = a"
    "en_replaying e \<Longrightarrow> en_id e = i \<Longrightarrow> ag_replay_event A (ag_set_entity A e a) ev =
       map_sum id (ag_set_entity A e) (ag_replay_event A (ag_set_entity A (replay_entity i) a) ev)"
  using assms by (simp_all add: aggregate_laws_def)

lemma replay_entity_simps [simp]: "en_replaying (replay_entity i)" "en_id (replay_entity i) = i"
  by (simp_all add: replay_entity_def with_id_def entity_setters)

lemma upcast_view:
  "rbind (upcast_events_for_replay evs us) (\<lambda>v. Inr (replay_view evs v)) = upcast_events evs us"
proof (cases "us = [] \<or> \<not> list_ex (upcaster_applies us) evs")
  case True
  then have "\<not> list_ex (upcaster_applies us) evs"
    by (auto simp: list_ex_iff upcaster_applies_def)
  with True show ?thesis
    by (simp add: upcast_events_for_replay_def upcast_events_unmatched replay_view_def)
next
  case False
  have "rbind (rbind r (\<lambda>view. Inr (Some view))) (\<lambda>v. Inr (replay_view evs v))
        = rbind r (\<lambda>view. Inr (map into_owned view))" for r :: "upcast_error + event_record cow list"
    by (cases r) (auto simp: replay_view_def)
  with False show ?thesis
    by (simp add: upcast_events_for_replay_def try_map_upcast_view)
qed

lemma try_map_append:
  "try_map f (xs @ ys) = rbind (try_map f xs) (\<lambda>us. rbind (try_map f ys) (\<lambda>vs. Inr (us @ vs)))"
proof (induction xs)
  case Nil
  show ?case by (cases "try_map f ys") auto
next
  case (Cons x xs)
  then show ?case by (cases "f x"; cases "try_map f xs"; cases "try_map f ys") auto
qed

lemma upcast_events_append:
  "upcast_events (xs @ ys) us =
     rbind (upcast_events xs us) (\<lambda>xs. rbind (upcast_events ys us) (\<lambda>ys. Inr (xs @ ys)))"
  by (simp add: upcast_events_def try_map_append)

text \<open>Replaying moves the state only: any replaying entity of the same id rides along.\<close>

lemma replay_keeps_entity:
  assumes "aggregate_laws A i" "en_replaying e" "en_id e = i"
  shows "try_fold (ag_replay_event A) (ag_set_entity A e a) evs =
    map_sum id (ag_set_entity A e)
      (try_fold (ag_replay_event A) (ag_set_entity A (replay_entity i) a) evs)"
proof (induction evs arbitrary: a)
  case Nil
  show ?case by (simp add: aggregate_lawsD(2) [OF assms(1)])
next
  case (Cons ev evs)
  note laws = aggregate_lawsD [OF assms(1)]
  show ?case
  proof (cases "ag_replay_event A (ag_set_entity A (replay_entity i) a) ev")
    case (Inl m)
    then show ?thesis using laws(4) [OF assms(2,3), of a ev] by simp
  next
    case (Inr b)
    then have "b = ag_set_entity A (replay_entity i) b"
      using laws(4) [of "replay_entity i" a ev] laws(2) by simp
    with Inr Cons.IH [of b] laws(4) [OF assms(2,3), of a ev] show ?thesis by simp
  qed
qed

lemma replayed_entity:
  assumes "aggregate_laws A i" "try_fold (ag_replay_event A) (ag_set_entity A (replay_entity i) a) evs = Inr b"
  shows "ag_set_entity A (replay_entity i) b = b"
  using replay_keeps_entity [OF assms(1), of "replay_entity i" a evs] assms(2) by simp

lemma replay_from_ok:
  assumes "aggregate_laws A i" "replay_from A (ag_set_entity A (replay_entity i) a) evs = Inr b"
  shows "ag_set_entity A (replay_entity i) b = b"
  using assms replayed_entity [OF assms(1)] by (auto simp: replay_from_def res_simps)

lemma replay_state_append:
  assumes "aggregate_laws A i" "replay_state A i xs = Inr a"
  shows "replay_state A i (xs @ ys) = replay_from A (ag_set_entity A (replay_entity i) a) ys"
proof -
  have a: "ag_set_entity A (replay_entity i) a = a"
    using replay_from_ok [OF assms(1)] assms(2) by (simp add: replay_state_def)
  from assms(2) obtain xs' where x: "upcast_events xs (ag_upcasters A) = Inr xs'"
    "try_fold (ag_replay_event A) (ag_set_entity A (replay_entity i) (ag_new_empty A)) xs' = Inr a"
    by (auto simp: replay_state_def replay_from_def res_simps)
  then show ?thesis
    by (cases "upcast_events ys (ag_upcasters A)")
       (simp_all add: replay_state_def replay_from_def upcast_events_append try_fold_append a)
qed

text \<open>Full replay and snapshot replay, as functions of the state alone.\<close>

lemma hydrate_replays:
  assumes "aggregate_laws A i" "en_id e = i" "\<not> en_replaying e"
  shows "hydrate A e =
    map_sum id (ag_set_entity A (load_from_history (en_events e) e)) (replay_state A i (en_events e))"
proof -
  note laws = aggregate_lawsD [OF assms(1)]
  let ?e = "set_replaying True (e\<lparr>en_events := []\<rparr>)"
  have fold: "try_fold (ag_replay_event A) (ag_set_entity A ?e (ag_new_empty A)) evs =
      map_sum id (ag_set_entity A ?e)
        (try_fold (ag_replay_event A) (ag_set_entity A (replay_entity i) (ag_new_empty A)) evs)" for evs
    using assms(2) by (intro replay_keeps_entity [OF assms(1)]) (simp_all add: set_replaying_def)
  have loaded: "load_from_history (en_events e) (set_replaying False ?e) = load_from_history (en_events e) e"
    using assms(3) by (simp add: load_from_history_def set_replaying_def)
  from upcast_view [of "en_events e" "ag_upcasters A"] show ?thesis
    by (cases "upcast_events_for_replay (en_events e) (ag_upcasters A)";
        cases "try_fold (ag_replay_event A) (ag_set_entity A (replay_entity i) (ag_new_empty A))
                 (projr (upcast_events (en_events e) (ag_upcasters A)))")
       (auto simp: hydrate_def Let_def take_events_def laws(1,2) replay_into_def update_entity_def fold
          loaded replay_state_def replay_from_def dest: sym)
qed

lemma snapshot_lawsD:
  assumes "snapshot_laws A i"
  shows "aggregate_laws A i" "ag_create_snapshot A (ag_set_entity A e a) = ag_create_snapshot A a"
    "ag_restore_from_snapshot A (ag_set_entity A e (ag_new_empty A)) (ag_create_snapshot A a) =
       ag_set_entity A e a"
    "ag_serialize A (ag_create_snapshot A a) = Inr p \<Longrightarrow>
       ag_deserialize A p = Inr (ag_create_snapshot A a)"
  using assms by (simp_all add: snapshot_laws_def)

lemma prepared_replays:
  assumes "snapshot_laws A i" "en_id e = i" "\<not> en_replaying e"
  shows "map_err snapshot_hydration_error_to_repository_error
      (hydrate_prepared_snapshot A e s (ag_create_snapshot A a)) =
    map_sum id (ag_set_entity A (set_snapshot_version (sr_version s) e))
      (replay_from A (ag_set_entity A (replay_entity i) a)
         (post_snapshot_tail (en_events e) (sr_version s)))"
proof -
  note slaws = snapshot_lawsD [OF assms(1)]
  note laws = aggregate_lawsD [OF slaws(1)]
  let ?e = "set_replaying True ((set_snapshot_version (sr_version s) e)\<lparr>en_events := []\<rparr>)"
  let ?tail = "post_snapshot_tail (en_events e) (sr_version s)"
  have fold: "try_fold (ag_replay_event A) (ag_set_entity A ?e a) evs =
      map_sum id (ag_set_entity A ?e)
        (try_fold (ag_replay_event A) (ag_set_entity A (replay_entity i) a) evs)" for evs
    using assms(2)
    by (intro replay_keeps_entity [OF slaws(1)]) (simp_all add: set_replaying_def set_snapshot_version_def)
  have loaded: "restore_history (en_events e) (set_replaying False ?e) =
      set_snapshot_version (sr_version s) e"
    using assms(3) by (simp add: restore_history_def set_replaying_def set_snapshot_version_def)
  have evs: "en_events (set_snapshot_version v e) = en_events e" for v
    by (simp add: set_snapshot_version_def)
  from upcast_view [of ?tail "ag_upcasters A"] show ?thesis
    by (cases "upcast_events_for_replay ?tail (ag_upcasters A)";
        cases "try_fold (ag_replay_event A) (ag_set_entity A (replay_entity i) a)
                 (projr (upcast_events ?tail (ag_upcasters A)))")
       (auto simp: hydrate_prepared_snapshot_def Let_def take_events_def laws(1,2) slaws(3)
          replay_events_def update_entity_def fold loaded evs replay_from_def dest: sym)
qed

text \<open>
  A stored snapshot is sound for a stream when it is unusable, or decodes to the snapshot of the
  state its events up to the covered version denote.
\<close>

definition snapshot_sound ::
  "('a, 's) snapshottable \<Rightarrow> string \<Rightarrow> event_record list \<Rightarrow> snapshot_record \<Rightarrow> bool" where
  "snapshot_sound A i evs s \<longleftrightarrow>
     (sr_snapshot_version s = ag_snapshot_version A \<and> sr_version s \<le> length evs \<longrightarrow>
      (case ag_deserialize A (sr_payload s) of
         Inl _ \<Rightarrow> True
       | Inr payload \<Rightarrow>
           (case replay_state A i (take (sr_version s) evs) of
              Inl _ \<Rightarrow> False
            | Inr a \<Rightarrow> payload = ag_create_snapshot A a)))"

text \<open>
  What the load of an aggregate means to its user: everything but which events are held in memory,
  the snapshot bookkeeping and the time of the load.
\<close>

definition window_free :: "entity \<Rightarrow> entity" where
  "window_free e =
     e\<lparr>en_events := [], en_prefix_version := 0, en_snapshot_version := 0, en_timestamp := 0\<rparr>"

definition forget_window :: "('a, 'z) aggregate_scheme \<Rightarrow> 'a \<Rightarrow> 'a" where
  "forget_window A = update_entity A window_free"

lemma prepare_snapshot_Inr:
  "prepare_snapshot A e s = Inr payload \<longleftrightarrow>
     sr_aggregate_id s = en_id e \<and> sr_aggregate_type s = ag_type A \<and>
     sr_snapshot_version s = ag_snapshot_version A \<and> sr_version s \<le> en_version e \<and>
     has_supported_payload_codec s \<and> ag_deserialize A (sr_payload s) = Inr payload"
  by (auto simp: prepare_snapshot_def validate_snapshot_for_entity_def res_simps not_less)

lemma prepare_snapshot_Inl: "prepare_snapshot A e s = Inl err \<Longrightarrow> \<exists>m. err = HydrateCache m"
  by (auto simp: prepare_snapshot_def validate_snapshot_for_entity_def res_simps split: if_splits)

lemma snapshot_sound_payload:
  assumes "snapshot_sound A i evs s" "prepare_snapshot A e s = Inr payload" "en_version e = length evs"
  obtains a where "replay_state A i (take (sr_version s) evs) = Inr a" "payload = ag_create_snapshot A a"
  using assms by (auto simp: snapshot_sound_def prepare_snapshot_Inr split: sum.splits)

lemma prepared_agrees_with_hydrate:
  assumes laws: "snapshot_laws A i" and "snapshot_sound A i evs s"
    and "prepare_snapshot A e' s = Inr payload" "en_version e' = length evs"
    and "en_id e' = i" "\<not> en_replaying e'" "en_id e = i" "\<not> en_replaying e" "en_events e = evs"
    and same: "window_free e' = window_free (load_from_history evs e)"
    and tail: "post_snapshot_tail (en_events e') (sr_version s) = drop (sr_version s) evs"
  shows "map_sum id (forget_window A) (map_err snapshot_hydration_error_to_repository_error
      (hydrate_prepared_snapshot A e' s payload)) = map_sum id (forget_window A) (hydrate A e)"
proof -
  note alaws = snapshot_lawsD(1) [OF laws]
  have forget: "forget_window A (ag_set_entity A x b) = ag_set_entity A (window_free x) b" for x b
    by (simp add: forget_window_def update_entity_def aggregate_lawsD(1,2) [OF alaws])
  have ssv: "window_free (set_snapshot_version v e') = window_free e'" for v
    by (simp add: window_free_def set_snapshot_version_def)
  obtain a where a: "replay_state A i (take (sr_version s) evs) = Inr a"
    "payload = ag_create_snapshot A a"
    using snapshot_sound_payload [OF assms(2-4)] .
  have "replay_state A i evs = replay_from A (ag_set_entity A (replay_entity i) a) (drop (sr_version s) evs)"
    using replay_state_append [OF alaws a(1), of "drop (sr_version s) evs"] by simp
  then show ?thesis
    using prepared_replays [OF laws assms(5,6), of s a] hydrate_replays [OF alaws assms(7,8)]
    by (simp add: a(2) tail assms(9) sum.map_comp o_def forget ssv same)
qed

text \<open>Hydrating a full entity: an unusable snapshot is ignored, a sound one completed.\<close>

lemma cached_hydration:
  assumes "snapshot_laws A (en_id e)" and "\<not> en_replaying e"
    and "en_prefix_version e = 0" "entity_inv e" "en_committed_version e = en_version e"
    and "pred_option (snapshot_sound A (en_id e) (en_events e)) snapshot"
  shows "map_sum id (forget_window A) (hydrate_with_optional_snapshot A e snapshot) =
    map_sum id (forget_window A) (hydrate A e)"
proof (cases snapshot)
  case None
  then show ?thesis by (simp add: hydrate_with_optional_snapshot_def)
next
  case (Some s)
  from assms(3,4) have v: "en_version e = length (en_events e)" "contiguous 0 (en_events e)"
    by (auto simp: entity_inv_def)
  have same: "window_free e = window_free (load_from_history (en_events e) e)"
    using v(1) assms(5) by (simp add: window_free_def load_from_history_def)
  have tail: "post_snapshot_tail (en_events e) (sr_version s) = drop (sr_version s) (en_events e)"
    using contiguous_filter_after [OF v(2)] by (simp add: post_snapshot_tail_def)
  show ?thesis
  proof (cases "prepare_snapshot A e s")
    case (Inl err)
    then obtain m where "err = HydrateCache m" using prepare_snapshot_Inl by blast
    with Inl Some show ?thesis by (simp add: hydrate_with_optional_snapshot_def)
  next
    case (Inr payload)
    have sound: "snapshot_sound A (en_id e) (en_events e) s" using assms(6) Some by simp
    show ?thesis
      using prepared_agrees_with_hydrate [OF assms(1) sound Inr v(1) refl assms(2) refl assms(2) refl same tail]
        Some Inr by (simp add: hydrate_with_optional_snapshot_def)
  qed
qed

text \<open>A concrete aggregate: a counter that every event advances, with a unary snapshot codec.\<close>

definition counter :: "(entity \<times> nat, nat) snapshottable" where
  "counter =
     \<lparr>ag_type = ''counter'', ag_new_empty = (entity_new 0, 0), ag_entity = fst,
      ag_set_entity = (\<lambda>e (_, n). (e, n)),
      ag_replay_event = (\<lambda>(e, n) ev. if er_event_name ev = ''tick'' then Inr (e, Suc n)
                                   else Inl ''unknown event''),
      ag_upcasters = [], ag_snapshot_version = 1, ag_create_snapshot = snd,
      ag_restore_from_snapshot = (\<lambda>(e, _) n. (e, n)),
      ag_serialize = (\<lambda>n. Inr (replicate n 0)), ag_deserialize = (\<lambda>bs. Inr (length bs))\<rparr>"

lemma counter_laws: "snapshot_laws counter i"
  by (auto simp: snapshot_laws_def aggregate_laws_def counter_def split: prod.splits)

end
