(* ===== verification/Aggregate_Repo.thy ===== *)
theory Aggregate_Repo
  imports Aggregate Repo_Properties
begin

text \<open>
  The typed aggregate repository (\<^verbatim>\<open>src/src/aggregate/repository.rs\<close>) and its snapshot policy
  (\<^verbatim>\<open>src/src/snapshot/repository.rs\<close>) over any repository that implements the stream, snapshot and
  commit traits (\<^verbatim>\<open>src/src/repository/traits.rs\<close>). Those traits are the record \<open>stream_repository\<close>.
  An awaited call either returns, with the repository it leaves behind, or waits for a lock; the
  option of \<open>call\<close> is \<open>None\<close> when it waits. The in-memory repository never waits.
\<close>

section \<open>Awaited calls\<close>

type_synonym ('r, 'x) call = "'r \<Rightarrow> ('r \<times> (repository_error + 'x)) option"

definition call_result :: "repository_error + 'x \<Rightarrow> ('r, 'x) call" where
  "call_result res = (\<lambda>r. Some (r, res))"

definition call_bind :: "('r, 'x) call \<Rightarrow> ('x \<Rightarrow> ('r, 'y) call) \<Rightarrow> ('r, 'y) call" where
  "call_bind m f =
     (\<lambda>r. case m r of
            None \<Rightarrow> None
          | Some (r', Inl e) \<Rightarrow> Some (r', Inl e)
          | Some (r', Inr x) \<Rightarrow> f x r')"

definition call_map :: "('x \<Rightarrow> 'y) \<Rightarrow> ('r \<times> (repository_error + 'x)) option \<Rightarrow> ('r \<times> (repository_error + 'y)) option" where
  "call_map f = map_option (map_prod id (map_sum id f))"

section \<open>The repository traits\<close>

type_synonym clocks = "nat \<Rightarrow> system_time"

record 'r stream_repository =
  rp_get_stream :: "system_time \<Rightarrow> stream_identity \<Rightarrow> ('r, entity option) call"
  rp_get_streams :: "clocks \<Rightarrow> stream_identity list \<Rightarrow> ('r, entity list) call"
  rp_get_stream_tail :: "system_time \<Rightarrow> stream_identity \<Rightarrow> nat \<Rightarrow> ('r, entity option) call"
  rp_get_snapshot :: "stream_identity \<Rightarrow> ('r, snapshot_record option) call"
  rp_get_snapshots :: "stream_identity list \<Rightarrow> ('r, snapshot_record list) call"
  rp_commit_batch :: "clocks \<Rightarrow> commit_batch
    \<Rightarrow> 'r \<Rightarrow> ('r \<times> entity list \<times> (repository_error outcome_fault + unit)) option"

text \<open>
  The default \<^verbatim>\<open>get_streams\<close> of the trait: one read per identity, each with its own clock reading,
  skipping missing streams.
\<close>

fun get_streams_from ::
  "(system_time \<Rightarrow> stream_identity \<Rightarrow> ('r, entity option) call) \<Rightarrow> nat \<Rightarrow> clocks
     \<Rightarrow> stream_identity list \<Rightarrow> ('r, entity list) call" where
  "get_streams_from get k now [] = call_result (Inr [])"
| "get_streams_from get k now (i # is) =
     call_bind (get (now k) i) (\<lambda>e.
     call_bind (get_streams_from get (Suc k) now is) (\<lambda>es.
     call_result (Inr (case e of None \<Rightarrow> es | Some e \<Rightarrow> e # es))))"

definition memory_repository :: "table_fmt \<Rightarrow> ledger_codec \<Rightarrow> in_memory_repository stream_repository" where
  "memory_repository fmt lc =
     \<lparr>rp_get_stream = (\<lambda>now i repo. Some (repo, Inr (get_stream now i repo))),
      rp_get_streams = get_streams_from (\<lambda>now i repo. Some (repo, Inr (get_stream now i repo))) 0,
      rp_get_stream_tail = (\<lambda>now i v repo. Some (repo, Inr (get_stream_tail now i v repo))),
      rp_get_snapshot = (\<lambda>i repo. Some (repo, Inr (get_snapshot (im_snapshots repo) i))),
      rp_get_snapshots = (\<lambda>is repo. Some (repo, Inr (get_snapshots (im_snapshots repo) is))),
      rp_commit_batch = (\<lambda>now b repo. Some (commit_batch_repo fmt lc (now 0) (now 1) (now 2) b repo))\<rparr>"

section \<open>Loading with snapshots\<close>

definition hydrate_stream ::
  "('a, 'z) aggregate_scheme \<Rightarrow> entity option \<Rightarrow> repository_error + 'a option" where
  "hydrate_stream A e = try_option (hydrate A) e"

definition hydrate_from_store ::
  "('a, 's) snapshottable \<Rightarrow> 'r stream_repository \<Rightarrow> stream_identity \<Rightarrow> entity \<Rightarrow> ('r, 'a) call" where
  "hydrate_from_store A R i e =
     call_bind (rp_get_snapshot R i) (\<lambda>snapshot.
     call_result (hydrate_with_optional_snapshot A e snapshot))"

text \<open>The records of a batch by storage key; each is used once.\<close>

fun index_snapshots ::
  "(string, snapshot_record) hashmap \<Rightarrow> snapshot_record list
     \<Rightarrow> repository_error + (string, snapshot_record) hashmap" where
  "index_snapshots m [] = Inr m"
| "index_snapshots m (r # rs) =
     rbind (stream_identity_new (sr_aggregate_type r) (sr_aggregate_id r)) (\<lambda>i.
     index_snapshots (AList.update (storage_key i) r m) rs)"

fun hydrate_indexed ::
  "('a, 's) snapshottable \<Rightarrow> (string, snapshot_record) hashmap \<Rightarrow> (stream_identity \<times> entity) list
     \<Rightarrow> repository_error + 'a list" where
  "hydrate_indexed A m [] = Inr []"
| "hydrate_indexed A m ((i, e) # ies) =
     rbind (hydrate_with_optional_snapshot A e (map_of m (storage_key i))) (\<lambda>a.
     rbind (hydrate_indexed A (AList.delete (storage_key i) m) ies) (\<lambda>as.
     Inr (a # as)))"

definition hydrate_all_from_store ::
  "('a, 's) snapshottable \<Rightarrow> 'r stream_repository \<Rightarrow> (stream_identity \<times> entity) list
     \<Rightarrow> ('r, 'a list) call" where
  "hydrate_all_from_store A R ies =
     call_bind (rp_get_snapshots R (map fst ies)) (\<lambda>records.
     call_result (rbind (index_snapshots [] records) (\<lambda>m. hydrate_indexed A m ies)))"

text \<open>The two clock readings are those of the tail read and of the fallback read.\<close>

definition load_from_store ::
  "('a, 's) snapshottable \<Rightarrow> 'r stream_repository \<Rightarrow> clocks \<Rightarrow> stream_identity
     \<Rightarrow> ('r, 'a option) call" where
  "load_from_store A R now i =
     call_bind (rp_get_snapshot R i) (\<lambda>snapshot.
     case snapshot of
       None \<Rightarrow> call_bind (rp_get_stream R (now 0) i) (\<lambda>e. call_result (hydrate_stream A e))
     | Some s \<Rightarrow>
         call_bind (rp_get_stream_tail R (now 0) i (sr_version s)) (\<lambda>e.
         case e of
           None \<Rightarrow> call_result (Inr None)
         | Some e \<Rightarrow>
             (case prepare_snapshot A e s of
                Inr payload \<Rightarrow>
                  call_result (map_sum snapshot_hydration_error_to_repository_error Some
                    (hydrate_prepared_snapshot A e s payload))
              | Inl (HydrateCache _) \<Rightarrow>
                  call_bind (rp_get_stream R (now 1) i) (\<lambda>e. call_result (hydrate_stream A e))
              | Inl (HydrateReplay m) \<Rightarrow> call_result (Inl (Replay m)))))"

section \<open>The aggregate repository\<close>

text \<open>
  The snapshot policy is the event frequency: \<open>None\<close> is a repository without snapshots, and
  \<^verbatim>\<open>with_snapshots\<close> is the only place that installs the policy hooks, always the ones above.
\<close>

definition with_snapshots :: "nat \<Rightarrow> nat option option" where
  "with_snapshots frequency = (if 0 < frequency then Some (Some frequency) else None)"

definition stream_identity_for :: "('a, 'z) aggregate_scheme \<Rightarrow> string \<Rightarrow> repository_error + stream_identity" where
  "stream_identity_for A i = stream_identity_new (ag_type A) i"

definition snapshot_writes ::
  "('a, 's) snapshottable \<Rightarrow> nat option \<Rightarrow> system_time \<Rightarrow> 'a
     \<Rightarrow> repository_error + (snapshot_write list \<times> nat option)" where
  "snapshot_writes A policy now a =
     (case policy of
        None \<Rightarrow> Inr ([], None)
      | Some frequency \<Rightarrow>
          rbind (snapshot_record_if_due A now a frequency) (\<lambda>r.
          case r of
            None \<Rightarrow> Inr ([], None)
          | Some r \<Rightarrow>
              rbind (stream_identity_for A (en_id (ag_entity A a))) (\<lambda>i.
              Inr ([Save i r], Some (sr_version r)))))"

definition hydrate_entity ::
  "('a, 's) snapshottable \<Rightarrow> 'r stream_repository \<Rightarrow> nat option \<Rightarrow> stream_identity \<Rightarrow> entity
     \<Rightarrow> ('r, 'a) call" where
  "hydrate_entity A R policy i e =
     (case policy of Some _ \<Rightarrow> hydrate_from_store A R i e | None \<Rightarrow> call_result (hydrate A e))"

definition ag_get ::
  "('a, 's) snapshottable \<Rightarrow> 'r stream_repository \<Rightarrow> nat option \<Rightarrow> clocks \<Rightarrow> string
     \<Rightarrow> ('r, 'a option) call" where
  "ag_get A R policy now i =
     call_bind (call_result (stream_identity_for A i)) (\<lambda>i.
     case policy of
       Some _ \<Rightarrow> load_from_store A R now i
     | None \<Rightarrow> call_bind (rp_get_stream R (now 0) i) (\<lambda>e. call_result (hydrate_stream A e)))"

definition hydrate_entities ::
  "('a, 's) snapshottable \<Rightarrow> 'r stream_repository \<Rightarrow> nat option \<Rightarrow> entity list \<Rightarrow> ('r, 'a list) call" where
  "hydrate_entities A R policy es =
     (case policy of
        Some _ \<Rightarrow>
          call_bind (call_result (try_map (\<lambda>e. rbind (stream_identity_for A (en_id e)) (\<lambda>i. Inr (i, e))) es))
            (hydrate_all_from_store A R)
      | None \<Rightarrow> call_result (try_map (hydrate A) es))"

definition ag_get_all ::
  "('a, 's) snapshottable \<Rightarrow> 'r stream_repository \<Rightarrow> nat option \<Rightarrow> clocks \<Rightarrow> string list
     \<Rightarrow> ('r, 'a list) call" where
  "ag_get_all A R policy now ids =
     call_bind (call_result (try_map (stream_identity_for A) ids)) (\<lambda>is.
     call_bind (rp_get_streams R now is) (hydrate_entities A R policy))"

text \<open>
  Committing aggregates. The entities are borrowed, so the aggregates come back with the entities
  the commit left. The clock readings are those of the snapshot records and of the commit.
\<close>

definition committed_aggregate ::
  "('a, 'z) aggregate_scheme \<Rightarrow> repository_error outcome_fault + unit \<Rightarrow> 'a \<Rightarrow> entity \<Rightarrow> nat option \<Rightarrow> 'a" where
  "committed_aggregate A res a e v =
     ag_set_entity A (case (res, v) of (Inr _, Some v) \<Rightarrow> set_snapshot_version v e | _ \<Rightarrow> e) a"

definition stage_aggregates ::
  "('a, 's) snapshottable \<Rightarrow> nat option \<Rightarrow> clocks \<Rightarrow> 'a list
     \<Rightarrow> repository_error + (snapshot_write list \<times> nat option) list \<times> stream_write list" where
  "stage_aggregates A policy now as =
     rbind (try_map (\<lambda>(k, a). snapshot_writes A policy (now k) a) (List.enumerate 0 as)) (\<lambda>snaps.
     rbind (try_map (\<lambda>a. rbind (stream_identity_for A (en_id (ag_entity A a))) (\<lambda>i.
              Inr \<lparr>sw_identity = i, sw_entity = ag_entity A a\<rparr>)) as) (\<lambda>streams.
     Inr (snaps, streams)))"

definition ag_commit_all ::
  "('a, 's) snapshottable \<Rightarrow> 'r stream_repository \<Rightarrow> nat option \<Rightarrow> clocks \<Rightarrow> clocks \<Rightarrow> 'a list
     \<Rightarrow> 'r \<Rightarrow> ('r \<times> 'a list \<times> (repository_error outcome_fault + unit)) option" where
  "ag_commit_all A R policy now now' as r =
     (case stage_aggregates A policy now as of
        Inl e \<Rightarrow> Some (r, as, Inl (OutcomeFails e))
      | Inr (snaps, streams) \<Rightarrow>
          map_option (\<lambda>(r', es, res).
              (r', map (\<lambda>(a, e, v). committed_aggregate A res a e v) (zip as (zip es (map snd snaps))), res))
            (rp_commit_batch R now' ((commit_batch_new streams)\<lparr>cb_snapshots := concat (map fst snaps)\<rparr>) r))"

definition ag_commit ::
  "('a, 's) snapshottable \<Rightarrow> 'r stream_repository \<Rightarrow> nat option \<Rightarrow> clocks \<Rightarrow> clocks \<Rightarrow> 'a
     \<Rightarrow> 'r \<Rightarrow> ('r \<times> 'a \<times> (repository_error outcome_fault + unit)) option" where
  "ag_commit A R policy now now' a r =
     (case rbind (snapshot_writes A policy (now 0) a) (\<lambda>sv.
           rbind (stream_identity_for A (en_id (ag_entity A a))) (\<lambda>i. Inr (sv, i))) of
        Inl e \<Rightarrow> Some (r, a, Inl (OutcomeFails e))
      | Inr ((snapshots, v), i) \<Rightarrow>
          map_option (\<lambda>(r', es, res). (r', committed_aggregate A res a (hd es) v, res))
            (rp_commit_batch R now'
               ((commit_batch_new [\<lparr>sw_identity = i, sw_entity = ag_entity A a\<rparr>])\<lparr>cb_snapshots := snapshots\<rparr>) r))"

definition commit_entities ::
  "'r stream_repository \<Rightarrow> clocks \<Rightarrow> stream_write list
     \<Rightarrow> 'r \<Rightarrow> ('r \<times> entity list \<times> (repository_error outcome_fault + unit)) option" where
  "commit_entities R now streams r = rp_commit_batch R now (commit_batch_new streams) r"

section \<open>Lemmas\<close>

lemma call_simps [simp]:
  "call_bind (call_result (Inr x)) f = f x"
  "call_bind (call_result (Inl e)) f = call_result (Inl e)"
  "call_result z q = Some (q, z)"
  "call_map g (Some (s, y)) = Some (s, map_sum id g y)" "call_map g None = None"
  by (auto simp: call_bind_def call_result_def call_map_def)

lemma call_bind_returns: "m r = Some (r', Inr x) \<Longrightarrow> call_bind m f r = f x r'"
  by (simp add: call_bind_def)

lemma memory_reads:
  "rp_get_stream (memory_repository fmt lc) now i repo = Some (repo, Inr (get_stream now i repo))"
  "rp_get_stream_tail (memory_repository fmt lc) now i v repo = Some (repo, Inr (get_stream_tail now i v repo))"
  "rp_get_snapshot (memory_repository fmt lc) i repo = Some (repo, Inr (get_snapshot (im_snapshots repo) i))"
  "rp_get_snapshots (memory_repository fmt lc) is repo = Some (repo, Inr (get_snapshots (im_snapshots repo) is))"
  by (simp_all add: memory_repository_def)

lemmas memory_calls = memory_reads [THEN call_bind_returns]

text \<open>
  What the snapshot cache of a repository promises for one aggregate: its stored record was
  validated for the identity, and is sound for the stream.
\<close>

definition cache_sound :: "('a, 's) snapshottable \<Rightarrow> in_memory_repository \<Rightarrow> string \<Rightarrow> bool" where
  "cache_sound A repo i =
     (case stream_identity_for A i of
        Inl _ \<Rightarrow> True
      | Inr ident \<Rightarrow>
          pred_option (\<lambda>s. validate_for_identity s ident = Inr () \<and>
              snapshot_sound A i (stream_of (im_events repo) (storage_key ident)) s)
            (map_of (im_snapshots repo) (storage_key ident)))"

lemma stream_identity_for_Inr:
  assumes "stream_identity_for A i = Inr ident"
  shows "si_aggregate_type ident = ag_type A" "si_aggregate_id ident = i"
    "stream_identity_new (ag_type A) i = Inr ident"
  using assms by (auto simp: stream_identity_for_def res_simps)

lemma loaded_stream:
  assumes "repo_inv repo" "get_stream now i repo = Some e"
  shows "entity_inv e" "en_prefix_version e = 0" "\<not> en_replaying e"
    "en_committed_version e = en_version e" "en_id e = si_aggregate_id i"
    "en_events e = stream_of (im_events repo) (storage_key i)"
  using assms
  by (auto simp: get_stream_def load_from_history_def set_id_def entity_new_def entity_inv_def
      repo_inv_def stream_ok_def stream_of_def Let_def dest: hm_all_lookup)

lemma loaded_tail:
  assumes "repo_inv repo" "get_stream_tail now i v repo = Some e'"
  obtains e where "get_stream now0 i repo = Some e" "en_id e' = si_aggregate_id i" "\<not> en_replaying e'"
    "en_version e' = length (en_events e)" "window_free e' = window_free (load_from_history (en_events e) e)"
    "post_snapshot_tail (en_events e') v = drop v (en_events e)"
proof -
  from assms(2) obtain evs where evs: "map_of (im_events repo) (storage_key i) = Some evs"
    by (auto simp: get_stream_tail_def)
  with assms(1) have ok: "contiguous 0 evs" "length evs \<le> u64_max"
    by (auto simp: repo_inv_def stream_ok_def dest: hm_all_lookup)
  have len: "min v (length evs) + (length evs - v) = length evs" by simp
  have add: "u64_add (min v (length evs)) (length evs - v) = length evs"
    using ok(2) len by simp
  have tail: "filter (\<lambda>ev. v < er_sequence ev) (drop v evs) = drop v evs"
    unfolding contiguous_filter_after [OF ok(1), of v, simplified, symmetric] by simp
  show thesis
    using assms(2) evs ok add tail
    by (intro that [of "load_from_history evs (set_id (si_aggregate_id i) (entity_new now0))"])
       (auto simp: get_stream_def get_stream_tail_def Let_def contiguous_top contiguous_filter_after
         load_from_history_def load_tail_from_history_def set_id_def entity_new_def window_free_def
         post_snapshot_tail_def)
qed

text \<open>The snapshot load of one aggregate, and of a batch, against plain replay.\<close>

lemma forget_set_entity:
  "aggregate_laws A i \<Longrightarrow> forget_window A (ag_set_entity A x b) = ag_set_entity A (window_free x) b"
  by (simp add: forget_window_def update_entity_def aggregate_lawsD(1,2))

lemma hydrate_any_time:
  assumes laws: "aggregate_laws A (si_aggregate_id i)" and inv: "repo_inv repo"
  shows "map_sum id (map_option (forget_window A)) (hydrate_stream A (get_stream now i repo)) =
    map_sum id (map_option (forget_window A)) (hydrate_stream A (get_stream now' i repo))"
proof (cases "map_of (im_events repo) (storage_key i)")
  case None
  then show ?thesis by (simp add: get_stream_def hydrate_stream_def try_option_def)
next
  case (Some evs)
  then obtain e e0 where e: "get_stream now i repo = Some e" "get_stream now' i repo = Some e0"
    by (simp add: get_stream_def)
  note l = loaded_stream [OF inv e(1)] loaded_stream [OF inv e(2)]
  have "window_free (load_from_history (en_events e) e) = window_free (load_from_history (en_events e0) e0)"
    using e Some by (auto simp: get_stream_def window_free_def load_from_history_def set_id_def entity_new_def)
  then show ?thesis
    using hydrate_replays [OF laws, of e] hydrate_replays [OF laws, of e0] l
    by (simp add: e hydrate_stream_def try_option_def)
      (cases "replay_state A (si_aggregate_id i) (stream_of (im_events repo) (storage_key i))";
       simp add: forget_set_entity [OF laws])
qed

lemma load_from_store_agrees:
  assumes laws: "snapshot_laws A i" and inv: "repo_inv repo" and sound: "cache_sound A repo i"
    and ident: "stream_identity_for A i = Inr ident"
  shows "call_map (map_option (forget_window A))
      (load_from_store A (memory_repository fmt lc) now ident repo) =
    Some (repo, map_sum id (map_option (forget_window A)) (hydrate_stream A (get_stream now0 ident repo)))"
proof (cases "get_snapshot (im_snapshots repo) ident")
  note id = stream_identity_for_Inr(2) [OF ident]
  note any = hydrate_any_time [OF snapshot_lawsD(1) [OF laws, folded id] inv, of _ now0]
  case None
  then show ?thesis
    using any [of "now 0"] by (simp add: load_from_store_def memory_calls)
next
  note id = stream_identity_for_Inr(2) [OF ident]
  note any = hydrate_any_time [OF snapshot_lawsD(1) [OF laws, folded id] inv, of _ now0]
  case (Some s)
  note load = load_from_store_def memory_calls Some
  show ?thesis
  proof (cases "get_stream_tail (now 0) ident (sr_version s) repo")
    case None
    then have "get_stream now0 ident repo = None" by (simp add: get_stream_tail_def get_stream_def)
    with None show ?thesis by (simp add: load hydrate_stream_def try_option_def)
  next
    case (Some e')
    show ?thesis
    proof (cases "prepare_snapshot A e' s")
      case (Inl err)
      then obtain m where "err = HydrateCache m" using prepare_snapshot_Inl by blast
      with Inl Some any [of "now 1"] show ?thesis by (simp add: load)
    next
      case (Inr payload)
      obtain e where e: "get_stream now0 ident repo = Some e" "en_id e' = si_aggregate_id ident"
        "\<not> en_replaying e'" "en_version e' = length (en_events e)"
        "window_free e' = window_free (load_from_history (en_events e) e)"
        "post_snapshot_tail (en_events e') (sr_version s) = drop (sr_version s) (en_events e)"
        by (rule loaded_tail [OF inv Some])
      note l = loaded_stream [OF inv e(1)]
      have "snapshot_sound A i (en_events e) s"
        using sound \<open>get_snapshot _ _ = Some s\<close> by (simp add: cache_sound_def ident get_snapshot_def l(6))
      from prepared_agrees_with_hydrate [OF laws this Inr e(4) _ e(3) _ l(3) refl e(5,6)] e(2) l(5) id
      show ?thesis
        using Some Inr e(1)
        by (cases "hydrate_prepared_snapshot A e' s payload"; cases "hydrate A e")
          (simp_all add: load hydrate_stream_def try_option_def)
    qed
  qed
qed

lemma memory_get_streams:
  obtains es where "rp_get_streams (memory_repository fmt lc) now is repo = Some (repo, Inr es)"
    "list_all (\<lambda>e. \<exists>t. \<exists>i \<in> set is. get_stream t i repo = Some e) es"
proof -
  have "\<exists>es. get_streams_from (\<lambda>now i repo. Some (repo, Inr (get_stream now i repo))) k now is repo =
      Some (repo, Inr es) \<and> list_all (\<lambda>e. \<exists>t. \<exists>i \<in> set is. get_stream t i repo = Some e) es" for k
  proof (induction "is" arbitrary: k)
    case (Cons i "is")
    from Cons [of "Suc k"] obtain es where
      es: "get_streams_from (\<lambda>now i repo. Some (repo, Inr (get_stream now i repo))) (Suc k) now is repo =
        Some (repo, Inr es)" "list_all (\<lambda>e. \<exists>t. \<exists>i \<in> set is. get_stream t i repo = Some e) es" by blast
    from es(2) have "list_all (\<lambda>e. \<exists>t. \<exists>i \<in> set (i # is). get_stream t i repo = Some e) es"
      by (rule list.pred_mono_strong) auto
    with es(1) show ?case
      by (cases "get_stream (now k) i repo") (auto simp: call_bind_def)
  qed simp
  then show thesis using that by (auto simp: memory_repository_def)
qed

text \<open>A record of the cache that is filed under the key of its own identity.\<close>

definition filed :: "snapshot_store \<Rightarrow> snapshot_record \<Rightarrow> bool" where
  "filed store r =
     (case stream_identity_new (sr_aggregate_type r) (sr_aggregate_id r) of
        Inl _ \<Rightarrow> False
      | Inr i \<Rightarrow> map_of store (storage_key i) = Some r)"

definition part_of :: "snapshot_store \<Rightarrow> snapshot_store \<Rightarrow> bool" where
  "part_of m store \<longleftrightarrow> (\<forall>k. map_of m k = None \<or> map_of m k = map_of store k)"

lemma index_snapshots_ok:
  "list_all (filed store) rs \<Longrightarrow> part_of m store \<Longrightarrow>
     \<exists>m'. index_snapshots m rs = Inr m' \<and> part_of m' store"
proof (induction rs arbitrary: m)
  case (Cons r rs)
  then obtain i where i: "stream_identity_new (sr_aggregate_type r) (sr_aggregate_id r) = Inr i"
    "map_of store (storage_key i) = Some r"
    by (auto simp: filed_def split: sum.splits)
  with Cons.prems(2) have "part_of (AList.update (storage_key i) r m) store"
    by (simp add: part_of_def update_conv')
  with Cons i(1) show ?case by simp
qed simp

definition hydratable :: "('a, 's) snapshottable \<Rightarrow> entity \<Rightarrow> bool" where
  "hydratable A e \<longleftrightarrow>
     snapshot_laws A (en_id e) \<and> \<not> en_replaying e \<and> en_prefix_version e = 0 \<and> entity_inv e \<and>
     en_committed_version e = en_version e"

lemma hydrate_indexed_agrees:
  assumes "list_all (\<lambda>(i, e). hydratable A e \<and>
      pred_option (snapshot_sound A (en_id e) (en_events e)) (map_of store (storage_key i))) ies"
    and "part_of m store"
  shows "map_sum id (map (forget_window A)) (hydrate_indexed A m ies) =
    map_sum id (map (forget_window A)) (try_map (hydrate A) (map snd ies))"
  using assms
proof (induction ies arbitrary: m)
  case (Cons ie ies)
  obtain i e where ie: "ie = (i, e)" by (cases ie)
  have "part_of (AList.delete (storage_key i) m) store"
    using Cons.prems(2) by (simp add: part_of_def delete_conv')
  from Cons.IH [OF _ this] Cons.prems(1) have IH: "map_sum id (map (forget_window A)) (hydrate_indexed A (AList.delete (storage_key i) m) ies) =
      map_sum id (map (forget_window A)) (try_map (hydrate A) (map snd ies))" by (simp add: id_def)
  have "pred_option (snapshot_sound A (en_id e) (en_events e)) (map_of m (storage_key i))"
    using Cons.prems by (auto simp: ie part_of_def dest: spec [of _ "storage_key i"])
  then have "map_sum id (forget_window A) (hydrate_with_optional_snapshot A e (map_of m (storage_key i))) =
      map_sum id (forget_window A) (hydrate A e)"
    using Cons.prems(1) by (intro cached_hydration) (simp_all add: ie hydratable_def)
  with IH show ?case
    by (cases "hydrate_with_optional_snapshot A e (map_of m (storage_key i))"; cases "hydrate A e";
        cases "hydrate_indexed A (AList.delete (storage_key i) m) ies"; cases "try_map (hydrate A) (map snd ies)")
      (simp_all add: ie)
qed simp

definition batch_ready :: "('a, 's) snapshottable \<Rightarrow> in_memory_repository \<Rightarrow> entity \<Rightarrow> bool" where
  "batch_ready A repo e =
     (case stream_identity_for A (en_id e) of
        Inl _ \<Rightarrow> False
      | Inr ident \<Rightarrow>
          hydratable A e \<and>
          pred_option (\<lambda>s. filed (im_snapshots repo) s \<and> snapshot_sound A (en_id e) (en_events e) s)
            (map_of (im_snapshots repo) (storage_key ident)))"

lemma batch_ready_ident:
  "batch_ready A repo e \<Longrightarrow>
     rbind (stream_identity_for A (en_id e)) g = g (projr (stream_identity_for A (en_id e)))"
  by (simp add: batch_ready_def split: sum.splits)

lemma batch_ready_sound:
  assumes "batch_ready A repo e"
  shows "hydratable A e \<and> pred_option (snapshot_sound A (en_id e) (en_events e))
    (map_of (im_snapshots repo) (storage_key (projr (stream_identity_for A (en_id e)))))"
  using assms
  by (cases "stream_identity_for A (en_id e)";
      cases "map_of (im_snapshots repo) (storage_key (projr (stream_identity_for A (en_id e))))")
    (simp_all add: batch_ready_def)

lemma loaded_batch_ready:
  assumes inv: "repo_inv repo" and "get_stream t ident repo = Some e"
    and ident: "stream_identity_for A i = Inr ident" and "snapshot_laws A i" "cache_sound A repo i"
  shows "batch_ready A repo e"
proof -
  note l = loaded_stream [OF inv assms(2)] and id = stream_identity_for_Inr [OF ident]
  have "hydratable A e" using l id assms(4) by (simp add: hydratable_def)
  moreover have "filed (im_snapshots repo) s"
    if "map_of (im_snapshots repo) (storage_key ident) = Some s" "validate_for_identity s ident = Inr ()" for s
    using that id by (simp add: filed_def validate_for_identity_ok)
  ultimately show ?thesis
    using assms(5) l(5,6) id(2)
    by (cases "map_of (im_snapshots repo) (storage_key ident)") (auto simp: batch_ready_def ident cache_sound_def)
qed

lemma hydrate_all_agrees:
  assumes "list_all (batch_ready A repo) es"
  shows "call_map (map (forget_window A)) (hydrate_entities A (memory_repository fmt lc) (Some f) es repo) =
    call_map (map (forget_window A)) (hydrate_entities A (memory_repository fmt lc) None es repo)"
proof -
  let ?ident = "\<lambda>e. projr (stream_identity_for A (en_id e))"
  let ?ies = "map (\<lambda>e. (?ident e, e)) es"
  have pairs: "try_map (\<lambda>e. rbind (stream_identity_for A (en_id e)) (\<lambda>i. Inr (i, e))) es = Inr ?ies"
    using assms by (intro try_map_total) (simp add: list_all_iff batch_ready_ident [where repo = repo])
  have "list_all (filed (im_snapshots repo)) (get_snapshots (im_snapshots repo) (map fst ?ies))"
    using assms
    by (induction es)
      (auto simp: get_snapshots_def List.map_filter_def batch_ready_def split: sum.splits option.splits)
  then obtain m where m: "index_snapshots [] (get_snapshots (im_snapshots repo) (map fst ?ies)) = Inr m"
    "part_of m (im_snapshots repo)"
    using index_snapshots_ok [of "im_snapshots repo" _ "[]"] by (auto simp: part_of_def)
  have "list_all (\<lambda>(i, e). hydratable A e \<and>
      pred_option (snapshot_sound A (en_id e) (en_events e)) (map_of (im_snapshots repo) (storage_key i))) ?ies"
    unfolding list.pred_map using assms
    by (rule list.pred_mono_strong) (use batch_ready_sound in \<open>simp add: comp_def\<close>)
  from hydrate_indexed_agrees [OF this m(2)] m(1) show ?thesis
    by (simp add: hydrate_entities_def pairs hydrate_all_from_store_def memory_calls comp_def)
qed


text \<open>
  The cache as the commits keep it: the record never runs ahead of its stream. And an aggregate
  whose state is what its events denote.
\<close>

definition cache_inv :: "('a, 's) snapshottable \<Rightarrow> in_memory_repository \<Rightarrow> string \<Rightarrow> bool" where
  "cache_inv A repo i =
     (case stream_identity_for A i of
        Inl _ \<Rightarrow> True
      | Inr ident \<Rightarrow>
          pred_option (\<lambda>s. validate_for_identity s ident = Inr () \<and>
              sr_version s \<le> length (stream_of (im_events repo) (storage_key ident)) \<and>
              snapshot_sound A i (stream_of (im_events repo) (storage_key ident)) s)
            (map_of (im_snapshots repo) (storage_key ident)))"

definition reflects :: "('a, 'z) aggregate_scheme \<Rightarrow> event_record list \<Rightarrow> 'a \<Rightarrow> bool" where
  "reflects A evs a =
     (case replay_state A (en_id (ag_entity A a)) evs of
        Inl _ \<Rightarrow> False
      | Inr b \<Rightarrow> ag_set_entity A (ag_entity A a) b = a)"

lemma cache_inv_sound: "cache_inv A repo i \<Longrightarrow> cache_sound A repo i"
  by (cases "stream_identity_for A i")
    (auto simp: cache_inv_def cache_sound_def elim: option.pred_mono_strong)

lemma snapshot_sound_grows:
  "snapshot_sound A i evs s \<Longrightarrow> sr_version s \<le> length evs \<Longrightarrow> snapshot_sound A i (evs @ later) s"
  by (cases "ag_deserialize A (sr_payload s)") (simp_all add: snapshot_sound_def)

lemma fresh_snapshot_sound:
  assumes "snapshot_laws A (en_id (ag_entity A a))" "reflects A evs a"
    and "snapshot_record_for A now a = Inr s" "en_version (ag_entity A a) = length evs"
  shows "snapshot_sound A (en_id (ag_entity A a)) evs s" "sr_version s = length evs"
proof -
  from assms(2) obtain b where b: "replay_state A (en_id (ag_entity A a)) evs = Inr b"
    "ag_set_entity A (ag_entity A a) b = a"
    by (auto simp: reflects_def split: sum.splits)
  from assms(3) obtain p where p: "ag_serialize A (ag_create_snapshot A a) = Inr p"
    "sr_payload s = p" "sr_version s = en_version (ag_entity A a)"
    by (auto simp: snapshot_record_for_def snapshot_record_new_def res_simps)
  show "sr_version s = length evs" using p(3) assms(4) by simp
  have "ag_create_snapshot A b = ag_create_snapshot A a"
    using snapshot_lawsD(2) [OF assms(1), of "ag_entity A a" b] b(2) by simp
  then show "snapshot_sound A (en_id (ag_entity A a)) evs s"
    using p assms(4) b(1) snapshot_lawsD(4) [OF assms(1) p(1)] by (simp add: snapshot_sound_def)
qed

lemma committed_stream:
  assumes "commit_batch_inner fmt lc now0 now1 now2
      ((commit_batch_new [\<lparr>sw_identity = ident, sw_entity = e\<rparr>])\<lparr>cb_snapshots := snaps\<rparr>) None None repo =
      (repo', es, Inr ())"
    and "entity_inv e" "new_events e = Some evs"
  shows "stream_of (im_events repo') (storage_key ident) = stream_of (im_events repo) (storage_key ident) @ evs"
    "length (stream_of (im_events repo') (storage_key ident)) = en_version e"
    "hm_contains (im_events repo') (storage_key ident)"
    "im_snapshots repo' = foldl insert_snapshot (im_snapshots repo) snaps"
    "list_all (\<lambda>w. validate_snapshot_write w = Inr ()) snaps" "es = [mark_committed e]"
proof -
  let ?w = "\<lparr>sw_identity = ident, sw_entity = e\<rparr>"
  let ?b = "(commit_batch_new [?w])\<lparr>cb_snapshots := snaps\<rparr>"
  from assms(1) obtain sg where sg: "stage_batch fmt lc now0 now1 now2 ?b None None repo = Inr sg"
    "repo' = publish_batch fmt ?b None sg repo" "es = map (\<lambda>w. mark_committed (sw_entity w)) (cb_streams ?b)"
    by (cases rule: commit_batch_inner_cases) auto
  have ok: "batch_entities_ok ?b" using assms(2) by (simp add: batch_entities_ok_def commit_batch_new_def)
  have b: "cb_streams ?b = [?w]" "cb_snapshots ?b = snaps" by (simp_all add: commit_batch_new_def)
  note app = staged_appends [OF sg(1) ok, unfolded b]
  have evs: "pa_events (append_of ?w) = evs"
    using new_events_inv [OF assms(2)] assms(3) by (simp add: append_of_def)
  have key: "append_key (append_of ?w) = storage_key ident" by (simp add: append_of_def)
  show s: "stream_of (im_events repo') (storage_key ident) = stream_of (im_events repo) (storage_key ident) @ evs"
    using stream_of_append_member [OF app(2), of "append_of ?w" "im_events repo"]
    by (simp add: sg(2) publish_batch_def app(1) key evs)
  show "hm_contains (im_events repo') (storage_key ident)"
    by (simp add: sg(2) publish_batch_def append_events_contains app(1) key)
  have "length (stream_of (im_events repo) (storage_key ident)) = en_committed_version e"
    using app(3) by (simp add: app(1) append_fits_def key) (simp add: append_of_def)
  moreover have "length evs = en_version e - en_committed_version e" "en_committed_version e \<le> en_version e"
    using evs assms(2) by (auto simp: append_of_def entity_inv_def)
  ultimately show "length (stream_of (im_events repo') (storage_key ident)) = en_version e"
    by (simp add: s)
  show "im_snapshots repo' = foldl insert_snapshot (im_snapshots repo) snaps"
    by (simp add: sg(2) publish_batch_def b)
  show "es = [mark_committed e]" by (simp add: sg(3) b)
  from sg(1) have "validate_commit_batch now0 ?b = Some (Inr (sg_prepared sg))"
    by (rule stage_batch_ok)
  then show "list_all (\<lambda>w. validate_snapshot_write w = Inr ()) snaps"
    by (auto simp: validate_commit_batch_def b res_simps list_all_iff split: sum.splits)
qed

lemma committed_cache:
  assumes laws: "snapshot_laws A (en_id (ag_entity A a))" and inv: "entity_inv (ag_entity A a)"
    and cache: "cache_inv A repo (en_id (ag_entity A a))"
    and ident: "stream_identity_for A (en_id (ag_entity A a)) = Inr ident"
    and new: "new_events (ag_entity A a) = Some evs"
    and state: "reflects A (stream_of (im_events repo) (storage_key ident) @ evs) a"
    and writes: "snapshot_writes A policy now a = Inr (snaps, v)"
    and commit: "commit_batch_inner fmt lc now0 now1 now2
      ((commit_batch_new [\<lparr>sw_identity = ident, sw_entity = ag_entity A a\<rparr>])\<lparr>cb_snapshots := snaps\<rparr>)
      None None repo = (repo', es, Inr ())"
  shows "cache_inv A repo' (en_id (ag_entity A a))"
proof -
  note c = committed_stream [OF commit inv new]
  have "snaps = [] \<or> (\<exists>r. snaps = [Save ident r] \<and> snapshot_record_for A now a = Inr r)"
    using writes ident
    by (auto simp: snapshot_writes_def snapshot_record_if_due_def res_simps split: option.splits if_splits)
  then show ?thesis
  proof
    assume "snaps = []"
    with cache show ?thesis
      by (auto simp: cache_inv_def ident c(1,4) elim!: option.pred_mono_strong intro: snapshot_sound_grows)
  next
    assume "\<exists>r. snaps = [Save ident r] \<and> snapshot_record_for A now a = Inr r"
    then obtain r where r: "snaps = [Save ident r]" "snapshot_record_for A now a = Inr r" by blast
    have "en_version (ag_entity A a) = length (stream_of (im_events repo) (storage_key ident) @ evs)"
      using c(1,2) by simp
    from fresh_snapshot_sound [OF laws state r(2) this] c(5)
    show ?thesis by (simp add: cache_inv_def ident c(1,4) r(1))
  qed
qed

lemma ag_commit_inner:
  assumes "ag_commit A (memory_repository fmt lc) policy now now' a repo = Some (repo', a', Inr ())"
  obtains ident snaps v es where "stream_identity_for A (en_id (ag_entity A a)) = Inr ident"
    "snapshot_writes A policy (now 0) a = Inr (snaps, v)"
    "commit_batch_inner fmt lc (now' 0) (now' 1) (now' 2)
      ((commit_batch_new [\<lparr>sw_identity = ident, sw_entity = ag_entity A a\<rparr>])\<lparr>cb_snapshots := snaps\<rparr>)
      None None repo = (repo', es, Inr ())"
  using assms
  by (auto simp: ag_commit_def memory_repository_def commit_batch_repo_def res_simps map_prod_def
      split: sum.splits prod.splits)

lemma call_map_found:
  assumes "call_map (map_option g) x = Some (r, Inr (Some y))"
  shows "\<exists>z. x = Some (r, Inr (Some z)) \<and> g z = y"
proof -
  from assms obtain res where "x = Some (r, res)" "map_sum id (map_option g) res = Inr (Some y)"
    by (auto simp: call_map_def)
  then show ?thesis by (cases res) auto
qed


text \<open>A counter that ticked once, committed with a snapshot.\<close>

definition counter_ticked :: "entity \<times> nat" where
  "counter_ticked = (push_new_event 6 (event_record_new 5 ''tick'' [] 1) (with_id 4 ''7''), 1)"

definition counter_identity :: stream_identity where
  "counter_identity = \<lparr>si_aggregate_type = ''counter'', si_aggregate_id = ''7''\<rparr>"

definition counter_commit ::
  "(in_memory_repository \<times> (entity \<times> nat) \<times> (repository_error outcome_fault + unit)) option" where
  "counter_commit = ag_commit counter (memory_repository sample_fmt todo_codec) (Some 1) (\<lambda>_. 8) (\<lambda>_. 9)
     counter_ticked in_memory_repository_new"

definition counter_repo :: in_memory_repository where
  "counter_repo = fst (the counter_commit)"

lemma counter_evaluated:
  "map_option (\<lambda>(repo, a, res). (res, map_of (im_snapshots repo) (storage_key counter_identity),
       stream_of (im_events repo) (storage_key counter_identity))) counter_commit =
   Some (Inr (), Some (snapshot_record_new 8 ''counter'' ''7'' 1 1 [0]), [event_record_new 5 ''tick'' [] 1])"
  by code_simp

lemma counter_committed:
  "ag_commit counter (memory_repository sample_fmt todo_codec) (Some 1) (\<lambda>_. 8) (\<lambda>_. 9)
     counter_ticked in_memory_repository_new = Some (counter_repo, fst (snd (the counter_commit)), Inr ())"
  "map_of (im_snapshots counter_repo) (storage_key counter_identity) =
     Some (snapshot_record_new 8 ''counter'' ''7'' 1 1 [0])"
  "stream_of (im_events counter_repo) (storage_key counter_identity) = [event_record_new 5 ''tick'' [] 1]"
  using counter_evaluated by (auto simp: counter_repo_def counter_commit_def)

lemma counter_repo_inv: "repo_inv counter_repo"
proof -
  have "entity_inv (ag_entity counter counter_ticked)" by code_simp
  then show ?thesis
    using ag_commit_inner [OF counter_committed(1)] commit_moves_on [OF _ _ repo_inv_new]
    by (metis batch_entities_ok_def commit_batch.select_convs(1) commit_batch.update_convs(4)
        commit_batch_new_def list.pred_inject stream_write.select_convs(2))
qed

lemma counter_cache: "cache_inv counter in_memory_repository_new ''7''"
  by (simp add: cache_inv_def in_memory_repository_new_def split: sum.split)

lemma counter_inputs:
  "entity_inv (ag_entity counter counter_ticked)"
  "en_id (ag_entity counter counter_ticked) = ''7''" "stream_identity_for counter ''7'' = Inr counter_identity"
  "new_events (ag_entity counter counter_ticked) = Some [event_record_new 5 ''tick'' [] 1]"
  "reflects counter (stream_of (im_events in_memory_repository_new) (storage_key counter_identity) @
     [event_record_new 5 ''tick'' [] 1]) counter_ticked"
  by code_simp+



end
