(* ===== verification/Memory_Lock.thy ===== *)
theory Memory_Lock
  imports Dist_Prelude
begin

text \<open>
  The in-process locks (\<^verbatim>\<open>src/src/lock/in_memory.rs\<close>) and their manager. A waker is the task it wakes;
  an \<^verbatim>\<open>Arc\<close> is an address, with the handles that keep it alive recorded by the manager's clients, so
  that the strong count of a lock is the map's own reference plus the outstanding handles. The
  standard mutexes are held for one operation each and nothing panics under them, so every
  operation is one step and poisoning does not occur.
\<close>

section \<open>State\<close>

type_synonym task = nat
type_synonym lock_addr = nat

record lock_state =
  lk_locked :: bool
  lk_waiters :: "task list"

record in_memory_lock =
  il_state :: lock_state
  il_registry :: "string option"

record lock_manager =
  mg_heap :: "(lock_addr, in_memory_lock) hashmap"
  mg_locks :: "(string, lock_addr) hashmap"
  mg_handles :: "(task \<times> string \<times> lock_addr) list"

definition lock_manager_new :: lock_manager where
  "lock_manager_new = \<lparr>mg_heap = [], mg_locks = [], mg_handles = []\<rparr>"

section \<open>One lock\<close>

definition lock_default :: lock_state where
  "lock_default = \<lparr>lk_locked = False, lk_waiters = []\<rparr>"

definition in_memory_lock_new :: in_memory_lock where
  "in_memory_lock_new = \<lparr>il_state = lock_default, il_registry = None\<rparr>"

definition try_lock_core :: "lock_state \<Rightarrow> lock_state \<times> bool" where
  "try_lock_core st = (if lk_locked st then (st, False) else (st\<lparr>lk_locked := True\<rparr>, True))"

text \<open>One poll of the acquiring future by a task: \<open>True\<close> is ready, \<open>False\<close> is pending.\<close>

definition poll_lock :: "task \<Rightarrow> lock_state \<Rightarrow> lock_state \<times> bool" where
  "poll_lock t st =
     (if \<not> lk_locked st then (st\<lparr>lk_locked := True\<rparr>, True)
      else if t \<in> set (lk_waiters st) then (st, False)
      else (st\<lparr>lk_waiters := lk_waiters st @ [t]\<rparr>, False))"

text \<open>Releasing the guarded state: the new state and the wakers taken out of it.\<close>

definition release_state :: "lock_state \<Rightarrow> lock_state \<times> task list" where
  "release_state st =
     (if lk_locked st then (st\<lparr>lk_locked := False, lk_waiters := []\<rparr>, lk_waiters st) else (st, []))"

section \<open>The manager\<close>

definition lock_at :: "lock_manager \<Rightarrow> lock_addr \<Rightarrow> in_memory_lock" where
  "lock_at m a = (case map_of (mg_heap m) a of None \<Rightarrow> in_memory_lock_new | Some l \<Rightarrow> l)"

definition put_state :: "lock_addr \<Rightarrow> lock_state \<Rightarrow> lock_manager \<Rightarrow> lock_manager" where
  "put_state a st m = m\<lparr>mg_heap := AList.update a ((lock_at m a)\<lparr>il_state := st\<rparr>) (mg_heap m)\<rparr>"

definition strong_count :: "lock_manager \<Rightarrow> lock_addr \<Rightarrow> nat" where
  "strong_count m a =
     length (filter (\<lambda>(_, b). b = a) (mg_locks m)) + length (filter (\<lambda>(_, _, b). b = a) (mg_handles m))"

definition evict_if_idle :: "lock_addr \<Rightarrow> lock_manager \<Rightarrow> lock_manager" where
  "evict_if_idle a m =
     (case il_registry (lock_at m a) of
        None \<Rightarrow> m
      | Some key \<Rightarrow>
          (case map_of (mg_locks m) key of
             None \<Rightarrow> m
           | Some entry \<Rightarrow>
               if entry \<noteq> a \<or> strong_count m entry \<noteq> 2 then m
               else
                 (let st = il_state (lock_at m a) in
                  if \<not> lk_locked st \<and> lk_waiters st = []
                  then m\<lparr>mg_locks := AList.delete key (mg_locks m)\<rparr> else m)))"

definition unlock_core :: "lock_addr \<Rightarrow> lock_manager \<Rightarrow> lock_manager \<times> task list" where
  "unlock_core a m =
     (let (st, woken) = release_state (il_state (lock_at m a))
      in (evict_if_idle a (put_state a st m), woken))"

text \<open>A fresh allocation, and the lookup that creates an entry when there is none.\<close>

definition fresh_addr :: "lock_manager \<Rightarrow> lock_addr" where
  "fresh_addr m = Suc (Max (insert 0 (set (map fst (mg_heap m)))))"

definition get_lock :: "task \<Rightarrow> string \<Rightarrow> lock_manager \<Rightarrow> lock_manager \<times> lock_addr" where
  "get_lock t key m =
     (case map_of (mg_locks m) key of
        Some a \<Rightarrow> (m\<lparr>mg_handles := (t, key, a) # mg_handles m\<rparr>, a)
      | None \<Rightarrow>
          (let a = fresh_addr m in
           (m\<lparr>mg_heap := AList.update a \<lparr>il_state = lock_default, il_registry = Some key\<rparr> (mg_heap m),
              mg_locks := AList.update key a (mg_locks m),
              mg_handles := (t, key, a) # mg_handles m\<rparr>, a)))"

definition drop_handle :: "task \<Rightarrow> string \<Rightarrow> lock_addr \<Rightarrow> lock_manager \<Rightarrow> lock_manager" where
  "drop_handle t key a m = m\<lparr>mg_handles := remove1 (t, key, a) (mg_handles m)\<rparr>"

section \<open>Clients\<close>

text \<open>
  Tasks that use the manager as its documentation asks: a handle is dropped once it was used to
  unlock, and only a task that holds a key unlocks it. \<open>ls_holders\<close> are the tasks between a
  successful acquisition and their unlock, \<open>ls_parked\<close> those whose last poll was pending and that
  have not been woken since. A task may drop a handle at any time it is not unlocking, also a
  handle through which it holds the lock, and a parked task may give up.
\<close>

record lock_system =
  ls_manager :: lock_manager
  ls_holders :: "(task \<times> string) list"
  ls_parked :: "(task \<times> string) list"

definition lock_system_new :: lock_system where
  "lock_system_new = \<lparr>ls_manager = lock_manager_new, ls_holders = [], ls_parked = []\<rparr>"

inductive lock_step :: "lock_system \<Rightarrow> lock_system \<Rightarrow> bool" where
  fetch: "get_lock t key m = (m', a) \<Longrightarrow>
    lock_step \<lparr>ls_manager = m, ls_holders = hs, ls_parked = ps\<rparr>
              \<lparr>ls_manager = m', ls_holders = hs, ls_parked = ps\<rparr>"
| acquire: "(t, key, a) \<in> set (mg_handles m) \<Longrightarrow> poll_lock t (il_state (lock_at m a)) = (st, True) \<Longrightarrow>
    lock_step \<lparr>ls_manager = m, ls_holders = hs, ls_parked = ps\<rparr>
              \<lparr>ls_manager = put_state a st m, ls_holders = (t, key) # hs, ls_parked = ps\<rparr>"
| park: "(t, key, a) \<in> set (mg_handles m) \<Longrightarrow> poll_lock t (il_state (lock_at m a)) = (st, False) \<Longrightarrow>
    lock_step \<lparr>ls_manager = m, ls_holders = hs, ls_parked = ps\<rparr>
              \<lparr>ls_manager = put_state a st m, ls_holders = hs, ls_parked = (t, key) # ps\<rparr>"
| try_acquire: "(t, key, a) \<in> set (mg_handles m) \<Longrightarrow> try_lock_core (il_state (lock_at m a)) = (st, True) \<Longrightarrow>
    lock_step \<lparr>ls_manager = m, ls_holders = hs, ls_parked = ps\<rparr>
              \<lparr>ls_manager = put_state a st m, ls_holders = (t, key) # hs, ls_parked = ps\<rparr>"
| unlock: "(t, key, a) \<in> set (mg_handles m) \<Longrightarrow> (t, key) \<in> set hs \<Longrightarrow> unlock_core a m = (m', woken) \<Longrightarrow>
    lock_step \<lparr>ls_manager = m, ls_holders = hs, ls_parked = ps\<rparr>
              \<lparr>ls_manager = drop_handle t key a m', ls_holders = remove1 (t, key) hs,
               ls_parked = filter (\<lambda>(u, k). \<not> (k = key \<and> u \<in> set woken)) ps\<rparr>"
| forget: "(t, key, a) \<in> set (mg_handles m) \<Longrightarrow>
    lock_step \<lparr>ls_manager = m, ls_holders = hs, ls_parked = ps\<rparr>
              \<lparr>ls_manager = drop_handle t key a m, ls_holders = hs,
               ls_parked = filter (\<lambda>p. p \<noteq> (t, key)) ps\<rparr>"

abbreviation lock_steps :: "lock_system \<Rightarrow> lock_system \<Rightarrow> bool" where
  "lock_steps \<equiv> lock_step\<^sup>*\<^sup>*"

section \<open>The invariant\<close>

text \<open>
  Every handle is of the entry of its key, a lock is locked exactly when one task holds its key, and
  a parked task is registered with the lock of its key, which is then locked.
\<close>

abbreviation state_at :: "lock_manager \<Rightarrow> lock_addr \<Rightarrow> lock_state" where
  "state_at m a \<equiv> il_state (lock_at m a)"

definition holders_of :: "string \<Rightarrow> (task \<times> string) list \<Rightarrow> nat" where
  "holders_of key hs = length (filter (\<lambda>(_, k). k = key) hs)"

definition entry_ok :: "lock_manager \<Rightarrow> (task \<times> string) list \<Rightarrow> string \<Rightarrow> lock_addr \<Rightarrow> bool" where
  "entry_ok m hs key a \<longleftrightarrow>
     hm_contains (mg_heap m) a \<and> il_registry (lock_at m a) = Some key \<and>
     (lk_waiters (state_at m a) \<noteq> [] \<longrightarrow> lk_locked (state_at m a)) \<and>
     holders_of key hs = (if lk_locked (state_at m a) then 1 else 0)"

definition parked_ok :: "lock_manager \<Rightarrow> task \<times> string \<Rightarrow> bool" where
  "parked_ok m p =
     (case map_of (mg_locks m) (snd p) of
        None \<Rightarrow> False | Some a \<Rightarrow> fst p \<in> set (lk_waiters (state_at m a)))"

definition handle_ok :: "lock_manager \<Rightarrow> task \<times> string \<times> lock_addr \<Rightarrow> bool" where
  "handle_ok m h \<longleftrightarrow> map_of (mg_locks m) (fst (snd h)) = Some (snd (snd h))"

definition holder_ok :: "lock_manager \<Rightarrow> task \<times> string \<Rightarrow> bool" where
  "holder_ok m h \<longleftrightarrow> hm_contains (mg_locks m) (snd h)"

definition manager_inv ::
  "lock_manager \<Rightarrow> (task \<times> string) list \<Rightarrow> (task \<times> string) list \<Rightarrow> bool" where
  "manager_inv m hs ps \<longleftrightarrow>
     distinct (map fst (mg_locks m)) \<and>
     hm_all (entry_ok m hs) (mg_locks m) \<and>
     list_all (handle_ok m) (mg_handles m) \<and>
     list_all (holder_ok m) hs \<and>
     list_all (parked_ok m) ps"

definition lock_inv :: "lock_system \<Rightarrow> bool" where
  "lock_inv s \<longleftrightarrow> manager_inv (ls_manager s) (ls_holders s) (ls_parked s)"

section \<open>Lemmas\<close>

lemma put_state_simps [simp]:
  "mg_locks (put_state a st m) = mg_locks m" "mg_handles (put_state a st m) = mg_handles m"
  "hm_contains (mg_heap (put_state a st m)) b \<longleftrightarrow> b = a \<or> hm_contains (mg_heap m) b"
  "lock_at (put_state a st m) b = (if b = a then (lock_at m a)\<lparr>il_state := st\<rparr> else lock_at m b)"
  by (auto simp: put_state_def lock_at_def hm_contains_def update_conv')

lemma handle_ok_put: "handle_ok (put_state a st m) = handle_ok m" "holder_ok (put_state a st m) = holder_ok m"
  by (simp_all add: handle_ok_def holder_ok_def fun_eq_iff)

lemma drop_handle_simps [simp]:
  "mg_locks (drop_handle t key a m) = mg_locks m" "mg_heap (drop_handle t key a m) = mg_heap m"
  "mg_handles (drop_handle t key a m) = remove1 (t, key, a) (mg_handles m)"
  "lock_at (drop_handle t key a m) b = lock_at m b"
  by (simp_all add: drop_handle_def lock_at_def)

lemma holders_of_simps [simp]:
  "holders_of key [] = 0" "holders_of key ((t, k) # hs) = (if k = key then Suc (holders_of key hs) else holders_of key hs)"
  by (simp_all add: holders_of_def)

lemma holders_of_pos: "(t, key) \<in> set hs \<Longrightarrow> 0 < holders_of key hs"
  by (induction hs) auto

lemma holders_of_remove:
  "(t, k) \<in> set hs \<Longrightarrow> holders_of key (remove1 (t, k) hs) = holders_of key hs - (if k = key then 1 else 0)"
proof (induction hs)
  case (Cons h hs)
  obtain u l where "h = (u, l)" by (cases h)
  with Cons holders_of_pos [of t k hs] show ?case by (cases "(t, k) \<in> set hs") auto
qed simp

lemma entries_distinct:
  assumes "manager_inv m hs ps" "map_of (mg_locks m) key = Some a" "map_of (mg_locks m) key' = Some a"
  shows "key' = key"
proof -
  from assms(1) have "hm_all (entry_ok m hs) (mg_locks m)" by (simp add: manager_inv_def)
  from hm_all_lookup [OF this assms(2)] hm_all_lookup [OF this assms(3)] show ?thesis
    by (simp add: entry_ok_def)
qed

text \<open>A change of one lock's state, its holders and its parked tasks.\<close>

lemma manager_inv_put:
  assumes inv: "manager_inv m hs ps" and a: "map_of (mg_locks m) key = Some a"
    and "lk_waiters st \<noteq> [] \<longrightarrow> lk_locked st" "holders_of key hs' = (if lk_locked st then 1 else 0)"
    and other: "\<And>k. k \<noteq> key \<Longrightarrow> holders_of k hs' = holders_of k hs"
    and "list_all (holder_ok m) hs'"
    and parked: "list_all (parked_ok (put_state a st m)) ps'"
  shows "manager_inv (put_state a st m) hs' ps'"
proof -
  have "entry_ok (put_state a st m) hs' k b" if k: "map_of (mg_locks m) k = Some b" for k b
  proof (cases "k = key")
    case True
    have "entry_ok m hs key a" using inv a by (auto simp: manager_inv_def dest: hm_all_lookup)
    with True k a assms(3,4) show ?thesis by (simp add: entry_ok_def)
  next
    case False
    with entries_distinct [OF inv a] k have "b \<noteq> a" by blast
    moreover have "entry_ok m hs k b" using inv k by (auto simp: manager_inv_def dest: hm_all_lookup)
    ultimately show ?thesis using other [OF False] by (simp add: entry_ok_def)
  qed
  moreover have "distinct (map fst (mg_locks m))" using inv by (simp add: manager_inv_def)
  ultimately have "hm_all (entry_ok (put_state a st m) hs') (mg_locks m)"
    by (auto simp: hm_all_def list_all_iff)
  with inv assms(6) parked show ?thesis
    unfolding manager_inv_def put_state_simps handle_ok_put by blast
qed

lemma parked_ok_put:
  assumes "parked_ok m p" "set (lk_waiters (state_at m a)) \<subseteq> set (lk_waiters st)"
  shows "parked_ok (put_state a st m) p"
  using assms by (auto simp: parked_ok_def split: option.splits)

lemma manager_invD:
  assumes "manager_inv m hs ps"
  shows "map_of (mg_locks m) key = Some a \<Longrightarrow> entry_ok m hs key a"
    "(t, key, a) \<in> set (mg_handles m) \<Longrightarrow> map_of (mg_locks m) key = Some a"
    "(t, key) \<in> set hs \<Longrightarrow> hm_contains (mg_locks m) key"
    "(t, key) \<in> set ps \<Longrightarrow> parked_ok m (t, key)"
proof -
  from assms have inv: "hm_all (entry_ok m hs) (mg_locks m)" "list_all (handle_ok m) (mg_handles m)"
    "list_all (holder_ok m) hs" "list_all (parked_ok m) ps"
    by (simp_all add: manager_inv_def)
  show "map_of (mg_locks m) key = Some a \<Longrightarrow> entry_ok m hs key a" using hm_all_lookup [OF inv(1)] .
  show "(t, key, a) \<in> set (mg_handles m) \<Longrightarrow> map_of (mg_locks m) key = Some a"
    using inv(2) by (auto simp: list_all_iff handle_ok_def)
  show "(t, key) \<in> set hs \<Longrightarrow> hm_contains (mg_locks m) key"
    using inv(3) by (auto simp: list_all_iff holder_ok_def)
  show "(t, key) \<in> set ps \<Longrightarrow> parked_ok m (t, key)" using inv(4) by (simp add: list_all_iff)
qed

lemma acquired_inv:
  assumes inv: "manager_inv m hs ps" and h: "(t, key, a) \<in> set (mg_handles m)"
    and free: "\<not> lk_locked (state_at m a)"
  shows "manager_inv (put_state a ((state_at m a)\<lparr>lk_locked := True\<rparr>) m) ((t, key) # hs) ps"
proof -
  note a = manager_invD(2) [OF inv h]
  have "entry_ok m hs key a" using manager_invD(1) [OF inv a] .
  with free have "holders_of key hs = 0" by (simp add: entry_ok_def)
  moreover have "list_all (parked_ok (put_state a ((state_at m a)\<lparr>lk_locked := True\<rparr>) m)) ps"
    using inv by (auto simp: manager_inv_def list_all_iff intro!: parked_ok_put)
  moreover have "list_all (holder_ok m) ((t, key) # hs)"
    using inv a by (simp add: manager_inv_def holder_ok_def hm_contains_def)
  ultimately show ?thesis
    by (intro manager_inv_put [OF inv a]) simp_all
qed

lemma parked_inv:
  assumes inv: "manager_inv m hs ps" and h: "(t, key, a) \<in> set (mg_handles m)"
    and p: "poll_lock t (state_at m a) = (st, False)"
  shows "manager_inv (put_state a st m) hs ((t, key) # ps)"
proof -
  note a = manager_invD(2) [OF inv h]
  have e: "entry_ok m hs key a" using manager_invD(1) [OF inv a] .
  have st: "lk_locked (state_at m a)" "lk_locked st" "t \<in> set (lk_waiters st)"
    "set (lk_waiters (state_at m a)) \<subseteq> set (lk_waiters st)"
    using p by (auto simp: poll_lock_def split: if_splits)
  have "list_all (parked_ok (put_state a st m)) ps"
    using inv st(4) by (auto simp: manager_inv_def list_all_iff intro!: parked_ok_put)
  moreover have "parked_ok (put_state a st m) (t, key)"
    using a st(3) by (simp add: parked_ok_def)
  moreover have "list_all (holder_ok m) hs"
    using inv by (simp add: manager_inv_def)
  ultimately show ?thesis
    using e st(1,2) by (intro manager_inv_put [OF inv a]) (simp_all add: entry_ok_def)
qed

lemma released_inv:
  assumes inv: "manager_inv m hs ps" and h: "(t, key, a) \<in> set (mg_handles m)" and held: "(t, key) \<in> set hs"
    and r: "release_state (state_at m a) = (st, woken)"
  shows "manager_inv (put_state a st m) (remove1 (t, key) hs)
      (filter (\<lambda>(u, k). \<not> (k = key \<and> u \<in> set woken)) ps)"
    "holders_of key (remove1 (t, key) hs) = 0" "lk_waiters st = []" "\<not> lk_locked st"
proof -
  note a = manager_invD(2) [OF inv h]
  have e: "entry_ok m hs key a" using manager_invD(1) [OF inv a] .
  with holders_of_pos [OF held] have l: "lk_locked (state_at m a)" "holders_of key hs = 1"
    by (simp_all add: entry_ok_def split: if_splits)
  with r show st: "lk_waiters st = []" "\<not> lk_locked st" by (auto simp: release_state_def)
  show none: "holders_of key (remove1 (t, key) hs) = 0" using l(2) holders_of_remove [OF held] by simp
  have woken: "woken = lk_waiters (state_at m a)" using r l(1) by (simp add: release_state_def)
  have "parked_ok (put_state a st m) (u, k)" if "(u, k) \<in> set ps" "\<not> (k = key \<and> u \<in> set woken)" for u k
  proof -
    have "parked_ok m (u, k)" using manager_invD(4) [OF inv that(1)] .
    then obtain b where b: "map_of (mg_locks m) k = Some b" "u \<in> set (lk_waiters (state_at m b))"
      by (auto simp: parked_ok_def split: option.splits)
    with that(2) a woken have "k \<noteq> key" by auto
    with entries_distinct [OF inv a] b(1) have "b \<noteq> a" by blast
    with b show ?thesis by (simp add: parked_ok_def)
  qed
  then have "list_all (parked_ok (put_state a st m)) (filter (\<lambda>(u, k). \<not> (k = key \<and> u \<in> set woken)) ps)"
    by (auto simp: list_all_iff)
  moreover have "list_all (holder_ok m) (remove1 (t, key) hs)"
    using inv by (auto simp: manager_inv_def list_all_iff dest: notin_set_remove1)
  ultimately show "manager_inv (put_state a st m) (remove1 (t, key) hs)
      (filter (\<lambda>(u, k). \<not> (k = key \<and> u \<in> set woken)) ps)"
    using st none holders_of_remove [OF held] by (intro manager_inv_put [OF inv a]) simp_all
qed

lemma only_reference:
  assumes "x \<in> set xs" "P x" "length (filter P xs) \<le> 1"
  shows "list_all (\<lambda>y. \<not> P y) (remove1 x xs)"
proof -
  from assms(1) obtain ys zs where xs: "xs = ys @ x # zs" "x \<notin> set ys" by (meson split_list_first)
  with assms(2,3) have "filter P ys = []" "filter P zs = []" by simp_all
  with xs show ?thesis by (auto simp: remove1_append list_all_iff filter_empty_conv)
qed

lemma evicted_inv:
  assumes inv: "manager_inv m hs ps" and h: "(t, key, a) \<in> set (mg_handles m)"
    and none: "holders_of key hs = 0" and idle: "lk_waiters (state_at m a) = []"
    and one: "strong_count m a = 2"
  shows "manager_inv (drop_handle t key a (m\<lparr>mg_locks := AList.delete key (mg_locks m)\<rparr>)) hs ps"
proof -
  note a = manager_invD(2) [OF inv h]
  let ?m = "drop_handle t key a (m\<lparr>mg_locks := AList.delete key (mg_locks m)\<rparr>)"
  have same: "lock_at ?m b = lock_at m b" "mg_heap ?m = mg_heap m" for b by (simp_all add: lock_at_def)
  have locks: "map_of (mg_locks ?m) k = (if k = key then None else map_of (mg_locks m) k)" for k
    by (simp add: delete_conv')
  have d: "distinct (map fst (mg_locks ?m))" using inv by (simp add: manager_inv_def distinct_delete)
  have "entry_ok ?m hs k b" if "(k, b) \<in> set (mg_locks ?m)" for k b
  proof -
    from d that have "map_of (mg_locks ?m) k = Some b" by (rule map_of_is_SomeI)
    then have "map_of (mg_locks m) k = Some b" by (simp add: locks split: if_splits)
    from manager_invD(1) [OF inv this] show ?thesis unfolding entry_ok_def same .
  qed
  then have entries: "hm_all (entry_ok ?m hs) (mg_locks ?m)" by (auto simp: hm_all_def list_all_iff)
  have "(key, a) \<in> set (mg_locks m)" using a by (rule map_of_SomeD)
  then have "0 < length (filter (\<lambda>(_, b). b = a) (mg_locks m))"
    by (auto simp: filter_empty_conv)
  with one have "length (filter (\<lambda>(_, _, b). b = a) (mg_handles m)) \<le> 1"
    unfolding strong_count_def by linarith
  with h have gone: "list_all (\<lambda>y. \<not> (\<lambda>(_, _, b). b = a) y) (mg_handles ?m)"
    unfolding drop_handle_simps by (intro only_reference) simp_all
  have handles: "handle_ok ?m x" if "x \<in> set (mg_handles ?m)" for x
  proof -
    obtain u k b where x: "x = (u, k, b)" by (cases x)
    have "(u, k, b) \<in> set (mg_handles m)" using that by (simp add: x) (meson notin_set_remove1)
    then have k: "map_of (mg_locks m) k = Some b" using manager_invD(2) [OF inv] by blast
    have "b \<noteq> a" using gone that by (auto simp: x list_all_iff)
    with k a have "k \<noteq> key" by auto
    with k show ?thesis by (simp add: handle_ok_def x locks del: drop_handle_simps)
  qed
  have holders: "holder_ok ?m (u, k)" if "(u, k) \<in> set hs" for u k
    using manager_invD(3) [OF inv that] holders_of_pos [OF that] none
    by (auto simp: holder_ok_def hm_contains_def locks simp del: drop_handle_simps)
  have parked: "parked_ok ?m (u, k)" if "(u, k) \<in> set ps" for u k
  proof -
    have p: "parked_ok m (u, k)" using manager_invD(4) [OF inv that] .
    then have "k \<noteq> key" using a idle by (auto simp: parked_ok_def)
    with p show ?thesis unfolding parked_ok_def locks same by simp
  qed
  show ?thesis
    unfolding manager_inv_def using d entries handles holders parked by (auto simp: list_all_iff simp del: drop_handle_simps)
qed

lemma dropped_inv:
  assumes "manager_inv m hs ps"
  shows "manager_inv (drop_handle t key a m) hs (filter P ps)"
proof -
  have eq: "entry_ok (drop_handle t key a m) = entry_ok m" "handle_ok (drop_handle t key a m) = handle_ok m"
    "holder_ok (drop_handle t key a m) = holder_ok m" "parked_ok (drop_handle t key a m) = parked_ok m"
    by (simp_all add: entry_ok_def handle_ok_def holder_ok_def parked_ok_def fun_eq_iff split: option.split)
  from assms show ?thesis
    unfolding manager_inv_def eq drop_handle_simps
    by (auto simp: list_all_iff dest: notin_set_remove1)
qed

lemma unlocked_inv:
  assumes inv: "manager_inv m hs ps" and h: "(t, key, a) \<in> set (mg_handles m)" and held: "(t, key) \<in> set hs"
    and u: "unlock_core a m = (m', woken)"
  shows "manager_inv (drop_handle t key a m') (remove1 (t, key) hs)
      (filter (\<lambda>(u, k). \<not> (k = key \<and> u \<in> set woken)) ps)"
proof -
  obtain st where st: "release_state (state_at m a) = (st, woken)"
    and m': "m' = evict_if_idle a (put_state a st m)"
    using u by (auto simp: unlock_core_def split: prod.splits)
  note r = released_inv [OF inv h held st]
  have h': "(t, key, a) \<in> set (mg_handles (put_state a st m))" using h by simp
  note a = manager_invD(2) [OF r(1) h']
  have reg: "il_registry (lock_at (put_state a st m) a) = Some key"
    using manager_invD(1) [OF r(1) a] by (simp add: entry_ok_def)
  show ?thesis
  proof (cases "strong_count (put_state a st m) a = 2")
    case True
    have "m' = (put_state a st m)\<lparr>mg_locks := AList.delete key (mg_locks (put_state a st m))\<rparr>"
      using True reg a r(3,4) by (simp add: m' evict_if_idle_def Let_def)
    then show ?thesis using evicted_inv [OF r(1) h' r(2) _ True] r(3) by simp
  next
    case False
    then have "m' = put_state a st m"
      using reg a by (simp add: m' evict_if_idle_def Let_def)
    then show ?thesis using dropped_inv [OF r(1), where P = "\<lambda>_. True"] by simp
  qed
qed

lemma fresh_addr_unused: "\<not> hm_contains (mg_heap m) (fresh_addr m)"
proof
  assume "hm_contains (mg_heap m) (fresh_addr m)"
  then have "fresh_addr m \<in> insert 0 (set (map fst (mg_heap m)))"
    by (auto simp: hm_contains_def map_of_eq_None_iff)
  then have "fresh_addr m \<le> Max (insert 0 (set (map fst (mg_heap m))))" by (intro Max_ge) auto
  then show False by (simp add: fresh_addr_def)
qed

lemma created_inv:
  assumes inv: "manager_inv m hs ps" and none: "map_of (mg_locks m) key = None"
  shows "manager_inv (m\<lparr>mg_heap := AList.update (fresh_addr m)
        \<lparr>il_state = lock_default, il_registry = Some key\<rparr> (mg_heap m),
      mg_locks := AList.update key (fresh_addr m) (mg_locks m),
      mg_handles := (t, key, fresh_addr m) # mg_handles m\<rparr>) hs ps" (is "manager_inv ?m hs ps")
proof -
  let ?a = "fresh_addr m"
  have lock: "lock_at ?m b = (if b = ?a then \<lparr>il_state = lock_default, il_registry = Some key\<rparr> else lock_at m b)" for b
    by (simp add: lock_at_def update_conv')
  have heap: "hm_contains (mg_heap ?m) b \<longleftrightarrow> b = ?a \<or> hm_contains (mg_heap m) b" for b
    by (auto simp: hm_contains_def update_conv')
  have locks: "map_of (mg_locks ?m) k = (if k = key then Some ?a else map_of (mg_locks m) k)" for k
    by (simp add: update_conv')
  have old: "b \<noteq> ?a" if "map_of (mg_locks m) k = Some b" for k b
    using manager_invD(1) [OF inv that] fresh_addr_unused [of m] by (auto simp: entry_ok_def)
  have "(u, key) \<notin> set hs" for u
  proof
    assume "(u, key) \<in> set hs"
    from manager_invD(3) [OF inv this] none show False by (simp add: hm_contains_def)
  qed
  then have "holders_of key hs = 0" by (auto simp: holders_of_def filter_empty_conv)
  then have new: "entry_ok ?m hs key ?a" unfolding entry_ok_def lock heap by (simp add: lock_default_def)
  have d: "distinct (map fst (mg_locks ?m))" using inv by (simp add: manager_inv_def distinct_update)
  have "entry_ok ?m hs k b" if "(k, b) \<in> set (mg_locks ?m)" for k b
  proof -
    from d that have k: "map_of (mg_locks ?m) k = Some b" by (rule map_of_is_SomeI)
    show ?thesis
    proof (cases "k = key")
      case True
      with k new show ?thesis unfolding locks by simp
    next
      case False
      with k have k': "map_of (mg_locks m) k = Some b" unfolding locks by simp
      from manager_invD(1) [OF inv k'] old [OF k'] show ?thesis unfolding entry_ok_def lock heap by simp
    qed
  qed
  then have entries: "hm_all (entry_ok ?m hs) (mg_locks ?m)" by (auto simp: hm_all_def list_all_iff)
  have "handle_ok ?m (u, k, b)" if "(u, k, b) \<in> set (mg_handles m)" for u k b
    using manager_invD(2) [OF inv that] none unfolding handle_ok_def locks by auto
  moreover have "handle_ok ?m (t, key, ?a)" unfolding handle_ok_def locks by simp
  ultimately have handles: "list_all (handle_ok ?m) (mg_handles ?m)" by (auto simp: list_all_iff)
  have "holder_ok ?m (u, k)" if "(u, k) \<in> set hs" for u k
    using manager_invD(3) [OF inv that] unfolding holder_ok_def hm_contains_def locks by simp
  then have holders: "list_all (holder_ok ?m) hs" by (auto simp: list_all_iff)
  have "parked_ok ?m (u, k)" if "(u, k) \<in> set ps" for u k
    using manager_invD(4) [OF inv that] none old [of k]
    unfolding parked_ok_def locks lock by (auto split: option.splits)
  then have "list_all (parked_ok ?m) ps" by (auto simp: list_all_iff)
  with d entries handles holders show ?thesis unfolding manager_inv_def by blast
qed

lemma lock_step_inv: "lock_step s s' \<Longrightarrow> lock_inv s \<Longrightarrow> lock_inv s'"
proof (induction rule: lock_step.induct)
  case (fetch t key m m' a hs ps)
  have "manager_inv (m\<lparr>mg_handles := (t, key, b) # mg_handles m\<rparr>) hs ps"
    if "map_of (mg_locks m) key = Some b" for b
  proof -
    let ?m = "m\<lparr>mg_handles := (t, key, b) # mg_handles m\<rparr>"
    have eq: "entry_ok ?m = entry_ok m" "handle_ok ?m = handle_ok m" "holder_ok ?m = holder_ok m"
      "parked_ok ?m = parked_ok m"
      by (simp_all add: entry_ok_def handle_ok_def holder_ok_def parked_ok_def lock_at_def fun_eq_iff
          split: option.split)
    show ?thesis
      using fetch(2) that unfolding lock_inv_def manager_inv_def eq by (simp add: handle_ok_def)
  qed
  with fetch created_inv [of m hs ps key t] show ?case
    by (auto simp: lock_inv_def get_lock_def Let_def split: option.splits)
next
  case (acquire t key a m st hs ps)
  then show ?case
    using acquired_inv [of m hs ps t key a] by (auto simp: lock_inv_def poll_lock_def split: if_splits)
next
  case (park t key a m st hs ps)
  then show ?case using parked_inv by (simp add: lock_inv_def)
next
  case (try_acquire t key a m st hs ps)
  then show ?case
    using acquired_inv [of m hs ps t key a] by (auto simp: lock_inv_def try_lock_core_def split: if_splits)
next
  case (unlock t key a m hs m' woken ps)
  then show ?case using unlocked_inv by (simp add: lock_inv_def)
next
  case (forget t key a m hs ps)
  then show ?case using dropped_inv by (simp add: lock_inv_def)
qed

lemma lock_inv_new: "lock_inv lock_system_new"
  by (simp add: lock_inv_def lock_system_new_def lock_manager_new_def manager_inv_def)

lemma lock_steps_inv: "lock_steps s s' \<Longrightarrow> lock_inv s \<Longrightarrow> lock_inv s'"
  by (induction rule: rtranclp_induct) (auto intro: lock_step_inv)

lemma holders_distinct: "(\<And>key. holders_of key hs \<le> 1) \<Longrightarrow> distinct (map snd hs)"
proof (induction hs)
  case (Cons h hs)
  obtain t k where h: "h = (t, k)" by (cases h)
  have "holders_of key hs \<le> 1" for key using Cons.prems [of key] by (simp add: h split: if_splits)
  moreover have "holders_of k hs = 0" using Cons.prems [of k] by (simp add: h)
  then have "k \<notin> snd ` set hs" using holders_of_pos by fastforce
  ultimately show ?case using Cons.IH by (simp add: h)
qed simp

section \<open>Properties\<close>


text \<open>Two tasks contending for one key: the first holds it, the second is parked.\<close>

definition one_lock :: "bool \<Rightarrow> task list \<Rightarrow> (task \<times> string \<times> lock_addr) list \<Rightarrow> lock_manager" where
  "one_lock locked waiters handles =
     \<lparr>mg_heap = [(1, \<lparr>il_state = \<lparr>lk_locked = locked, lk_waiters = waiters\<rparr>, il_registry = Some ''k''\<rparr>)],
      mg_locks = [(''k'', 1)], mg_handles = handles\<rparr>"

lemma one_lock_simps:
  "get_lock t ''k'' (one_lock l ws hs) = (one_lock l ws ((t, ''k'', 1) # hs), 1)"
  "state_at (one_lock l ws hs) 1 = \<lparr>lk_locked = l, lk_waiters = ws\<rparr>"
  "put_state 1 \<lparr>lk_locked = l', lk_waiters = ws'\<rparr> (one_lock l ws hs) = one_lock l' ws' hs"
  "mg_handles (one_lock l ws hs) = hs" "map_of (mg_locks (one_lock l ws hs)) ''k'' = Some 1"
  "get_lock t ''k'' lock_manager_new = (one_lock False [] [(t, ''k'', 1)], 1)"
  by (simp_all add: one_lock_def get_lock_def put_state_def lock_at_def lock_manager_new_def
      fresh_addr_def lock_default_def)


end
