(* ===== verification/Queued_Repo.thy ===== *)
theory Queued_Repo
  imports Aggregate_Repo Memory_Lock
begin

text \<open>
  The queued repository (\<^verbatim>\<open>src/src/queued_repo/repository.rs\<close>): any repository behind per-stream
  locks of the in-process lock manager. A locking read acquires the lock of its stream and keeps it;
  a successful commit releases the locks of its streams. The operations are those of one task: a
  handle is dropped when the operation that fetched it returns, and an operation that finds a lock
  taken waits, which is the value \<open>None\<close>. The ledger, projection, snapshot, read-model and inbox
  traits are forwarded to the inner repository unchanged.
\<close>

section \<open>Operations\<close>

record 'r queued_repository =
  qr_inner :: 'r
  qr_locks :: lock_manager

definition queued_new :: "'r \<Rightarrow> 'r queued_repository" where
  "queued_new r = \<lparr>qr_inner = r, qr_locks = lock_manager_new\<rparr>"

definition forward :: "('r, 'x) call \<Rightarrow> ('r queued_repository, 'x) call" where
  "forward f q = map_option (\<lambda>(r, res). (q\<lparr>qr_inner := r\<rparr>, res)) (f (qr_inner q))"

text \<open>Fetch the lock of a key, await it, and let the handle go.\<close>

definition await_key :: "task \<Rightarrow> string \<Rightarrow> ('r queued_repository, unit) call" where
  "await_key t key q =
     (let (m, a) = get_lock t key (qr_locks q);
          (st, acquired) = poll_lock t (state_at m a)
      in if acquired then Some (q\<lparr>qr_locks := drop_handle t key a (put_state a st m)\<rparr>, Inr ()) else None)"

fun await_keys :: "task \<Rightarrow> string list \<Rightarrow> ('r queued_repository, unit) call" where
  "await_keys t [] = call_result (Inr ())"
| "await_keys t (key # keys) = call_bind (await_key t key) (\<lambda>_. await_keys t keys)"

definition lock_ids_in_order :: "task \<Rightarrow> string list \<Rightarrow> ('r queued_repository, unit) call" where
  "lock_ids_in_order t ids = await_keys t (remdups_adj (sort ids))"

definition queued_get_stream ::
  "'r stream_repository \<Rightarrow> task \<Rightarrow> system_time \<Rightarrow> stream_identity
     \<Rightarrow> ('r queued_repository, entity option) call" where
  "queued_get_stream R t now i =
     call_bind (await_key t (storage_key i)) (\<lambda>_. forward (rp_get_stream R now i))"

definition queued_get_streams ::
  "'r stream_repository \<Rightarrow> task \<Rightarrow> clocks \<Rightarrow> stream_identity list
     \<Rightarrow> ('r queued_repository, entity list) call" where
  "queued_get_streams R t now is =
     call_bind (lock_ids_in_order t (map storage_key is)) (\<lambda>_. forward (rp_get_streams R now is))"

definition queued_get_stream_tail ::
  "'r stream_repository \<Rightarrow> task \<Rightarrow> system_time \<Rightarrow> stream_identity \<Rightarrow> nat
     \<Rightarrow> ('r queued_repository, entity option) call" where
  "queued_get_stream_tail R t now i after_version =
     call_bind (await_key t (storage_key i)) (\<lambda>_. forward (rp_get_stream_tail R now i after_version))"

text \<open>
  The commit resolves a handle per stream before it commits, and releases the locks only when the
  inner commit succeeded; otherwise the handles are dropped and the locks stay held.
\<close>

fun get_locks :: "task \<Rightarrow> string list \<Rightarrow> lock_manager \<Rightarrow> lock_manager \<times> (string \<times> lock_addr) list" where
  "get_locks t [] m = (m, [])"
| "get_locks t (key # keys) m =
     (let (m, a) = get_lock t key m; (m, as) = get_locks t keys m in (m, (key, a) # as))"

definition release_lock :: "task \<Rightarrow> lock_manager \<Rightarrow> string \<times> lock_addr \<Rightarrow> lock_manager" where
  "release_lock t m = (\<lambda>(key, a). drop_handle t key a (fst (unlock_core a m)))"

definition queued_commit_batch ::
  "'r stream_repository \<Rightarrow> task \<Rightarrow> clocks \<Rightarrow> commit_batch \<Rightarrow> 'r queued_repository
     \<Rightarrow> ('r queued_repository \<times> entity list \<times> (repository_error outcome_fault + unit)) option" where
  "queued_commit_batch R t now b q =
     (let (m, locks) = get_locks t (map (\<lambda>w. storage_key (sw_identity w)) (cb_streams b)) (qr_locks q)
      in map_option (\<lambda>(r, es, res).
             (\<lparr>qr_inner = r,
               qr_locks = (case res of
                 Inr _ \<Rightarrow> foldl (release_lock t) m locks
               | Inl _ \<Rightarrow> foldl (\<lambda>m (key, a). drop_handle t key a m) m locks)\<rparr>, es, res))
           (rp_commit_batch R now b (qr_inner q)))"

definition queued_repository :: "'r stream_repository \<Rightarrow> task \<Rightarrow> 'r queued_repository stream_repository" where
  "queued_repository R t =
     \<lparr>rp_get_stream = queued_get_stream R t, rp_get_streams = queued_get_streams R t,
      rp_get_stream_tail = queued_get_stream_tail R t,
      rp_get_snapshot = (\<lambda>i. forward (rp_get_snapshot R i)),
      rp_get_snapshots = (\<lambda>is. forward (rp_get_snapshots R is)),
      rp_commit_batch = queued_commit_batch R t\<rparr>"

record read_opts =
  ro_lock :: bool

definition no_lock :: read_opts where
  "no_lock = \<lparr>ro_lock = False\<rparr>"

definition get_stream_with ::
  "'r stream_repository \<Rightarrow> task \<Rightarrow> system_time \<Rightarrow> stream_identity \<Rightarrow> read_opts
     \<Rightarrow> ('r queued_repository, entity option) call" where
  "get_stream_with R t now i opts =
     call_bind (if ro_lock opts then await_key t (storage_key i) else call_result (Inr ()))
       (\<lambda>_. forward (rp_get_stream R now i))"

definition get_streams_with ::
  "'r stream_repository \<Rightarrow> task \<Rightarrow> clocks \<Rightarrow> stream_identity list \<Rightarrow> read_opts
     \<Rightarrow> ('r queued_repository, entity list) call" where
  "get_streams_with R t now is opts =
     call_bind (if ro_lock opts then lock_ids_in_order t (map storage_key is) else call_result (Inr ()))
       (\<lambda>_. forward (rp_get_streams R now is))"

definition queued_unlock :: "task \<Rightarrow> stream_identity \<Rightarrow> 'r queued_repository \<Rightarrow> 'r queued_repository" where
  "queued_unlock t i q =
     (let (m, a) = get_lock t (storage_key i) (qr_locks q)
      in q\<lparr>qr_locks := release_lock t m (storage_key i, a)\<rparr>)"

text \<open>The aggregate repository's reads with options, its abort and its unlock.\<close>

definition ag_get_with ::
  "('a, 's) snapshottable \<Rightarrow> 'r stream_repository \<Rightarrow> task \<Rightarrow> nat option \<Rightarrow> system_time \<Rightarrow> string \<Rightarrow> read_opts
     \<Rightarrow> ('r queued_repository, 'a option) call" where
  "ag_get_with A R t policy now i opts =
     call_bind (call_result (stream_identity_for A i)) (\<lambda>i.
     call_bind (get_stream_with R t now i opts) (\<lambda>e.
     case e of
       None \<Rightarrow> call_result (Inr None)
     | Some e \<Rightarrow> call_bind (hydrate_entity A (queued_repository R t) policy i e) (\<lambda>a. call_result (Inr (Some a)))))"

definition ag_peek ::
  "('a, 's) snapshottable \<Rightarrow> 'r stream_repository \<Rightarrow> task \<Rightarrow> nat option \<Rightarrow> system_time \<Rightarrow> string
     \<Rightarrow> ('r queued_repository, 'a option) call" where
  "ag_peek A R t policy now i = ag_get_with A R t policy now i no_lock"

definition ag_get_all_with ::
  "('a, 's) snapshottable \<Rightarrow> 'r stream_repository \<Rightarrow> task \<Rightarrow> nat option \<Rightarrow> clocks \<Rightarrow> string list \<Rightarrow> read_opts
     \<Rightarrow> ('r queued_repository, 'a list) call" where
  "ag_get_all_with A R t policy now ids opts =
     call_bind (call_result (try_map (stream_identity_for A) ids)) (\<lambda>is.
     call_bind (get_streams_with R t now is opts) (hydrate_entities A (queued_repository R t) policy))"

definition ag_unlock :: "('a, 's) snapshottable \<Rightarrow> task \<Rightarrow> string \<Rightarrow> ('r queued_repository, unit) call" where
  "ag_unlock A t i =
     call_bind (call_result (stream_identity_for A i)) (\<lambda>i q. Some (queued_unlock t i q, Inr ()))"

definition ag_abort :: "('a, 's) snapshottable \<Rightarrow> task \<Rightarrow> 'a \<Rightarrow> ('r queued_repository, unit) call" where
  "ag_abort A t a = ag_unlock A t (en_id (ag_entity A a))"

section \<open>Lemmas\<close>

definition key_locked :: "lock_manager \<Rightarrow> string \<Rightarrow> bool" where
  "key_locked m key =
     (case map_of (mg_locks m) key of None \<Rightarrow> False | Some a \<Rightarrow> lk_locked (state_at m a))"

lemma await_key_taken: "key_locked (qr_locks q) key \<Longrightarrow> await_key t key q = None"
  by (auto simp: key_locked_def await_key_def get_lock_def poll_lock_def lock_at_def
      split: option.splits prod.splits if_splits)

lemma await_key_free:
  assumes "\<not> key_locked (qr_locks q) key"
  obtains m where "await_key t key q = Some (q\<lparr>qr_locks := m\<rparr>, Inr ())" "key_locked m key"
proof (cases "map_of (mg_locks (qr_locks q)) key")
  case None
  let ?a = "fresh_addr (qr_locks q)"
  let ?m = "(qr_locks q)\<lparr>mg_heap := AList.update ?a \<lparr>il_state = lock_default, il_registry = Some key\<rparr>
      (mg_heap (qr_locks q)), mg_locks := AList.update key ?a (mg_locks (qr_locks q)),
      mg_handles := (t, key, ?a) # mg_handles (qr_locks q)\<rparr>"
  let ?m' = "drop_handle t key ?a (put_state ?a (lock_default\<lparr>lk_locked := True\<rparr>) ?m)"
  have at: "state_at ?m ?a = lock_default" by (simp add: lock_at_def update_conv')
  have "get_lock t key (qr_locks q) = (?m, ?a)" using None by (simp add: get_lock_def Let_def)
  with at have "await_key t key q = Some (q\<lparr>qr_locks := ?m'\<rparr>, Inr ())"
    by (simp add: await_key_def poll_lock_def lock_default_def)
  moreover have "key_locked ?m' key" by (simp add: key_locked_def update_conv')
  ultimately show thesis by (rule that)
next
  case (Some a)
  let ?m = "(qr_locks q)\<lparr>mg_handles := (t, key, a) # mg_handles (qr_locks q)\<rparr>"
  let ?m' = "drop_handle t key a (put_state a ((state_at ?m a)\<lparr>lk_locked := True\<rparr>) ?m)"
  have "\<not> lk_locked (state_at ?m a)" using assms Some by (simp add: key_locked_def lock_at_def)
  moreover have "get_lock t key (qr_locks q) = (?m, a)" using Some by (simp add: get_lock_def)
  ultimately have "await_key t key q = Some (q\<lparr>qr_locks := ?m'\<rparr>, Inr ())"
    by (simp add: await_key_def poll_lock_def)
  moreover have "key_locked ?m' key" using Some by (simp add: key_locked_def)
  ultimately show thesis by (rule that)
qed

lemma forward_memory:
  "f (qr_inner q) = Some (qr_inner q, res) \<Longrightarrow> forward f q = Some (q, res)"
  by (simp add: forward_def)

section \<open>Properties\<close>

text \<open>
  C18: Loading through a queued repository waits for a lock it took itself when the stored snapshot is
  unusable. The tail read takes and keeps the lock of the stream; the fallback to a full read then
  awaits the same lock, although it was free before. The same load on the inner repository returns
  the aggregate rebuilt from its events.
\<close>

theorem queued_stale_snapshot_load_waits:
  assumes "stream_identity_for A i = Inr ident" and "\<not> key_locked (qr_locks q) (storage_key ident)"
    and "map_of (im_snapshots (qr_inner q)) (storage_key ident) = Some s"
    and "get_stream_tail (now 0) ident (sr_version s) (qr_inner q) = Some e"
    and "prepare_snapshot A e s = Inl err"
  shows "ag_get A (queued_repository (memory_repository fmt lc) t) (Some frequency) now i q = None \<and>
    ag_get A (memory_repository fmt lc) (Some frequency) now i (qr_inner q) =
      Some (qr_inner q, hydrate_stream A (get_stream (now 1) ident (qr_inner q)))"
proof
  obtain cause where cause: "err = HydrateCache cause" using prepare_snapshot_Inl [OF assms(5)] by blast
  let ?Q = "queued_repository (memory_repository fmt lc) t"
  obtain m where m: "await_key t (storage_key ident) q = Some (q\<lparr>qr_locks := m\<rparr>, Inr ())"
    "key_locked m (storage_key ident)"
    by (rule await_key_free [OF assms(2)])
  have snap: "rp_get_snapshot ?Q ident q = Some (q, Inr (Some s))"
    by (simp add: queued_repository_def forward_def memory_reads get_snapshot_def assms(3))
  have tail: "rp_get_stream_tail ?Q (now 0) ident (sr_version s) q = Some (q\<lparr>qr_locks := m\<rparr>, Inr (Some e))"
    by (simp add: queued_repository_def queued_get_stream_tail_def call_bind_def m(1) forward_def
        memory_reads assms(4))
  have waits: "rp_get_stream ?Q n ident (q\<lparr>qr_locks := m\<rparr>) = None" for n
    using await_key_taken [of "q\<lparr>qr_locks := m\<rparr>"] m(2)
    by (simp add: queued_repository_def queued_get_stream_def call_bind_def)
  have "load_from_store A ?Q now ident q = None"
    by (simp add: load_from_store_def call_bind_def snap tail assms(5) cause waits)
  then show "ag_get A ?Q (Some frequency) now i q = None"
    by (simp add: ag_get_def assms(1))
  show "ag_get A (memory_repository fmt lc) (Some frequency) now i (qr_inner q) =
      Some (qr_inner q, hydrate_stream A (get_stream (now 1) ident (qr_inner q)))"
    by (simp add: ag_get_def assms(1) load_from_store_def memory_calls get_snapshot_def assms(3-5) cause)
qed

text \<open>The counter after its snapshot layout changed: the stored snapshot has the old version.\<close>

definition counter_v2 :: "(entity \<times> nat, nat) snapshottable" where
  "counter_v2 = counter\<lparr>ag_snapshot_version := 2\<rparr>"

theorem queued_stale_snapshot_load_waits_witness:
  "ag_get counter_v2 (queued_repository (memory_repository sample_fmt todo_codec) 1) (Some 1) (\<lambda>_. 10) ''7''
     (queued_new counter_repo) = None \<and>
   (\<exists>a. ag_get counter_v2 (memory_repository sample_fmt todo_codec) (Some 1) (\<lambda>_. 10) ''7'' counter_repo =
      Some (counter_repo, Inr (Some a)) \<and> snd a = 1)"
proof -
  let ?s = "snapshot_record_new 8 ''counter'' ''7'' 1 1 [0]" and ?ev = "event_record_new 5 ''tick'' [] 1"
  have ident: "stream_identity_for counter_v2 ''7'' = Inr counter_identity" by code_simp
  have free: "\<not> key_locked (qr_locks (queued_new counter_repo)) (storage_key counter_identity)"
    by (simp add: key_locked_def queued_new_def lock_manager_new_def)
  have inner: "qr_inner (queued_new counter_repo) = counter_repo" by (simp add: queued_new_def)
  have "map_of (im_events counter_repo) (storage_key counter_identity) = Some [?ev]"
    using counter_committed(3) by (cases "map_of (im_events counter_repo) (storage_key counter_identity)")
      (simp_all add: stream_of_def)
  then have get: "get_stream_tail 10 counter_identity 1 counter_repo =
      Some (load_tail_from_history [] 1 (set_id ''7'' (entity_new 10)))"
    "get_stream 10 counter_identity counter_repo =
      Some (load_from_history [?ev] (set_id ''7'' (entity_new 10)))"
    by (simp_all add: get_stream_tail_def get_stream_def counter_identity_def event_record_new_def)
  have stale: "\<exists>err. prepare_snapshot counter_v2 (load_tail_from_history [] 1 (set_id ''7'' (entity_new 10))) ?s = Inl err"
    by (simp add: prepare_snapshot_def validate_snapshot_for_entity_def counter_v2_def counter_def
        snapshot_record_new_def)
  have full: "map_sum id (map_option snd) (hydrate_stream counter_v2
      (Some (load_from_history [?ev] (set_id ''7'' (entity_new 10))))) = Inr (Some 1)" by code_simp
  then obtain a where a: "hydrate_stream counter_v2
      (Some (load_from_history [?ev] (set_id ''7'' (entity_new 10)))) = Inr (Some a)" "snd a = 1"
    by (cases "hydrate_stream counter_v2 (Some (load_from_history [?ev] (set_id ''7'' (entity_new 10))))") auto
  have v: "sr_version ?s = 1" by (simp add: snapshot_record_new_def)
  from stale obtain err where e:
    "prepare_snapshot counter_v2 (load_tail_from_history [] 1 (set_id ''7'' (entity_new 10))) ?s = Inl err" ..
  show ?thesis
    using queued_stale_snapshot_load_waits [OF ident free, where now = "\<lambda>_. 10" and frequency = 1 and
        fmt = sample_fmt and lc = todo_codec and t = 1, unfolded inner, OF counter_committed(2) _ e,
        unfolded v, OF get(1), unfolded get(2) a(1)] a(2) by blast
qed

end
