(* ===== verification/Outbox_Store.thy ===== *)
theory Outbox_Store
  imports Outbox_Message Repo_Errors "HOL-Library.Multiset"
begin

text \<open>
  The in-memory outbox store (\<^verbatim>\<open>src/src/outbox_worker/store\<close>) and the dispatch of claimed rows
  (\<^verbatim>\<open>src/src/outbox_worker/outbox_dispatch.rs\<close>). The store is the outbox table of the in-memory
  repository. Every store operation holds the table's lock, so it is one step; a dispatch is a claim,
  the publishes, and the settlement of each row. The publisher is a parameter: a state machine that
  accepts a message or answers with a transport error (\<^verbatim>\<open>src/src/bus/error.rs\<close>). Rows are
  published one after the other, the default concurrency. \<open>dbg\<close> is the Debug rendering of a row's
  state in error messages. Metrics and tracing spans are left out: they do not touch the store.
\<close>

section \<open>Requests and claims\<close>

type_synonym outbox_table = "(string, outbox_message) hashmap"

datatype failure_action = ActionReleased | ActionFailed

record backlog_stats =
  bs_pending :: nat
  bs_oldest_created_at :: "system_time option"

record claim_request =
  rq_worker_id :: string
  rq_batch_size :: nat
  rq_lease :: duration
  rq_destination :: "string option"
  rq_message_ids :: "string list option"

definition claim_request_new :: "string \<Rightarrow> nat \<Rightarrow> duration \<Rightarrow> claim_request" where
  "claim_request_new worker batch_size lease =
     \<lparr>rq_worker_id = worker, rq_batch_size = batch_size, rq_lease = lease, rq_destination = None,
      rq_message_ids = None\<rparr>"

definition to_destination :: "string \<Rightarrow> claim_request \<Rightarrow> claim_request" where
  "to_destination dest rq = rq\<lparr>rq_destination := Some dest\<rparr>"

definition claim_request_for_ids :: "string \<Rightarrow> string list \<Rightarrow> duration \<Rightarrow> claim_request" where
  "claim_request_for_ids worker ids lease =
     \<lparr>rq_worker_id = worker, rq_batch_size = length ids, rq_lease = lease, rq_destination = None,
      rq_message_ids = Some ids\<rparr>"

definition request_selects :: "claim_request \<Rightarrow> string \<Rightarrow> bool" where
  "request_selects rq i = (case rq_message_ids rq of Some ids \<Rightarrow> i \<in> set ids | None \<Rightarrow> True)"

record claim_ref =
  cf_message_id :: string
  cf_worker_id :: string
  cf_leased_until :: system_time
  cf_attempt :: nat

definition invalid_outbox_state :: "(outbox_message \<Rightarrow> string) \<Rightarrow> outbox_message \<Rightarrow> string \<Rightarrow> repository_error" where
  "invalid_outbox_state dbg m expected = InvalidState (ob_id m) expected (dbg m)"

definition claim_ref_from_message ::
  "(outbox_message \<Rightarrow> string) \<Rightarrow> outbox_message \<Rightarrow> repository_error + claim_ref" where
  "claim_ref_from_message dbg m =
     rbind (ok_or (invalid_outbox_state dbg m ''outbox claim worker'') (ob_worker_id m)) (\<lambda>worker.
     rbind (ok_or (invalid_outbox_state dbg m ''outbox claim lease'') (ob_leased_until m)) (\<lambda>until.
     Inr \<lparr>cf_message_id = ob_id m, cf_worker_id = worker, cf_leased_until = until,
          cf_attempt = ob_attempts m\<rparr>))"

definition ensure_active_claim ::
  "(outbox_message \<Rightarrow> string) \<Rightarrow> system_time \<Rightarrow> claim_ref option \<Rightarrow> outbox_message
     \<Rightarrow> repository_error + unit" where
  "ensure_active_claim dbg now c m =
     (if ob_status m \<noteq> InFlight then Inl (invalid_outbox_state dbg m ''in-flight outbox message'')
      else
      rbind (case c of
               None \<Rightarrow> Inr ()
             | Some c \<Rightarrow>
                 if \<not> is_claimed_by (cf_worker_id c) m
                 then Inl (invalid_outbox_state dbg m ''outbox claim held by requesting worker'')
                 else if ob_attempts m \<noteq> cf_attempt c
                 then Inl (invalid_outbox_state dbg m ''outbox claim attempt held by requesting worker'')
                 else Inr ()) (\<lambda>_.
      if has_expired_lease_at now m then Inl (invalid_outbox_state dbg m ''unexpired outbox claim'')
      else Inr ()))"

section \<open>Reads\<close>

definition claim_order_key :: "outbox_message \<Rightarrow> system_time \<times> string" where
  "claim_order_key m = (ob_created_at m, ob_id m)"

definition sort_by_claim_order :: "outbox_message list \<Rightarrow> outbox_message list" where
  "sort_by_claim_order ms = sort_key claim_order_key ms"

definition claim_order_ids :: "outbox_message list \<Rightarrow> string list" where
  "claim_order_ids ms = map ob_id (sort_key claim_order_key ms)"

definition messages_by_status :: "outbox_status \<Rightarrow> nat \<Rightarrow> outbox_table \<Rightarrow> outbox_message list" where
  "messages_by_status s limit t =
     take limit (sort_by_claim_order (filter (\<lambda>m. ob_status m = s) (map snd t)))"

definition outbox_pending :: "nat \<Rightarrow> outbox_table \<Rightarrow> outbox_message list" where
  "outbox_pending limit t = messages_by_status Pending limit t"

definition backlog_stats_of :: "outbox_table \<Rightarrow> backlog_stats" where
  "backlog_stats_of t =
     foldl (\<lambda>st m. \<lparr>bs_pending = Suc (bs_pending st),
                    bs_oldest_created_at = Some (case bs_oldest_created_at st of
                        None \<Rightarrow> ob_created_at m | Some oldest \<Rightarrow> min oldest (ob_created_at m))\<rparr>)
       \<lparr>bs_pending = 0, bs_oldest_created_at = None\<rparr>
       (filter (\<lambda>m. ob_status m = Pending) (map snd t))"

section \<open>Claiming\<close>

text \<open>
  The loop over the ids in claim order. \<open>wall\<close> are the readings of the clock inside the message's
  own claim, \<open>now\<close> the reading of the store. A failing claim ends the loop; rows claimed before it
  stay claimed.
\<close>

fun claim_loop ::
  "claim_request \<Rightarrow> system_time \<Rightarrow> (string \<Rightarrow> system_time) \<Rightarrow> string list \<Rightarrow> outbox_message list
     \<Rightarrow> outbox_table \<Rightarrow> outbox_table \<times> (repository_error + outbox_message list)" where
  "claim_loop rq now wall [] claimed t = (t, Inr claimed)"
| "claim_loop rq now wall (i # ids) claimed t =
     (if \<not> request_selects rq i then claim_loop rq now wall ids claimed t
      else
      case map_of t i of
        None \<Rightarrow> claim_loop rq now wall ids claimed t
      | Some m \<Rightarrow>
          if is_claimable_at now m then
            if rq_destination rq \<noteq> None \<and> ob_destination m \<noteq> rq_destination rq
            then claim_loop rq now wall ids claimed t
            else
              (case claim_at (wall i) (rq_worker_id rq) (rq_lease rq) now m of
                 Inl e \<Rightarrow> (t, Inl (repository_error_from_event_record e))
               | Inr m' \<Rightarrow>
                   let t' = AList.update i m' t; claimed' = claimed @ [m'] in
                   if rq_batch_size rq \<le> length claimed' then (t', Inr claimed')
                   else claim_loop rq now wall ids claimed' t')
          else if rq_batch_size rq \<le> length claimed then (t, Inr claimed)
          else claim_loop rq now wall ids claimed t)"

definition store_claim ::
  "claim_request \<Rightarrow> system_time \<Rightarrow> (string \<Rightarrow> system_time) \<Rightarrow> outbox_table
     \<Rightarrow> outbox_table \<times> (repository_error + outbox_message list)" where
  "store_claim rq now wall t =
     (if rq_batch_size rq = 0 then (t, Inr [])
      else claim_loop rq now wall (claim_order_ids (map snd t)) [] t)"

section \<open>Settling\<close>

definition update_outbox_message ::
  "string \<Rightarrow> (outbox_message \<Rightarrow> repository_error + outbox_message) \<Rightarrow> outbox_table
     \<Rightarrow> outbox_table \<times> (repository_error + unit)" where
  "update_outbox_message i f t =
     (case map_of t i of
        None \<Rightarrow> (t, Inl (NotFound i))
      | Some m \<Rightarrow>
          (case f m of Inl e \<Rightarrow> (t, Inl e) | Inr m' \<Rightarrow> (AList.update i m' t, Inr ())))"

definition settle_claim ::
  "(outbox_message \<Rightarrow> string) \<Rightarrow> (outbox_message \<Rightarrow> event_record_error + outbox_message) \<Rightarrow> system_time
     \<Rightarrow> claim_ref \<Rightarrow> outbox_message \<Rightarrow> repository_error + outbox_message" where
  "settle_claim dbg f now c m =
     rbind (ensure_active_claim dbg now (Some c) m) (\<lambda>_.
     map_err repository_error_from_event_record (f m))"

definition store_complete ::
  "(outbox_message \<Rightarrow> string) \<Rightarrow> system_time \<Rightarrow> claim_ref \<Rightarrow> outbox_table
     \<Rightarrow> outbox_table \<times> (repository_error + unit)" where
  "store_complete dbg now c t = update_outbox_message (cf_message_id c) (settle_claim dbg complete now c) t"

definition store_release ::
  "(outbox_message \<Rightarrow> string) \<Rightarrow> system_time \<Rightarrow> claim_ref \<Rightarrow> string \<Rightarrow> outbox_table
     \<Rightarrow> outbox_table \<times> (repository_error + unit)" where
  "store_release dbg now c err t =
     update_outbox_message (cf_message_id c) (settle_claim dbg (release err) now c) t"

definition store_fail ::
  "(outbox_message \<Rightarrow> string) \<Rightarrow> system_time \<Rightarrow> claim_ref \<Rightarrow> string \<Rightarrow> outbox_table
     \<Rightarrow> outbox_table \<times> (repository_error + unit)" where
  "store_fail dbg now c err t =
     update_outbox_message (cf_message_id c) (settle_claim dbg (fail err) now c) t"

text \<open>One clock reading for the whole batch; claims before a failing one stay completed.\<close>

fun complete_many ::
  "(outbox_message \<Rightarrow> string) \<Rightarrow> system_time \<Rightarrow> claim_ref list \<Rightarrow> outbox_table
     \<Rightarrow> outbox_table \<times> (repository_error + unit)" where
  "complete_many dbg now [] t = (t, Inr ())"
| "complete_many dbg now (c # cs) t =
     (case store_complete dbg now c t of
        (t', Inl e) \<Rightarrow> (t', Inl e)
      | (t', Inr _) \<Rightarrow> complete_many dbg now cs t')"

definition record_failure ::
  "(outbox_message \<Rightarrow> string) \<Rightarrow> system_time \<Rightarrow> claim_ref \<Rightarrow> string \<Rightarrow> nat \<Rightarrow> outbox_table
     \<Rightarrow> outbox_table \<times> (repository_error + failure_action)" where
  "record_failure dbg now c err max_attempts t =
     (if max_attempts \<le> cf_attempt c
      then map_prod id (map_sum id (\<lambda>_. ActionFailed)) (store_fail dbg now c err t)
      else map_prod id (map_sum id (\<lambda>_. ActionReleased)) (store_release dbg now c err t))"

section \<open>Messages\<close>

datatype message_kind = CommandKind | EventKind

record bus_message =
  bm_id :: "string option"
  bm_name :: string
  bm_kind :: message_kind
  bm_payload :: "byte list"
  bm_content_type :: string
  bm_metadata :: "(string \<times> string) list"

definition OUTBOX_CONTENT_TYPE :: string where
  "OUTBOX_CONTENT_TYPE = ''application/octet-stream''"

definition SOURCED_METADATA_PREFIX :: string where
  "SOURCED_METADATA_PREFIX = ''x-sourced-''"

definition to_ascii_lowercase :: "string \<Rightarrow> string" where
  "to_ascii_lowercase s =
     map (\<lambda>c. if 65 \<le> (of_char c :: nat) \<and> (of_char c :: nat) \<le> 90 then char_of ((of_char c :: nat) + 32) else c) s"

definition optional_meta :: "string \<Rightarrow> string option \<Rightarrow> (string \<times> string) list" where
  "optional_meta name v = (case v of None \<Rightarrow> [] | Some s \<Rightarrow> [(SOURCED_METADATA_PREFIX @ name, s)])"

definition message_from_outbox :: "outbox_message \<Rightarrow> bus_message" where
  "message_from_outbox m =
     \<lparr>bm_id = Some (ob_id m), bm_name = ob_event_type m,
      bm_kind = (if ob_destination m \<noteq> None then CommandKind else EventKind),
      bm_payload = ob_payload m, bm_content_type = OUTBOX_CONTENT_TYPE,
      bm_metadata =
        filter (\<lambda>(k, _). \<not> prefix SOURCED_METADATA_PREFIX (to_ascii_lowercase k)) (ob_metadata m) @
        [(SOURCED_METADATA_PREFIX @ ''payload-codec'', ob_payload_codec m),
         (SOURCED_METADATA_PREFIX @ ''payload-codec-version'', show_nat (ob_payload_codec_version m))] @
        optional_meta ''destination'' (ob_destination m) @
        optional_meta ''source-aggregate-type'' (ob_source_aggregate_type m) @
        optional_meta ''source-aggregate-id'' (ob_source_aggregate_id m) @
        optional_meta ''source-sequence'' (map_option show_nat (ob_source_sequence m))\<rparr>"

section \<open>Dispatch\<close>

datatype transport_error_kind = TransportRetryable | TransportPermanent

datatype transport_source = RepositorySource repository_error | OtherSource string

record transport_error =
  te_kind :: transport_error_kind
  te_message :: string
  te_source :: "transport_source option"
  te_retain_and_stop :: bool

definition transport_error_new :: "transport_error_kind \<Rightarrow> string \<Rightarrow> transport_error" where
  "transport_error_new kind msg =
     \<lparr>te_kind = kind, te_message = msg, te_source = None, te_retain_and_stop = False\<rparr>"

definition with_source :: "transport_source \<Rightarrow> transport_error \<Rightarrow> transport_error" where
  "with_source src e = e\<lparr>te_source := Some src\<rparr>"

definition display_transport_error :: "transport_error \<Rightarrow> string" where
  "display_transport_error e =
     ''transport error ('' @
     (case te_kind e of TransportRetryable \<Rightarrow> ''retryable'' | TransportPermanent \<Rightarrow> ''permanent'') @
     ''): '' @ te_message e"

definition transport_error_from_repository :: "repository_error \<Rightarrow> transport_error" where
  "transport_error_from_repository e =
     with_source (RepositorySource e)
       (transport_error_new TransportRetryable (display_repository_error e))"

type_synonym publish_result = "transport_error + unit"

type_synonym 'p publisher = "'p \<Rightarrow> bus_message \<Rightarrow> 'p \<times> publish_result"

record settle_outcome =
  so_published :: nat
  so_released :: nat
  so_failed :: nat

record dispatch_outcome =
  do_requested :: nat
  do_claimed :: nat
  do_published :: nat
  do_released :: nat
  do_failed :: nat

fun publish_all ::
  "'p publisher \<Rightarrow> (claim_ref \<times> bus_message) list \<Rightarrow> 'p \<Rightarrow> 'p \<times> (claim_ref \<times> publish_result) list" where
  "publish_all publish [] p = (p, [])"
| "publish_all publish ((c, msg) # work) p =
     (let (p, res) = publish p msg; (p, results) = publish_all publish work p in (p, (c, res) # results))"

text \<open>
  The settle phase: failures one by one, each with its own clock reading, then the published rows in
  one batch.
\<close>

fun settle_failures ::
  "(outbox_message \<Rightarrow> string) \<Rightarrow> (string \<Rightarrow> system_time) \<Rightarrow> nat \<Rightarrow> (claim_ref \<times> publish_result) list
     \<Rightarrow> settle_outcome \<Rightarrow> outbox_table \<Rightarrow> outbox_table \<times> (repository_error + settle_outcome)" where
  "settle_failures dbg clock max_attempts [] out t = (t, Inr out)"
| "settle_failures dbg clock max_attempts ((c, Inr _) # rs) out t =
     settle_failures dbg clock max_attempts rs out t"
| "settle_failures dbg clock max_attempts ((c, Inl err) # rs) out t =
     (case record_failure dbg (clock (cf_message_id c)) c (display_transport_error err) max_attempts t of
        (t', Inl e) \<Rightarrow> (t', Inl e)
      | (t', Inr ActionReleased) \<Rightarrow>
          settle_failures dbg clock max_attempts rs (out\<lparr>so_released := Suc (so_released out)\<rparr>) t'
      | (t', Inr ActionFailed) \<Rightarrow>
          settle_failures dbg clock max_attempts rs (out\<lparr>so_failed := Suc (so_failed out)\<rparr>) t')"

definition published_claims :: "(claim_ref \<times> publish_result) list \<Rightarrow> claim_ref list" where
  "published_claims rs = map fst (filter (\<lambda>(_, res). \<not> isl res) rs)"

definition publish_and_settle ::
  "(outbox_message \<Rightarrow> string) \<Rightarrow> 'p publisher \<Rightarrow> (string \<Rightarrow> system_time) \<Rightarrow> system_time \<Rightarrow> nat
     \<Rightarrow> outbox_message list \<Rightarrow> 'p \<Rightarrow> outbox_table
     \<Rightarrow> 'p \<times> outbox_table \<times> (repository_error + settle_outcome)" where
  "publish_and_settle dbg publish clock now max_attempts claimed p t =
     (case try_map (\<lambda>m. rbind (claim_ref_from_message dbg m) (\<lambda>c. Inr (c, message_from_outbox m))) claimed of
        Inl e \<Rightarrow> (p, t, Inl e)
      | Inr work \<Rightarrow>
          let (p, results) = publish_all publish work p in
          (case settle_failures dbg clock max_attempts results
                  \<lparr>so_published = 0, so_released = 0, so_failed = 0\<rparr> t of
             (t, Inl e) \<Rightarrow> (p, t, Inl e)
           | (t, Inr out) \<Rightarrow>
               (case complete_many dbg now (published_claims results) t of
                  (t, Inl e) \<Rightarrow> (p, t, Inl e)
                | (t, Inr _) \<Rightarrow>
                    (p, t, Inr (out\<lparr>so_published := length (published_claims results)\<rparr>)))))"

definition dispatch_claimed ::
  "(outbox_message \<Rightarrow> string) \<Rightarrow> 'p publisher \<Rightarrow> (string \<Rightarrow> system_time) \<Rightarrow> system_time \<Rightarrow> nat
     \<Rightarrow> outbox_message list \<Rightarrow> 'p \<Rightarrow> outbox_table
     \<Rightarrow> 'p \<times> outbox_table \<times> (transport_error + dispatch_outcome)" where
  "dispatch_claimed dbg publish clock now max_attempts claimed p t =
     (case publish_and_settle dbg publish clock now max_attempts claimed p t of
        (p, t, Inl e) \<Rightarrow> (p, t, Inl (transport_error_from_repository e))
      | (p, t, Inr out) \<Rightarrow>
          (p, t, Inr \<lparr>do_requested = 0, do_claimed = length claimed, do_published = so_published out,
                      do_released = so_released out, do_failed = so_failed out\<rparr>))"

text \<open>
  A dispatcher, and the clock readings of one pass: of the claim, of each row's own claim, of each
  recorded failure, and of the batched completion.
\<close>

record 'p dispatcher =
  ds_publish :: "'p publisher"
  ds_worker_id :: string
  ds_lease :: duration
  ds_max_attempts :: nat

record dispatch_clock =
  dk_claim :: system_time
  dk_wall :: "string \<Rightarrow> system_time"
  dk_settle :: "string \<Rightarrow> system_time"
  dk_complete :: system_time

definition dispatch_ids ::
  "(outbox_message \<Rightarrow> string) \<Rightarrow> 'p dispatcher \<Rightarrow> dispatch_clock \<Rightarrow> string list \<Rightarrow> 'p \<Rightarrow> outbox_table
     \<Rightarrow> 'p \<times> outbox_table \<times> (transport_error + dispatch_outcome)" where
  "dispatch_ids dbg d k ids p t =
     (case store_claim (claim_request_for_ids (ds_worker_id d) ids (ds_lease d))
             (dk_claim k) (dk_wall k) t of
        (t, Inl e) \<Rightarrow> (p, t, Inl (transport_error_from_repository e))
      | (t, Inr claimed) \<Rightarrow>
          (case dispatch_claimed dbg (ds_publish d) (dk_settle k) (dk_complete k) (ds_max_attempts d)
                  claimed p t of
             (p, t, Inl e) \<Rightarrow> (p, t, Inl e)
           | (p, t, Inr out) \<Rightarrow> (p, t, Inr (out\<lparr>do_requested := length ids\<rparr>))))"

definition dispatch_batch ::
  "(outbox_message \<Rightarrow> string) \<Rightarrow> 'p dispatcher \<Rightarrow> dispatch_clock \<Rightarrow> nat \<Rightarrow> 'p \<Rightarrow> outbox_table
     \<Rightarrow> 'p \<times> outbox_table \<times> (transport_error + dispatch_outcome)" where
  "dispatch_batch dbg d k batch_size p t =
     (case store_claim (claim_request_new (ds_worker_id d) batch_size (ds_lease d))
             (dk_claim k) (dk_wall k) t of
        (t, Inl e) \<Rightarrow> (p, t, Inl (transport_error_from_repository e))
      | (t, Inr claimed) \<Rightarrow>
          (case dispatch_claimed dbg (ds_publish d) (dk_settle k) (dk_complete k) (ds_max_attempts d)
                  claimed p t of
             (p, t, Inl e) \<Rightarrow> (p, t, Inl e)
           | (p, t, Inr out) \<Rightarrow> (p, t, Inr (out\<lparr>do_requested := batch_size\<rparr>))))"

section \<open>Settling a claim, once for the three operations\<close>

text \<open>
  What the dispatcher relies on when it settles a row: the operation succeeds exactly for an active
  claim, changes only the claimed row, and takes it out of flight.
\<close>

definition outbox_wf :: "outbox_table \<Rightarrow> bool" where
  "outbox_wf t \<longleftrightarrow> distinct (map fst t) \<and> hm_all (\<lambda>i m. ob_id m = i) t"

lemma outbox_wf_update: "outbox_wf t \<Longrightarrow> ob_id m = i \<Longrightarrow> outbox_wf (AList.update i m t)"
  by (simp add: outbox_wf_def hm_all_update distinct_update)

lemma outbox_wf_lookup: "outbox_wf t \<Longrightarrow> map_of t i = Some m \<Longrightarrow> ob_id m = i"
  unfolding outbox_wf_def by (auto dest: hm_all_lookup)

lemma active_in_flight: "ensure_active_claim dbg now (Some c) m = Inr () \<Longrightarrow> ob_status m = InFlight"
  by (auto simp: ensure_active_claim_def split: if_splits)

locale claim_settlement =
  fixes dbg :: "outbox_message \<Rightarrow> string"
    and settle :: "system_time \<Rightarrow> claim_ref \<Rightarrow> outbox_table \<Rightarrow> outbox_table \<times> (repository_error + unit)"
    and upd :: "outbox_message \<Rightarrow> outbox_message"
  assumes settle_missing:
      "map_of t (cf_message_id c) = None \<Longrightarrow> settle now c t = (t, Inl (NotFound (cf_message_id c)))"
    and settle_refused:
      "map_of t (cf_message_id c) = Some m \<Longrightarrow> ensure_active_claim dbg now (Some c) m = Inl e \<Longrightarrow>
       settle now c t = (t, Inl e)"
    and settle_active:
      "map_of t (cf_message_id c) = Some m \<Longrightarrow> ensure_active_claim dbg now (Some c) m = Inr () \<Longrightarrow>
       settle now c t = (AList.update (cf_message_id c) (upd m) t, Inr ())"
    and upd_id: "ob_id (upd m) = ob_id m"
    and upd_settled: "ob_status (upd m) \<noteq> InFlight"
begin

lemma settle_cases:
  "(\<exists>e. settle now c t = (t, Inl e)) \<or>
   (\<exists>m. map_of t (cf_message_id c) = Some m \<and> ob_status m = InFlight \<and>
        settle now c t = (AList.update (cf_message_id c) (upd m) t, Inr ()))"
proof (cases "map_of t (cf_message_id c)")
  case None
  then show ?thesis by (simp add: settle_missing)
next
  case (Some m)
  then show ?thesis
    by (cases "ensure_active_claim dbg now (Some c) m")
       (auto simp: settle_refused settle_active active_in_flight)
qed

lemma settle_wf: "outbox_wf t \<Longrightarrow> outbox_wf (fst (settle now c t))"
  using settle_cases [of now c t] by (auto simp: outbox_wf_update upd_id outbox_wf_lookup)

lemma settle_keeps_settled:
  "map_of t i = Some m \<Longrightarrow> ob_status m \<noteq> InFlight \<Longrightarrow> map_of (fst (settle now c t)) i = Some m"
  using settle_cases [of now c t] by (auto simp: update_conv')

lemma settle_spent:
  "map_of t (cf_message_id c) = Some m \<Longrightarrow> ob_status m \<noteq> InFlight \<Longrightarrow>
   fst (settle now c t) = t \<and> isl (snd (settle now c t))"
  using settle_cases [of now c t] by auto

end

definition completed :: "outbox_message \<Rightarrow> outbox_message" where
  "completed m = m\<lparr>ob_status := Published, ob_worker_id := None, ob_leased_until := None\<rparr>"

definition released :: "string \<Rightarrow> outbox_message \<Rightarrow> outbox_message" where
  "released err m = m\<lparr>ob_status := Pending, ob_last_error := (if err = [] then None else Some err),
                      ob_worker_id := None, ob_leased_until := None\<rparr>"

definition failed :: "string \<Rightarrow> outbox_message \<Rightarrow> outbox_message" where
  "failed err m = m\<lparr>ob_status := Failed, ob_last_error := (if err = [] then None else Some err),
                    ob_worker_id := None, ob_leased_until := None\<rparr>"

interpretation st_complete: claim_settlement dbg "store_complete dbg" completed for dbg
  by unfold_locales
     (auto simp: store_complete_def update_outbox_message_def settle_claim_def complete_def
        completed_def res_simps dest: active_in_flight)

interpretation st_release: claim_settlement dbg "\<lambda>now c. store_release dbg now c err" "released err"
  for dbg err
  by unfold_locales
     (auto simp: store_release_def update_outbox_message_def settle_claim_def release_def
        released_def res_simps dest: active_in_flight)

interpretation st_fail: claim_settlement dbg "\<lambda>now c. store_fail dbg now c err" "failed err"
  for dbg err
  by unfold_locales
     (auto simp: store_fail_def update_outbox_message_def settle_claim_def fail_def
        failed_def res_simps dest: active_in_flight)

section \<open>Claims\<close>

definition final_row :: "outbox_message \<Rightarrow> bool" where
  "final_row m \<longleftrightarrow> ob_status m = Published \<or> ob_status m = Failed"

lemma final_row_facts:
  "final_row m \<Longrightarrow> ob_status m \<noteq> InFlight" "final_row m \<Longrightarrow> \<not> is_claimable_at now m"
  by (auto simp: final_row_def is_claimable_at_def has_expired_lease_at_def)

lemma claim_at_result:
  assumes "claim_at w wk l now m = Inr m'"
  shows "ob_id m' = ob_id m" "ob_status m' = InFlight"
  using assms by (auto simp: claim_at_def claim_def res_simps split: if_splits)

text \<open>Whatever each single claim keeps, the loop keeps; the rows it returns are those it claimed.\<close>

lemma claim_loop_invariant:
  assumes step: "\<And>i m m' cl t. P cl t \<Longrightarrow> map_of t i = Some m \<Longrightarrow> is_claimable_at now m \<Longrightarrow>
      claim_at (wall i) (rq_worker_id rq) (rq_lease rq) now m = Inr m' \<Longrightarrow>
      P (cl @ [m']) (AList.update i m' t)"
    and start: "P cl t"
  shows "\<exists>cs. P cs (fst (claim_loop rq now wall ids cl t)) \<and>
              (isl (snd (claim_loop rq now wall ids cl t)) \<or>
               snd (claim_loop rq now wall ids cl t) = Inr cs)"
  using start
proof (induction ids arbitrary: cl t)
  case Nil
  then show ?case by auto
next
  case (Cons i ids)
  show ?case
  proof (cases "map_of t i")
    case None
    with Cons show ?thesis by simp
  next
    case (Some m)
    show ?thesis
    proof (cases "claim_at (wall i) (rq_worker_id rq) (rq_lease rq) now m")
      case (Inl e)
      with Some Cons show ?thesis by auto
    next
      case (Inr m')
      show ?thesis
      proof (cases "is_claimable_at now m")
        case True
        from step [OF Cons.prems Some True Inr] Some Inr True Cons show ?thesis
          by (auto simp: Let_def)
      next
        case False
        with Some Cons show ?thesis by auto
      qed
    qed
  qed
qed

lemma store_claim_invariant:
  assumes "\<And>i m m' cl t. P cl t \<Longrightarrow> map_of t i = Some m \<Longrightarrow> is_claimable_at now m \<Longrightarrow>
      claim_at (wall i) (rq_worker_id rq) (rq_lease rq) now m = Inr m' \<Longrightarrow>
      P (cl @ [m']) (AList.update i m' t)"
    and "P [] t"
  shows "\<exists>cs. P cs (fst (store_claim rq now wall t)) \<and>
              (isl (snd (store_claim rq now wall t)) \<or> snd (store_claim rq now wall t) = Inr cs)"
  using claim_loop_invariant [of P now wall rq "[]" t, OF assms] assms(2)
  by (auto simp: store_claim_def)

definition claims_keep :: "string \<Rightarrow> outbox_message \<Rightarrow> outbox_message list \<Rightarrow> outbox_table \<Rightarrow> bool" where
  "claims_keep i m cl t \<longleftrightarrow> outbox_wf t \<and> map_of t i = Some m \<and> i \<notin> ob_id ` set cl"

lemma claims_keep_step:
  assumes "claims_keep i m cl t" "final_row m" "map_of t j = Some mj" "is_claimable_at now mj"
    "claim_at w wk l now mj = Inr m'"
  shows "claims_keep i m (cl @ [m']) (AList.update j m' t)"
proof -
  have "j \<noteq> i" using assms final_row_facts(2) [of m now] by (auto simp: claims_keep_def)
  moreover have "ob_id m' = j"
    using assms claim_at_result(1) [OF assms(5)] outbox_wf_lookup [of t j mj] by (simp add: claims_keep_def)
  ultimately show ?thesis
    using assms by (simp add: claims_keep_def outbox_wf_update update_conv')
qed

lemma store_claim_wf:
  assumes "outbox_wf t"
  shows "outbox_wf (fst (store_claim rq now wall t))"
proof -
  have "\<exists>cs :: outbox_message list. outbox_wf (fst (store_claim rq now wall t)) \<and>
              (isl (snd (store_claim rq now wall t)) \<or> snd (store_claim rq now wall t) = Inr cs)"
    by (rule store_claim_invariant [of "\<lambda>_. outbox_wf"])
       (use assms in \<open>auto simp: outbox_wf_update outbox_wf_lookup dest: claim_at_result(1)\<close>)
  then show ?thesis by blast
qed

lemma store_claim_final:
  assumes "outbox_wf t" "map_of t i = Some m" "final_row m"
  shows "map_of (fst (store_claim rq now wall t)) i = Some m"
    "snd (store_claim rq now wall t) = Inr cs \<Longrightarrow> i \<notin> ob_id ` set cs"
proof -
  obtain cs' where "claims_keep i m cs' (fst (store_claim rq now wall t))"
    "isl (snd (store_claim rq now wall t)) \<or> snd (store_claim rq now wall t) = Inr cs'"
    using store_claim_invariant [of "claims_keep i m" now wall rq t] claims_keep_step [OF _ assms(3)]
      assms(1,2) claims_keep_def [of i m "[]" t] by auto
  then show "map_of (fst (store_claim rq now wall t)) i = Some m"
    "snd (store_claim rq now wall t) = Inr cs \<Longrightarrow> i \<notin> ob_id ` set cs"
    by (auto simp: claims_keep_def)
qed

section \<open>Any interleaving of workers\<close>

inductive outbox_step :: "(outbox_message \<Rightarrow> string) \<Rightarrow> outbox_table \<Rightarrow> outbox_table \<Rightarrow> bool" for dbg where
  step_claim: "outbox_step dbg t (fst (store_claim rq now wall t))"
| step_complete: "outbox_step dbg t (fst (store_complete dbg now c t))"
| step_release: "outbox_step dbg t (fst (store_release dbg now c err t))"
| step_fail: "outbox_step dbg t (fst (store_fail dbg now c err t))"

lemma outbox_step_final:
  assumes "outbox_step dbg t t'" "outbox_wf t" "map_of t i = Some m" "final_row m"
  shows "outbox_wf t' \<and> map_of t' i = Some m"
  using assms
  by cases (simp_all add: store_claim_wf store_claim_final(1) st_complete.settle_wf
      st_release.settle_wf st_fail.settle_wf st_complete.settle_keeps_settled
      st_release.settle_keeps_settled st_fail.settle_keeps_settled final_row_facts(1))

lemma outbox_steps_final:
  assumes "(outbox_step dbg)\<^sup>*\<^sup>* t t'" "outbox_wf t" "map_of t i = Some m" "final_row m"
  shows "outbox_wf t' \<and> map_of t' i = Some m"
  using assms by (induction rule: rtranclp_induct) (auto dest: outbox_step_final)

text \<open>
  C31: A row that was published, or failed for good, is settled once: whatever claims and settlements
  any workers make afterwards, in any order and with any clocks, the row stays exactly as it was,
  every further completion, release or failure of it is refused and changes nothing, and no claim
  hands it out again.
\<close>

theorem settled_row_is_final:
  assumes "outbox_wf t" "map_of t (cf_message_id c) = Some m" "final_row m"
    "(outbox_step dbg)\<^sup>*\<^sup>* t t'"
  shows "map_of t' (cf_message_id c) = Some m \<and>
    fst (store_complete dbg now c t') = t' \<and> isl (snd (store_complete dbg now c t')) \<and>
    fst (store_release dbg now c err t') = t' \<and> isl (snd (store_release dbg now c err t')) \<and>
    fst (store_fail dbg now c err t') = t' \<and> isl (snd (store_fail dbg now c err t')) \<and>
    (snd (store_claim rq now wall t') = Inr cs \<longrightarrow> cf_message_id c \<notin> ob_id ` set cs)"
proof -
  have f: "outbox_wf t'" "map_of t' (cf_message_id c) = Some m"
    using outbox_steps_final [OF assms(4,1,2,3)] by auto
  note flight = final_row_facts(1) [OF assms(3)]
  show ?thesis
    using f st_complete.settle_spent [OF f(2) flight] st_release.settle_spent [OF f(2) flight]
      st_fail.settle_spent [OF f(2) flight] store_claim_final(2) [OF f assms(3)] by simp
qed

section \<open>One dispatch pass\<close>

definition claimable_id :: "system_time \<Rightarrow> outbox_table \<Rightarrow> string \<Rightarrow> bool" where
  "claimable_id now t i = (case map_of t i of None \<Rightarrow> False | Some m \<Rightarrow> is_claimable_at now m)"

lemma claimable_filter_update:
  "i \<notin> set ids \<Longrightarrow>
   filter (claimable_id now (AList.update i m t)) ids = filter (claimable_id now t) ids"
  by (rule filter_cong) (auto simp: claimable_id_def update_conv')

lemma claim_loop_count:
  assumes ok: "\<And>i m. is_claimable_at now m \<Longrightarrow>
      \<exists>m'. claim_at (wall i) (rq_worker_id rq) (rq_lease rq) now m = Inr m'"
    and rq: "rq_message_ids rq = None" "rq_destination rq = None"
    and "distinct ids" "length cl < rq_batch_size rq"
  shows "\<exists>cs. snd (claim_loop rq now wall ids cl t) = Inr cs \<and>
    length cs = min (rq_batch_size rq) (length cl + length (filter (claimable_id now t) ids))"
  using assms(4,5)
proof (induction ids arbitrary: cl t)
  case Nil
  then show ?case by simp
next
  case (Cons i ids)
  have sel: "request_selects rq i" by (simp add: request_selects_def rq)
  show ?case
  proof (cases "claimable_id now t i")
    case False
    with Cons sel show ?thesis by (auto simp: claimable_id_def split: option.splits)
  next
    case True
    then obtain m where m: "map_of t i = Some m" "is_claimable_at now m"
      by (auto simp: claimable_id_def split: option.splits)
    obtain m' where m': "claim_at (wall i) (rq_worker_id rq) (rq_lease rq) now m = Inr m'"
      using ok [OF m(2)] by blast
    show ?thesis
    proof (cases "rq_batch_size rq \<le> Suc (length cl)")
      case True
      with m m' sel rq Cons.prems \<open>claimable_id now t i\<close> show ?thesis by (auto simp: Let_def)
    next
      case False
      with Cons.IH [of "cl @ [m']" "AList.update i m' t"] m m' sel rq Cons.prems
        \<open>claimable_id now t i\<close> show ?thesis
        by (auto simp: Let_def claimable_filter_update)
    qed
  qed
qed

lemma wf_ids: "outbox_wf t \<Longrightarrow> map ob_id (map snd t) = map fst t"
  by (auto simp: outbox_wf_def hm_all_def list_all_iff)

lemma claim_order_distinct: "outbox_wf t \<Longrightarrow> distinct (claim_order_ids (map snd t))"
proof -
  assume wf: "outbox_wf t"
  have "mset (claim_order_ids (map snd t)) = mset (map fst t)"
    using wf_ids [OF wf] by (metis claim_order_ids_def mset_map mset_sort)
  then show ?thesis using wf by (metis outbox_wf_def mset_eq_imp_distinct_iff)
qed

lemma claim_order_claimable:
  assumes "outbox_wf t"
  shows "length (filter (claimable_id now t) (claim_order_ids (map snd t))) =
         length (filter (is_claimable_at now) (map snd t))"
proof -
  have row: "claimable_id now t (ob_id m) = is_claimable_at now m" if "m \<in> set (map snd t)" for m
    using that assms by (auto simp: claimable_id_def outbox_wf_def hm_all_def list_all_iff)
  have "length (filter (claimable_id now t) (claim_order_ids (map snd t))) =
        length (filter (claimable_id now t \<circ> ob_id) (sort_key claim_order_key (map snd t)))"
    by (simp add: claim_order_ids_def filter_map)
  also have "\<dots> = length (filter (is_claimable_at now) (sort_key claim_order_key (map snd t)))"
    using row by (intro arg_cong [where f = length] filter_cong) auto
  also have "\<dots> = length (filter (is_claimable_at now) (map snd t))"
    by (metis mset_filter mset_sort size_mset)
  finally show ?thesis .
qed

text \<open>The rows a claim hands out are in the table, in flight, leased to the worker.\<close>

definition held :: "string \<Rightarrow> system_time \<Rightarrow> outbox_message \<Rightarrow> bool" where
  "held w until m \<longleftrightarrow> ob_status m = InFlight \<and> ob_worker_id m = Some w \<and> ob_leased_until m = Some until"

definition claims_held ::
  "outbox_table \<Rightarrow> string \<Rightarrow> system_time \<Rightarrow> outbox_message list \<Rightarrow> outbox_table \<Rightarrow> bool" where
  "claims_held t0 w until cl t \<longleftrightarrow>
     outbox_wf t \<and> distinct (map ob_id cl) \<and>
     list_all (\<lambda>m. map_of t (ob_id m) = Some m \<and> held w until m) cl \<and>
     (\<forall>i. i \<notin> ob_id ` set cl \<longrightarrow> map_of t i = map_of t0 i)"

lemma claim_at_held:
  assumes "claim_at wl w l now m = Inr m'" "lease_deadline now l = Inr until"
  shows "held w until m'"
  using assms by (auto simp: claim_at_def claim_def held_def res_simps split: if_splits)

lemma claim_at_ok:
  assumes "is_claimable_at now m" "now \<le> wl" "lease_deadline now l = Inr until" "\<not> blank w"
  shows "\<exists>m'. claim_at wl w l now m = Inr m'"
  using assms
  by (auto simp: claim_at_def claim_def validate_non_empty_def is_claimable_at_def
      has_expired_lease_at_def split: option.splits)

lemma claims_held_step:
  assumes inv: "claims_held t0 w until cl t" and m: "map_of t i = Some m" "is_claimable_at now m"
    and cl: "claim_at wl w l now m = Inr m'" and dl: "lease_deadline now l = Inr until" "now < until"
  shows "claims_held t0 w until (cl @ [m']) (AList.update i m' t)"
proof -
  have idm: "ob_id m' = i"
    using claim_at_result(1) [OF cl] inv outbox_wf_lookup [OF _ m(1)] by (simp add: claims_held_def)
  have "\<not> is_claimable_at now x" if "held w until x" for x
    using that dl(2) by (auto simp: held_def is_claimable_at_def has_expired_lease_at_def)
  then have fresh: "\<forall>x \<in> set cl. ob_id x \<noteq> i"
    using inv m by (auto simp: claims_held_def list_all_iff)
  then show ?thesis
    using inv idm claim_at_held [OF cl dl(1)]
    by (auto simp: claims_held_def outbox_wf_update update_conv' list_all_iff)
qed

text \<open>Settling live claims.\<close>

definition live :: "system_time \<Rightarrow> outbox_table \<Rightarrow> claim_ref \<Rightarrow> bool" where
  "live until t c \<longleftrightarrow> (case map_of t (cf_message_id c) of None \<Rightarrow> False
     | Some m \<Rightarrow> held (cf_worker_id c) until m \<and> ob_attempts m = cf_attempt c)"

definition row_status :: "outbox_table \<Rightarrow> string \<Rightarrow> outbox_status option" where
  "row_status t i = map_option ob_status (map_of t i)"

definition status_count :: "outbox_status \<Rightarrow> outbox_table \<Rightarrow> string list \<Rightarrow> nat" where
  "status_count s t ids = length (filter (\<lambda>i. row_status t i = Some s) ids)"

lemma live_active:
  assumes "live until t c" "now < until"
  obtains m where "map_of t (cf_message_id c) = Some m" "ensure_active_claim dbg now (Some c) m = Inr ()"
  using assms
  by (auto simp: live_def held_def ensure_active_claim_def is_claimed_by_def has_expired_lease_at_def
      split: option.splits)

lemma live_frame: "map_of t' (cf_message_id c) = map_of t (cf_message_id c) \<Longrightarrow> live until t' c = live until t c"
  by (simp add: live_def)

lemma complete_live:
  assumes "live until t c" "now < until"
  shows "\<exists>m. store_complete dbg now c t = (AList.update (cf_message_id c) m t, Inr ()) \<and> ob_status m = Published"
  by (rule live_active [OF assms, of dbg]) (auto simp: st_complete.settle_active completed_def)

lemma record_failure_live:
  assumes "live until t c" "now < until"
  shows "\<exists>m. record_failure dbg now c err mx t =
           (AList.update (cf_message_id c) m t, Inr (if mx \<le> cf_attempt c then ActionFailed else ActionReleased)) \<and>
         ob_status m = (if mx \<le> cf_attempt c then Failed else Pending)"
  by (rule live_active [OF assms, of dbg])
     (auto simp: record_failure_def st_fail.settle_active st_release.settle_active failed_def released_def)

lemma complete_many_live:
  assumes "list_all (live until t) cs" "distinct (map cf_message_id cs)" "now < until"
  shows "\<exists>t'. complete_many dbg now cs t = (t', Inr ()) \<and>
    (\<forall>i. i \<notin> cf_message_id ` set cs \<longrightarrow> map_of t' i = map_of t i) \<and>
    (\<forall>i \<in> cf_message_id ` set cs. row_status t' i = Some Published)"
  using assms(1,2)
proof (induction cs arbitrary: t)
  case (Cons c cs)
  obtain m where m: "store_complete dbg now c t = (AList.update (cf_message_id c) m t, Inr ())"
      "ob_status m = Published"
    using complete_live [of until t c now dbg] Cons.prems assms(3) by auto
  have "list_all (live until (AList.update (cf_message_id c) m t)) cs"
    using Cons.prems by (auto simp: list_all_iff live_def update_conv' image_iff)
  from Cons.IH [OF this] Cons.prems m show ?case
    by (fastforce simp: row_status_def update_conv')
qed simp

definition failed_ids :: "(claim_ref \<times> publish_result) list \<Rightarrow> string list" where
  "failed_ids rs = map (cf_message_id \<circ> fst) (filter (\<lambda>(_, res). isl res) rs)"

lemma status_count_Cons:
  "status_count s t (i # ids) = (if row_status t i = Some s then 1 else 0) + status_count s t ids"
  by (simp add: status_count_def)

lemma failed_ids_simps [simp]:
  "failed_ids [] = []" "failed_ids ((c, Inr u) # rs) = failed_ids rs"
  "failed_ids ((c, Inl e) # rs) = cf_message_id c # failed_ids rs"
  by (simp_all add: failed_ids_def)

lemma failed_ids_subset: "set (failed_ids rs) \<subseteq> set (map (cf_message_id \<circ> fst) rs)"
  by (auto simp: failed_ids_def)

lemma settle_failures_live:
  assumes "list_all (live until t \<circ> fst) rs" "distinct (map (cf_message_id \<circ> fst) rs)"
    "\<And>i. clock i < until"
  shows "\<exists>t' out'. settle_failures dbg clock mx rs out t = (t', Inr out') \<and>
    (\<forall>i. i \<notin> set (failed_ids rs) \<longrightarrow> map_of t' i = map_of t i) \<and>
    so_released out' = so_released out + status_count Pending t' (failed_ids rs) \<and>
    so_failed out' = so_failed out + status_count Failed t' (failed_ids rs) \<and>
    (\<forall>i \<in> set (failed_ids rs). row_status t' i = Some Pending \<or> row_status t' i = Some Failed)"
  using assms(1,2)
proof (induction rs arbitrary: t out)
  case Nil
  then show ?case by (simp add: status_count_def)
next
  case (Cons r rs)
  obtain c res where r: "r = (c, res)" by (cases r)
  show ?case
  proof (cases res)
    case (Inr u)
    with Cons r show ?thesis by simp
  next
    case (Inl e)
    define i where "i = cf_message_id c"
    obtain m where m: "record_failure dbg (clock i) c (display_transport_error e) mx t =
          (AList.update i m t, Inr (if mx \<le> cf_attempt c then ActionFailed else ActionReleased))"
        "ob_status m = (if mx \<le> cf_attempt c then Failed else Pending)"
      using record_failure_live [of until t c "clock i" dbg "display_transport_error e" mx]
        Cons.prems r assms(3) by (auto simp: i_def)
    define out1 where "out1 = (if mx \<le> cf_attempt c then out\<lparr>so_failed := Suc (so_failed out)\<rparr>
                               else out\<lparr>so_released := Suc (so_released out)\<rparr>)"
    have "list_all (live until (AList.update i m t) \<circ> fst) rs"
      using Cons.prems r by (auto simp: list_all_iff live_def update_conv' image_iff i_def)
    from Cons.IH [OF this, of out1] Cons.prems r obtain t' out' where
      ih: "settle_failures dbg clock mx rs out1 (AList.update i m t) = (t', Inr out')"
        "\<forall>j. j \<notin> set (failed_ids rs) \<longrightarrow> map_of t' j = map_of (AList.update i m t) j"
        "so_released out' = so_released out1 + status_count Pending t' (failed_ids rs)"
        "so_failed out' = so_failed out1 + status_count Failed t' (failed_ids rs)"
        "\<forall>j \<in> set (failed_ids rs). row_status t' j = Some Pending \<or> row_status t' j = Some Failed"
      by auto
    have "i \<notin> set (failed_ids rs)" using Cons.prems r failed_ids_subset [of rs] by (auto simp: i_def)
    then have st: "row_status t' i = Some (if mx \<le> cf_attempt c then Failed else Pending)"
      using ih(2) m(2) by (simp add: row_status_def update_conv')
    show ?thesis
      by (rule exI [of _ t'], rule exI [of _ out'])
         (use ih m(1) st in \<open>auto simp: r Inl i_def [symmetric] status_count_Cons out1_def update_conv'\<close>)
  qed
qed

lemma publish_all_claims: "map fst (snd (publish_all publish work p)) = map fst work"
  by (induction publish work p rule: publish_all.induct) (auto split: prod.splits)

definition claim_of :: "string \<Rightarrow> system_time \<Rightarrow> outbox_message \<Rightarrow> claim_ref" where
  "claim_of w until m = \<lparr>cf_message_id = ob_id m, cf_worker_id = w, cf_leased_until = until, cf_attempt = ob_attempts m\<rparr>"

lemma work_of_held:
  "list_all (held w until) ms \<Longrightarrow>
   try_map (\<lambda>m. rbind (claim_ref_from_message dbg m) (\<lambda>c. Inr (c, message_from_outbox m))) ms =
   Inr (map (\<lambda>m. (claim_of w until m, message_from_outbox m)) ms)"
  by (induction ms) (simp_all add: claim_ref_from_message_def held_def claim_of_def)

lemma published_partition:
  "mset (map cf_message_id (published_claims rs)) + mset (failed_ids rs) =
   mset (map (cf_message_id \<circ> fst) rs)"
  by (induction rs) (auto simp: published_claims_def failed_ids_def)

lemma status_count_mset: "mset xs = mset ys \<Longrightarrow> status_count s t xs = status_count s t ys"
  unfolding status_count_def by (metis mset_filter size_mset)

lemma status_count_append: "status_count s t (xs @ ys) = status_count s t xs + status_count s t ys"
  by (simp add: status_count_def)

lemma status_count_all: "\<forall>i \<in> set xs. row_status t i = Some s \<Longrightarrow>
  status_count s' t xs = (if s' = s then length xs else 0)"
  by (induction xs) (auto simp: status_count_def)

lemma status_count_frame: "\<forall>i \<in> set xs. map_of t' i = map_of t i \<Longrightarrow> status_count s t' xs = status_count s t xs"
  by (induction xs) (auto simp: status_count_def row_status_def)

lemma status_count_split: "\<forall>i \<in> set xs. row_status t i = Some Pending \<or> row_status t i = Some Failed \<Longrightarrow>
  length xs = status_count Pending t xs + status_count Failed t xs \<and> status_count Published t xs = 0"
  by (induction xs) (auto simp: status_count_def)

definition accounts :: "string list \<Rightarrow> outbox_table \<Rightarrow> nat \<times> nat \<times> nat \<Rightarrow> bool" where
  "accounts ids t n \<longleftrightarrow>
     n = (status_count Published t ids, status_count Pending t ids, status_count Failed t ids) \<and>
     length ids = fst n + fst (snd n) + snd (snd n)"

lemma settle_accounts:
  assumes "list_all (live until t \<circ> fst) rs" "distinct (map (cf_message_id \<circ> fst) rs)"
    "\<And>i. clock i < until" "now < until"
    and ids: "mset ids = mset (map (cf_message_id \<circ> fst) rs)"
  shows "\<exists>t1 t' out. settle_failures dbg clock mx rs
      \<lparr>so_published = 0, so_released = 0, so_failed = 0\<rparr> t = (t1, Inr out) \<and>
    complete_many dbg now (published_claims rs) t1 = (t', Inr ()) \<and>
    (\<forall>i. i \<notin> set ids \<longrightarrow> map_of t' i = map_of t i) \<and>
    accounts ids t' (length (published_claims rs), so_released out, so_failed out)"
proof -
  let ?ps = "map cf_message_id (published_claims rs)" and ?fs = "failed_ids rs"
  obtain t1 out where f: "settle_failures dbg clock mx rs
        \<lparr>so_published = 0, so_released = 0, so_failed = 0\<rparr> t = (t1, Inr out)"
      "\<forall>i. i \<notin> set ?fs \<longrightarrow> map_of t1 i = map_of t i"
      "so_released out = status_count Pending t1 ?fs" "so_failed out = status_count Failed t1 ?fs"
      "\<forall>i \<in> set ?fs. row_status t1 i = Some Pending \<or> row_status t1 i = Some Failed"
    using settle_failures_live [where clock = clock and dbg = dbg and mx = mx and
        out = "\<lparr>so_published = 0, so_released = 0, so_failed = 0\<rparr>", OF assms(1,2,3)] by auto
  have ms: "mset (?ps @ ?fs) = mset ids" using published_partition [of rs] ids by simp
  have dist: "distinct (?ps @ ?fs)" using ms ids assms(2) by (metis mset_eq_imp_distinct_iff)
  have "live until t1 c" if "c \<in> set (published_claims rs)" for c
  proof -
    have "live until t c" using that assms(1) by (auto simp: list_all_iff published_claims_def)
    moreover have "cf_message_id c \<notin> set ?fs" using that dist by auto
    ultimately show ?thesis using f(2) live_frame [of t1 c t until] by simp
  qed
  then have "list_all (live until t1) (published_claims rs)" by (simp add: list_all_iff)
  then obtain t' where c: "complete_many dbg now (published_claims rs) t1 = (t', Inr ())"
      "\<forall>i. i \<notin> set ?ps \<longrightarrow> map_of t' i = map_of t1 i"
      "\<forall>i \<in> set ?ps. row_status t' i = Some Published"
    using complete_many_live [of until t1 "published_claims rs" now dbg] dist assms(4) by auto
  have fr: "\<forall>i \<in> set ?fs. map_of t' i = map_of t1 i" using c(2) dist by auto
  have cnt: "status_count s t' ids =
      (if s = Published then length (published_claims rs) else 0) + status_count s t1 ?fs" for s
    using status_count_mset [OF ms, of s t'] status_count_all [OF c(3), of s] status_count_frame [OF fr, of s]
    by (auto simp: status_count_append split: if_splits)
  have "accounts ids t' (length (published_claims rs), so_released out, so_failed out)"
    using status_count_split [OF f(5)] f(3,4) mset_eq_length [OF ms] by (simp add: accounts_def cnt)
  moreover have "\<forall>i. i \<notin> set ids \<longrightarrow> map_of t' i = map_of t i"
    using mset_eq_setD [OF ms] f(2) c(2) by (metis UnI1 UnI2 set_append)
  ultimately show ?thesis using f(1) c(1) by blast
qed

lemma publish_and_settle_held:
  assumes "claims_held t0 w until cs t" "\<And>i. clock i < until" "now < until"
  shows "\<exists>p' t' out. publish_and_settle dbg publish clock now mx cs p t = (p', t', Inr out) \<and>
    (\<forall>i. i \<notin> ob_id ` set cs \<longrightarrow> map_of t' i = map_of t i) \<and>
    accounts (map ob_id cs) t' (so_published out, so_released out, so_failed out)"
proof -
  define work where "work = map (\<lambda>m. (claim_of w until m, message_from_outbox m)) cs"
  obtain p' rs where rs: "publish_all publish work p = (p', rs)" by fastforce
  have fst_rs: "map fst rs = map (claim_of w until) cs"
    using publish_all_claims [of publish work p] rs by (simp add: work_def comp_def)
  then have ids: "map (cf_message_id \<circ> fst) rs = map ob_id cs"
    by (metis (no_types, lifting) claim_of_def claim_ref.select_convs(1) list.map_comp map_eq_conv comp_apply)
  have "list_all (live until t) (map fst rs)"
    using assms(1) by (auto simp: fst_rs list_all_iff claims_held_def live_def claim_of_def held_def)
  then have lv: "list_all (live until t \<circ> fst) rs" by (simp add: list_all_iff)
  have "distinct (map (cf_message_id \<circ> fst) rs)" using assms(1) by (simp add: ids claims_held_def)
  from settle_accounts [where clock = clock and ids = "map ob_id cs" and dbg = dbg and mx = mx, OF lv this assms(2,3)] obtain t1 t' out where s:
      "settle_failures dbg clock mx rs \<lparr>so_published = 0, so_released = 0, so_failed = 0\<rparr> t = (t1, Inr out)"
      "complete_many dbg now (published_claims rs) t1 = (t', Inr ())"
      "\<forall>i. i \<notin> set (map ob_id cs) \<longrightarrow> map_of t' i = map_of t i"
      "accounts (map ob_id cs) t' (length (published_claims rs), so_released out, so_failed out)"
    by (auto simp: ids)
  have "list_all (held w until) cs" using assms(1) by (auto simp: claims_held_def list_all_iff)
  then have "publish_and_settle dbg publish clock now mx cs p t =
      (p', t', Inr (out\<lparr>so_published := length (published_claims rs)\<rparr>))"
    using rs s(1,2) by (simp add: publish_and_settle_def work_of_held work_def)
  with s(3,4) show ?thesis by simp
qed

lemma store_claim_held:
  assumes "outbox_wf t" "\<not> blank w" "lease_deadline now l = Inr until" "now < until"
    "\<And>i. now \<le> wall i"
  shows "\<exists>cs t'. store_claim (claim_request_new w n l) now wall t = (t', Inr cs) \<and>
    claims_held t w until cs t' \<and> length cs = min n (length (filter (is_claimable_at now) (map snd t)))"
proof -
  let ?rq = "claim_request_new w n l" and ?ids = "claim_order_ids (map snd t)"
  have "\<exists>cs. snd (store_claim ?rq now wall t) = Inr cs \<and>
      length cs = min n (length (filter (is_claimable_at now) (map snd t)))"
    using claim_loop_count [of now wall ?rq ?ids "[]" t] claim_at_ok [where wl = "wall i" for i, OF _ assms(5,3,2)]
      claim_order_distinct [OF assms(1)] claim_order_claimable [OF assms(1), of now]
    by (auto simp: claim_request_new_def store_claim_def)
  moreover have "\<exists>cs. claims_held t w until cs (fst (store_claim ?rq now wall t)) \<and>
      (isl (snd (store_claim ?rq now wall t)) \<or> snd (store_claim ?rq now wall t) = Inr cs)"
    by (rule store_claim_invariant)
       (use assms in \<open>auto intro: claims_held_step simp: claim_request_new_def claims_held_def [of t w until "[]"]\<close>)
  ultimately show ?thesis by (cases "store_claim ?rq now wall t") auto
qed


section \<open>Example rows\<close>

definition row_of :: "string \<Rightarrow> outbox_status \<Rightarrow> outbox_message" where
  "row_of i s = outbox_message_new\<lparr>ob_id := i, ob_event_type := ''e'', ob_status := s\<rparr>"

definition example_outbox :: outbox_table where
  "example_outbox = [(''a'', row_of ''a'' Pending), (''b'', row_of ''b'' Pending), (''c'', row_of ''c'' Published)]"

definition example_ref :: claim_ref where
  "example_ref = \<lparr>cf_message_id = ''c'', cf_worker_id = ''w'', cf_leased_until = 10, cf_attempt = 0\<rparr>"

text \<open>A publisher that refuses the message of row b.\<close>

definition example_dispatcher :: "string list dispatcher" where
  "example_dispatcher =
     \<lparr>ds_publish = (\<lambda>sent msg. if bm_id msg = Some ''b''
        then (sent, Inl (transport_error_new TransportRetryable ''down''))
        else (sent @ [bm_name msg], Inr ())),
      ds_worker_id = ''w'', ds_lease = 10, ds_max_attempts = 3\<rparr>"

definition example_clock :: dispatch_clock where
  "example_clock = \<lparr>dk_claim = 1, dk_wall = (\<lambda>_. 1), dk_settle = (\<lambda>_. 2), dk_complete = 3\<rparr>"

lemma example_outbox_facts:
  "outbox_wf example_outbox" "map_of example_outbox ''c'' = Some (row_of ''c'' Published)"
  "final_row (row_of ''c'' Published)"
  by (simp_all add: outbox_wf_def hm_all_def example_outbox_def row_of_def final_row_def)

theorem settled_row_is_final_witness:
  "map_of (fst (store_claim (claim_request_new ''w'' 5 10) 1 (\<lambda>_. 1) example_outbox)) ''c'' =
     Some (row_of ''c'' Published) \<and>
   isl (snd (store_complete (\<lambda>_. []) 2 example_ref
     (fst (store_claim (claim_request_new ''w'' 5 10) 1 (\<lambda>_. 1) example_outbox))))"
  using settled_row_is_final [of example_outbox example_ref "row_of ''c'' Published" "\<lambda>_. []"
      "fst (store_claim (claim_request_new ''w'' 5 10) 1 (\<lambda>_. 1) example_outbox)" 2]
    example_outbox_facts r_into_rtranclp [of "outbox_step (\<lambda>_. [])", OF step_claim]
  by (simp add: example_ref_def)


end
