(* ===== verification/Spec2Isabelle.thy ===== *)
theory Spec2Isabelle
  imports
    Entity Outbox_Message Read_Model_Store Commit_Batch Projection_Properties Repo_Properties
    Queued_Repo Outbox_Store
begin

text \<open>
  \<^bold>\<open>The program.\<close> The repository \<^verbatim>\<open>distributed\<close> is a Rust framework for event-sourced services.
  An aggregate records events in an \<^emph>\<open>entity\<close>; a \<^emph>\<open>commit batch\<close> carries the new events of several
  entities together with outbox messages, read-model rows, inbox receipts and snapshots, and a
  \<^emph>\<open>repository\<close> commits it in one transaction. A \<^emph>\<open>command ledger\<close> makes a command take effect once:
  a reservation acquires an attempt under a lease, the commit of the attempt's batch completes the
  ledger row in the same transaction, and a later reservation replays the recorded outcome. A
  \<^emph>\<open>projection store\<close> keeps derived tables with positions, revisions and a change log, so that every
  input is applied once, failures stop a partition until they are repaired, and readers can
  follow the changes. This development models these parts as they are written for the in-memory
  backend, which is the reference the SQL backends follow.

  \<^bold>\<open>Conventions.\<close> A \<^verbatim>\<open>struct\<close> is a record, an \<^verbatim>\<open>enum\<close> a datatype, a \<^verbatim>\<open>Result\<close> a sum with the error on
  the left, a method that takes \<^verbatim>\<open>&mut self\<close> returns the new state. A \<^verbatim>\<open>HashMap\<close> is an association list
  read with \<^const>\<open>map_of\<close>, a \<^verbatim>\<open>BTreeMap\<close> one in key order. \<^verbatim>\<open>u64\<close> is a natural number with the bound and
  the wrapping, checked or saturating operation written out; \<^verbatim>\<open>SystemTime\<close> is an integer number of
  nanoseconds, and every reading of the clock is an argument. A panic is a value (\<^const>\<open>None\<close> or a
  constructor of its own), so that its absence is a theorem. Code outside the sources is a parameter:
  SHA-256, the JSON, base64, UUID and bitcode codecs and the rendering of table values. What a
  property needs of them is a named hypothesis with a witness.

  \<^bold>\<open>Theories\<close> (paths below \<^verbatim>\<open>src/src\<close>).
  \<^item> \<^verbatim>\<open>Dist_Prelude\<close>: results, hash maps, ordered maps, machine arithmetic, time and text, with the
    collections \<^verbatim>\<open>res_simps\<close> and their lemmas.
  \<^item> \<^verbatim>\<open>Event_Record\<close>, \<^verbatim>\<open>Upcaster\<close>, \<^verbatim>\<open>Entity\<close>: \<^verbatim>\<open>entity/event_record.rs\<close>, \<^verbatim>\<open>entity/upcaster.rs\<close> and
    \<^verbatim>\<open>entity/entity.rs\<close>. The invariant of every reachable entity, exactness of the new events, the
    sticky poison of a failed capture, agreement of the two upcasting passes.
  \<^item> \<^verbatim>\<open>Message_Ids\<close>, \<^verbatim>\<open>Trace_Context\<close>, \<^verbatim>\<open>Domain_Event\<close>: names and ids of \<^verbatim>\<open>bus\<close>, \<^verbatim>\<open>trace_context.rs\<close> and
    \<^verbatim>\<open>domain_event\<close>. Round trips of the wire forms and injectivity of the occurrence id.
  \<^item> \<^verbatim>\<open>Repo_Errors\<close>, \<^verbatim>\<open>Stream_Identity\<close>, \<^verbatim>\<open>Snapshot_Record\<close>, \<^verbatim>\<open>Commit_Batch\<close>: \<^verbatim>\<open>repository\<close>,
    \<^verbatim>\<open>lock/error.rs\<close> and \<^verbatim>\<open>snapshot\<close>. Error classification, storage keys and batch validation.
  \<^item> \<^verbatim>\<open>Table_Model\<close>, \<^verbatim>\<open>Read_Model_Store\<close>: \<^verbatim>\<open>table\<close> and \<^verbatim>\<open>read_model/in_memory.rs\<close>. Storage keys,
    atomicity of a write plan and the version step of a row.
  \<^item> \<^verbatim>\<open>Outbox_Message\<close>: \<^verbatim>\<open>outbox/message.rs\<close> and \<^verbatim>\<open>outbox/table.rs\<close>. The delivery state machine.
  \<^item> \<^verbatim>\<open>Outbox_Store\<close>: \<^verbatim>\<open>outbox_worker/store\<close> and \<^verbatim>\<open>outbox_worker/outbox_dispatch.rs\<close>. Claims and fenced
    settlements of the in-memory outbox, with the settlement contract as a locale, and the dispatch
    passes over any publisher. A settled row is final, and a pass settles all it claims.
  \<^item> \<^verbatim>\<open>Projection_Identity\<close>, \<^verbatim>\<open>Projection_Batch\<close>, \<^verbatim>\<open>Projection_State\<close>, \<^verbatim>\<open>Projection_Store\<close>:
    \<^verbatim>\<open>projection_protocol.rs\<close>, \<^verbatim>\<open>projection_protocol/store\<close> and \<^verbatim>\<open>in_memory_repo/projection_protocol\<close>. The
    positions and requests of the protocol, the state with its staging steps, and the transactions.
  \<^item> \<^verbatim>\<open>Projection_Safety\<close>, \<^verbatim>\<open>Projection_History\<close>, \<^verbatim>\<open>Projection_Properties\<close>: the invariant of the store,
    what every transaction keeps of its history, and the properties that follow.
  \<^item> \<^verbatim>\<open>Projection_Replay\<close>: \<^verbatim>\<open>projection_protocol/store/replay.rs\<close>, the replay form of the evidence of a
    projection written in the transaction of its command, and its round trip.
  \<^item> \<^verbatim>\<open>Command_Ledger\<close>: \<^verbatim>\<open>command_ledger\<close>. The row life cycle, stored shapes, the replay envelope and the
    cell storage form.
  \<^item> \<^verbatim>\<open>In_Memory_Repo\<close>: \<^verbatim>\<open>in_memory_repo/repository.rs\<close>. \<^verbatim>\<open>commit_batch_inner\<close> as everything that can fail
    (\<^verbatim>\<open>stage_batch\<close>) followed by the writes (\<^verbatim>\<open>publish_batch\<close>), and the reads and ledger operations.
  \<^item> \<^verbatim>\<open>Repo_Safety\<close>: the step relation of the whole repository, its invariant, and what a step keeps.
  \<^item> \<^verbatim>\<open>Event_Store\<close>: the contract of an event store with optimistic concurrency as a locale, in which
    lost updates are excluded once and for all.
  \<^item> \<^verbatim>\<open>Repo_Properties\<close>: the interpretation of that contract on the repository, and the properties of
    the commit: a command completes once and then replays, a superseded attempt is fenced, a message
    is processed once, concurrent writers conflict, a commit refines an append to the event log.
  \<^item> \<^verbatim>\<open>Aggregate\<close>, \<^verbatim>\<open>Aggregate_Repo\<close>: \<^verbatim>\<open>aggregate\<close> and \<^verbatim>\<open>snapshot\<close>. Hydration by replay and from a
    snapshot, and the typed repository over any implementation of the stream traits. Snapshots are
    transparent, and a committed aggregate is read back.
  \<^item> \<^verbatim>\<open>Memory_Lock\<close>, \<^verbatim>\<open>Queued_Repo\<close>: \<^verbatim>\<open>lock/in_memory.rs\<close> and \<^verbatim>\<open>queued_repo/repository.rs\<close>. Mutual exclusion
    and wakeups under eviction of idle locks, as a step relation of any number of tasks; and the
    wrapper that holds a stream's lock from a load to its commit, with the load that waits for its
    own lock when a snapshot is unusable.
\<close>

text \<open>
  \<^bold>\<open>Bounds.\<close> No definition uses fuel: the loops of the modelled code run over lists, and the upcaster
  chain, whose recursion is not structural, stops because the versions increase. The only numeric
  bounds are those of the machine types. A call that awaits a lock somebody holds is a value of its
  own, so that a theorem that a call returns says that it does not wait.

  \<^bold>\<open>Transactions.\<close> The in-memory backend takes every lock it needs before it checks anything and
  keeps them until it returns, so an operation is one step of the relations here. Poisoning of the
  standard library's mutexes is not modelled.

  \<^bold>\<open>Not modelled.\<close>
  \<^item> \<^verbatim>\<open>sqlx_repo\<close>, \<^verbatim>\<open>sqlite_repo\<close>, \<^verbatim>\<open>postgres_repo\<close>, the SQL and broker buses: the behaviour is in SQL text and
    client libraries that are not part of the sources.
  \<^item> \<^verbatim>\<open>graphql\<close>, \<^verbatim>\<open>microsvc\<close>, \<^verbatim>\<open>application\<close>, \<^verbatim>\<open>command_dispatch\<close> and the drain loop, source and publish
    hook of \<^verbatim>\<open>outbox_worker\<close>: hosting on asynchronous runtimes and HTTP, gRPC and GraphQL libraries.
  \<^item> Dispatch with more than one publish in flight, where rows may reach the transport out of order.
  \<^item> \<^verbatim>\<open>projection\<close> and \<^verbatim>\<open>mutation\<close>: the compilers from projection and mutation programs to the batches
    modelled here; \<^verbatim>\<open>distributed_macros\<close>, \<^verbatim>\<open>distributed_cli\<close> and the JavaScript client generate code.
  \<^item> Of the modelled files: serde implementations, \<^verbatim>\<open>Debug\<close> output, clone accessors, and the batched
    snapshot and graph reads, none of which changes state.
\<close>

end
